(* ===== verification/Prelude.thy ===== *)
theory Prelude
  imports Main "HOL-Library.Word" "HOL-Library.AList"
begin

text \<open>
  Shared vocabulary of the development: the machine integers of the Rust source as words,
  the saturating and checked operations of its standard library, results as sums, and the two
  loop forms the builder is written with. A \<^verbatim>\<open>for\<close> loop over a
  collection is \<open>for_in\<close>; a \<^verbatim>\<open>while let Some(x) = it.next()\<close> loop is
  \<open>while_next\<close>, whose value \<^const>\<open>None\<close> means that the loop does not
  return. In both, the state survives an early return, because the source mutates it
  through \<^verbatim>\<open>&mut\<close> references.
\<close>

named_theorems rust_arith "unsigned readings of the Rust integer operations"

section \<open>Machine integers\<close>

type_synonym u8 = "8 word"
type_synonym u16 = "16 word"
type_synonym u32 = "32 word"
type_synonym u64 = "64 word"
type_synonym u128 = "128 word"
type_synonym u256 = "256 word"
type_synonym b256 = "256 word"
type_synonym address = "160 word"
type_synonym bytes = "8 word list"

definition saturating_add :: "'a::len word \<Rightarrow> 'a word \<Rightarrow> 'a word" where
  "saturating_add a b = (if unat a + unat b < 2 ^ LENGTH('a) then a + b else - 1)"

definition saturating_sub :: "'a::len word \<Rightarrow> 'a word \<Rightarrow> 'a word" where
  "saturating_sub a b = (if b \<le> a then a - b else 0)"

definition saturating_mul :: "'a::len word \<Rightarrow> 'a word \<Rightarrow> 'a word" where
  "saturating_mul a b = (if unat a * unat b < 2 ^ LENGTH('a) then a * b else - 1)"

definition checked_add :: "'a::len word \<Rightarrow> 'a word \<Rightarrow> 'a word option" where
  "checked_add a b = (if unat a + unat b < 2 ^ LENGTH('a) then Some (a + b) else None)"

definition from_be_bytes :: "bytes \<Rightarrow> 'a::len word" where
  "from_be_bytes bs = foldl (\<lambda>acc b. acc * 256 + ucast b) 0 bs"

fun be_digits :: "nat \<Rightarrow> nat \<Rightarrow> nat list" where
  "be_digits 0 n = []"
| "be_digits (Suc k) n = be_digits k (n div 256) @ [n mod 256]"

definition to_be_bytes :: "'a::len word \<Rightarrow> bytes" where
  "to_be_bytes w = map of_nat (be_digits (LENGTH('a) div 8) (unat w))"

definition is_multiple_of :: "'a::len word \<Rightarrow> 'a word \<Rightarrow> bool" where
  "is_multiple_of a b = (if b = 0 then a = 0 else a mod b = 0)"

section \<open>Results and control flow\<close>

text \<open>\<open>Inl\<close> is \<^verbatim>\<open>Err\<close> and \<open>Inr\<close> is \<^verbatim>\<open>Ok\<close>.\<close>

primrec and_then :: "'e + 'a \<Rightarrow> ('a \<Rightarrow> 'e + 'b) \<Rightarrow> 'e + 'b" where
  "and_then (Inl e) f = Inl e"
| "and_then (Inr x) f = f x"

primrec map_err :: "('e \<Rightarrow> 'f) \<Rightarrow> 'e + 'a \<Rightarrow> 'f + 'a" where
  "map_err f (Inl e) = Inl (f e)"
| "map_err f (Inr x) = Inr x"

primrec ok_or :: "'e \<Rightarrow> 'a option \<Rightarrow> 'e + 'a" where
  "ok_or e None = Inl e"
| "ok_or e (Some x) = Inr x"

primrec unwrap_or :: "'a \<Rightarrow> 'a option \<Rightarrow> 'a" where
  "unwrap_or d None = d"
| "unwrap_or d (Some x) = x"

primrec opt_list :: "'a option \<Rightarrow> 'a list" where
  "opt_list None = []"
| "opt_list (Some x) = [x]"

primrec is_some_and :: "'a option \<Rightarrow> ('a \<Rightarrow> bool) \<Rightarrow> bool" where
  "is_some_and None p = False"
| "is_some_and (Some x) p = p x"

primrec is_ok :: "'e + 'a \<Rightarrow> bool" where
  "is_ok (Inl e) = False"
| "is_ok (Inr x) = True"

text \<open>The body of a loop either goes on with the next element (\<^verbatim>\<open>continue\<close> or the
  end of the body) or returns from the enclosing function.\<close>

datatype 'r flow = Continue | Return 'r

primrec for_in :: "('s \<Rightarrow> 'x \<Rightarrow> 'r flow \<times> 's) \<Rightarrow> 'x list \<Rightarrow> 's \<Rightarrow> 'r flow \<times> 's" where
  "for_in body [] s = (Continue, s)"
| "for_in body (x # xs) s =
     (case body s x of
        (Continue, s') \<Rightarrow> for_in body xs s'
      | (Return r, s') \<Rightarrow> (Return r, s'))"

partial_function (option) while_next ::
  "('s \<Rightarrow> ('x option \<times> 's) option) \<Rightarrow> ('s \<Rightarrow> 'x \<Rightarrow> 'r flow \<times> 's) \<Rightarrow> 's \<Rightarrow> ('r flow \<times> 's) option"
where
  "while_next nxt body s =
     (case nxt s of
        None \<Rightarrow> None
      | Some (None, s') \<Rightarrow> Some (Continue, s')
      | Some (Some x, s') \<Rightarrow>
          (case body s' x of
             (Continue, s'') \<Rightarrow> while_next nxt body s''
           | (Return r, s'') \<Rightarrow> Some (Return r, s'')))"

section \<open>Word lemmas\<close>

lemma unat_saturating_add [rust_arith]:
  "unat (saturating_add a (b :: 'a::len word)) = min (unat a + unat b) (2 ^ LENGTH('a) - 1)"
  by (auto simp: saturating_add_def unat_word_ariths unsigned_minus_1_eq_mask mask_eq_exp_minus_1)

lemma unat_saturating_sub [rust_arith]:
  "unat (saturating_sub a b) = unat a - unat b"
  by (simp add: saturating_sub_def unat_sub word_le_nat_alt)

lemma unat_saturating_mul [rust_arith]:
  "unat (saturating_mul a (b :: 'a::len word)) = min (unat a * unat b) (2 ^ LENGTH('a) - 1)"
  by (auto simp: saturating_mul_def unat_word_ariths unsigned_minus_1_eq_mask mask_eq_exp_minus_1)

lemma checked_add_Some [rust_arith]:
  "checked_add a (b :: 'a::len word) = Some c \<longleftrightarrow>
     unat a + unat b < 2 ^ LENGTH('a) \<and> unat c = unat a + unat b"
  by (auto simp: checked_add_def unat_word_ariths word_eq_iff_unsigned word_unat_eq_iff)

lemma checked_add_None [rust_arith]:
  "checked_add a (b :: 'a::len word) = None \<longleftrightarrow> 2 ^ LENGTH('a) \<le> unat a + unat b"
  by (auto simp: checked_add_def)

lemma unat_add_no_wrap [rust_arith]:
  "unat a + unat b < 2 ^ LENGTH('a) \<Longrightarrow> unat (a + (b :: 'a::len word)) = unat a + unat b"
  by (simp add: unat_word_ariths)

lemma unat_add_le: "unat (a + (b :: 'a::len word)) \<le> unat a + unat b"
  by (simp add: unat_word_ariths)

lemma saturating_sub_le [simp]: "saturating_sub a b \<le> a"
  by (simp add: word_le_nat_alt rust_arith)

lemma unat_le_max: "unat (a :: 'a::len word) \<le> 2 ^ LENGTH('a) - 1"
proof -
  have "unat a < 2 ^ LENGTH('a)" by (rule unsigned_less)
  then show ?thesis by linarith
qed

lemma unat_ucast_u16_u64 [simp]: "unat (ucast (s :: u16) :: u64) = unat s"
proof -
  have "unat s < 2 ^ 16" using unsigned_less [of s, where 'a = nat] by simp
  then show ?thesis by (simp add: unsigned_ucast_eq take_bit_nat_eq_self)
qed

lemma saturating_add_ge [simp]: "a \<le> saturating_add a b"
  using unat_le_max [of a] by (simp add: word_le_nat_alt rust_arith)

lemma is_some_and_iff: "is_some_and opt p \<longleftrightarrow> (\<exists>x. opt = Some x \<and> p x)"
  by (cases opt) auto

lemma and_then_eq_Inr: "and_then r f = Inr y \<longleftrightarrow> (\<exists>x. r = Inr x \<and> f x = Inr y)"
  by (cases r) auto

lemma map_sum_eq_Inr: "map_sum f g x = Inr y \<longleftrightarrow> (\<exists>z. x = Inr z \<and> y = g z)"
  by (cases x) auto

lemma map_err_eq_Inr [simp]: "map_err f r = Inr y \<longleftrightarrow> r = Inr y"
  by (cases r) auto

lemma ok_or_eq_Inr [simp]: "ok_or e r = Inr y \<longleftrightarrow> r = Some y"
  by (cases r) auto

section \<open>Bytes\<close>

lemma length_be_digits [simp]: "length (be_digits k n) = k"
  by (induction k n rule: be_digits.induct) simp_all

lemma be_digits_less: "d \<in> set (be_digits k n) \<Longrightarrow> d < 256"
  by (induction k n rule: be_digits.induct) auto

lemma be_digits_value: "n < 256 ^ k \<Longrightarrow> foldl (\<lambda>a d. a * 256 + d) 0 (be_digits k n) = n"
proof (induction k n rule: be_digits.induct)
  case (2 k n)
  then have "n div 256 < 256 ^ k" by (simp add: div_less_iff_less_mult mult.commute)
  then show ?case using 2 by simp
qed simp

lemma be_value_digits:
  "\<forall>d \<in> set ds. d < 256 \<Longrightarrow> foldl (\<lambda>a d. a * 256 + d) 0 ds < 256 ^ length ds \<and>
     be_digits (length ds) (foldl (\<lambda>a d. a * 256 + d) 0 ds) = ds"
proof (induction ds rule: rev_induct)
  case (snoc d ds)
  let ?v = "foldl (\<lambda>a d. a * 256 + d) 0 ds"
  have "?v + 1 \<le> 256 ^ length ds" "d < 256" using snoc by auto
  then have "(?v + 1) * 256 \<le> 256 ^ length ds * 256" by (intro mult_right_mono) simp_all
  then have "?v * 256 + d < 256 * 256 ^ length ds" using \<open>d < 256\<close> by simp
  then show ?case using snoc \<open>d < 256\<close> by simp
qed simp

lemma foldl_be_bytes:
  "\<forall>d \<in> set ds. d < 256 \<Longrightarrow>
     foldl (\<lambda>acc b. acc * 256 + ucast b) (of_nat a :: 'a::len word) (map (of_nat :: nat \<Rightarrow> u8) ds) =
     of_nat (foldl (\<lambda>a d. a * 256 + d) a ds)"
proof (induction ds arbitrary: a)
  case (Cons d ds)
  have "ucast (of_nat d :: u8) = (of_nat d :: 'a word)"
    using Cons.prems by (simp add: unsigned_of_nat take_bit_nat_eq_self)
  then show ?case using Cons.IH [of "a * 256 + d"] Cons.prems by simp
qed simp

lemma length_to_be_bytes [simp]: "length (to_be_bytes (w :: 'a::len word)) = LENGTH('a) div 8"
  by (simp add: to_be_bytes_def)

lemma pow_256: "8 dvd n \<Longrightarrow> (256 :: nat) ^ (n div 8) = 2 ^ n"
proof -
  assume "8 dvd n"
  then obtain k where "n = 8 * k" by (rule dvdE)
  then show ?thesis by (simp add: power_mult)
qed

lemma from_to_be_bytes:
  assumes "8 dvd LENGTH('a::len)"
  shows "from_be_bytes (to_be_bytes (w :: 'a word)) = w"
proof -
  have "unat w < 256 ^ (LENGTH('a) div 8)" using assms unsigned_less [of w, where 'a = nat] by (simp add: pow_256)
  then show ?thesis
    using foldl_be_bytes [of "be_digits (LENGTH('a) div 8) (unat w)" 0, where 'a = 'a] be_digits_less be_digits_value
    by (simp add: from_be_bytes_def to_be_bytes_def)
qed

lemma to_from_be_bytes:
  assumes "8 dvd LENGTH('a::len)" and "length bs = LENGTH('a) div 8"
  shows "to_be_bytes (from_be_bytes bs :: 'a word) = bs"
proof -
  let ?ds = "map unat bs"
  have small: "\<forall>d \<in> set ?ds. d < 256" using unat_le_max [where 'a = 8] by (auto simp: less_Suc_eq_le [symmetric])
  have "from_be_bytes bs = (of_nat (foldl (\<lambda>a d. a * 256 + d) 0 ?ds) :: 'a word)"
    using foldl_be_bytes [OF small, of 0, where 'a = 'a] by (simp add: from_be_bytes_def comp_def)
  moreover have "foldl (\<lambda>a d. a * 256 + d) 0 ?ds < 2 ^ LENGTH('a)"
    using be_value_digits [OF small] assms by (simp add: pow_256)
  ultimately show ?thesis
    using be_value_digits [OF small] assms(2) by (simp add: to_be_bytes_def unat_of_nat comp_def)
qed

section \<open>Loop lemmas\<close>

lemma for_in_append:
  "for_in body (xs @ ys) s =
     (case for_in body xs s of
        (Continue, s') \<Rightarrow> for_in body ys s'
      | (Return r, s') \<Rightarrow> (Return r, s'))"
  by (induction xs arbitrary: s) (auto split: prod.splits flow.splits)

lemma while_next_induct [consumes 1, case_names exhausted return continue]:
  assumes "while_next nxt body s = Some out"
    and exhausted: "\<And>s s'. nxt s = Some (None, s') \<Longrightarrow> P s (Continue, s')"
    and return: "\<And>s x t r u. nxt s = Some (Some x, t) \<Longrightarrow> body t x = (Return r, u) \<Longrightarrow> P s (Return r, u)"
    and continue: "\<And>s x t u out. nxt s = Some (Some x, t) \<Longrightarrow> body t x = (Continue, u) \<Longrightarrow>
      P u out \<Longrightarrow> P s out"
  shows "P s out"
proof -
  have "nxt = nxt \<longrightarrow> body = body \<longrightarrow> P s out"
    using _ assms(1)
  proof (rule while_next.raw_induct [where P = "\<lambda>n b s r. n = nxt \<longrightarrow> b = body \<longrightarrow> P s r"])
    fix loop n b s r
    assume IH: "\<And>n b s r. loop n b s = Some r \<Longrightarrow> n = nxt \<longrightarrow> b = body \<longrightarrow> P s r"
      and out: "(case n s of None \<Rightarrow> None | Some (None, s') \<Rightarrow> Some (Continue, s')
        | Some (Some x, s') \<Rightarrow> (case b s' x of (Continue, s'') \<Rightarrow> loop n b s''
            | (Return r, s'') \<Rightarrow> Some (Return r, s''))) = Some r"
    show "n = nxt \<longrightarrow> b = body \<longrightarrow> P s r"
    proof (intro impI)
      assume eqs: "n = nxt" "b = body"
      obtain x t where n: "nxt s = Some (x, t)"
        using out eqs by (auto split: option.splits)
      show "P s r"
      proof (cases x)
        case None
        then show ?thesis using out eqs n exhausted by auto
      next
        case (Some y)
        then show ?thesis
          using out eqs n IH [of nxt body] return [of s y t] continue [of s y t]
          by (auto split: prod.splits flow.splits)
      qed
    qed
  qed
  then show ?thesis by simp
qed

text \<open>A drawing loop returns when every draw returns and uses up a bounded supply that the body does
  not replenish; a loop that returns early has used up some of it.\<close>

lemma while_next_terminates:
  fixes m :: "'s \<Rightarrow> nat"
  assumes draw: "\<And>s. \<exists>r. nxt s = Some r"
    and less: "\<And>s x t. nxt s = Some (Some x, t) \<Longrightarrow> m t < m s"
    and le: "\<And>t x f u. body t x = (f, u) \<Longrightarrow> m u \<le> m t"
  shows "\<exists>r u. while_next nxt body s = Some (r, u) \<and> (r \<noteq> Continue \<longrightarrow> m u < m s)"
proof (induction "m s" arbitrary: s rule: less_induct)
  case less
  obtain x t where n: "nxt s = Some (x, t)" using draw [of s] by auto
  show ?case
  proof (cases x)
    case None
    then show ?thesis using n by (simp add: while_next.simps)
  next
    case (Some y)
    obtain f u where b: "body t y = (f, u)" by fastforce
    have dec: "m u < m s" using assms(2) [of s y t] le [OF b] n Some by simp
    show ?thesis
    proof (cases f)
      case Continue
      then show ?thesis using less [OF dec] dec n Some b
        by (subst (1) while_next.simps) (auto intro: less_trans)
    next
      case (Return r)
      then show ?thesis using n Some b dec by (simp add: while_next.simps)
    qed
  qed
qed

text \<open>The contract of a loop body: on the elements that can occur (\<open>D\<close>), one iteration
  relates the state before and after by a preorder \<open>R\<close> as long as an invariant
  \<open>I\<close> holds, and keeps the invariant. Then so does every loop over that body, however it
  ends.\<close>

locale loop_body =
  fixes body :: "'s \<Rightarrow> 'x \<Rightarrow> 'r flow \<times> 's"
    and D :: "'x \<Rightarrow> bool"
    and I :: "'s \<Rightarrow> bool"
    and R :: "'s \<Rightarrow> 's \<Rightarrow> bool"
  assumes R_refl: "R s s"
    and R_trans: "R s t \<Longrightarrow> R t u \<Longrightarrow> R s u"
    and body_inv: "I s \<Longrightarrow> D x \<Longrightarrow> I (snd (body s x))"
    and body_rel: "I s \<Longrightarrow> D x \<Longrightarrow> R s (snd (body s x))"
begin

lemma for_in_keeps: "I s \<Longrightarrow> \<forall>x \<in> set xs. D x \<Longrightarrow> I (snd (for_in body xs s)) \<and> R s (snd (for_in body xs s))"
proof (induction xs arbitrary: s)
  case Nil
  then show ?case by (simp add: R_refl)
next
  case (Cons x xs)
  then show ?case
    using body_inv [of s x] body_rel [of s x]
    by (auto split: prod.splits flow.splits intro: R_trans)
qed

end

text \<open>The same for a loop that draws its elements from a source that is part of the state.\<close>

locale drawing_loop = loop_body body D I R
  for body :: "'s \<Rightarrow> 'x \<Rightarrow> 'r flow \<times> 's" and D :: "'x \<Rightarrow> bool" and I :: "'s \<Rightarrow> bool"
    and R :: "'s \<Rightarrow> 's \<Rightarrow> bool" +
  fixes nxt :: "'s \<Rightarrow> ('x option \<times> 's) option"
  assumes nxt_inv: "I s \<Longrightarrow> nxt s = Some (y, s') \<Longrightarrow> I s'"
    and nxt_rel: "I s \<Longrightarrow> nxt s = Some (y, s') \<Longrightarrow> R s s'"
    and nxt_elem: "I s \<Longrightarrow> nxt s = Some (Some x, s') \<Longrightarrow> D x"
begin

lemma while_next_keeps:
  assumes "while_next nxt body s = Some (r, s')" and "I s"
  shows "I s' \<and> R s s'"
proof -
  have "I s \<Longrightarrow> I (snd (r, s')) \<and> R s (snd (r, s'))"
    using assms(1)
  proof (induction "(r, s')" arbitrary: r s' rule: while_next_induct)
    case (exhausted s s')
    then show ?case using nxt_inv nxt_rel by auto
  next
    case (return s x t r u)
    then show ?case
      using nxt_inv [of s "Some x" t] nxt_rel [of s "Some x" t] nxt_elem [of s x t] body_inv [of t x]
        body_rel [of t x] R_trans [of s t u] by auto
  next
    case (continue s x t u)
    then show ?case
      using nxt_inv [of s "Some x" t] nxt_rel [of s "Some x" t] nxt_elem [of s x t] body_inv [of t x]
        body_rel [of t x] R_trans [of s t u] R_trans [of s u s'] by auto
  qed
  then show ?thesis using assms(2) by simp
qed

end

end
