(* ===== verification/Evm_Env.thy ===== *)
theory Evm_Env
  imports Prelude
begin

text \<open>
  The types the builder shares with the libraries it is linked against (reth, revm, alloy), and
  the record \<open>evm_ops\<close> of the functions it calls there. Those libraries are not part of the
  repository: they enter every definition as the argument \<open>ops\<close>, and what a theorem relies on
  is a hypothesis about that argument. The EVM is used the way its interface documents it:
  \<open>transact\<close> runs a transaction and returns its result with a change set without
  applying it, \<open>commit\<close> applies a change set.
\<close>

section \<open>Transactions\<close>

datatype tx_type = Legacy | Eip2930 | Eip1559 | Eip4844 | Eip7702 | Deposit

text \<open>\<^verbatim>\<open>OpTransactionSigned\<close>: the parts of a signed transaction the builder reads.\<close>

record op_tx =
  tx_hash :: b256
  tx_ty :: tx_type
  tx_nonce :: u64
  tx_gas_limit :: u64
  encoded_2718 :: bytes

definition is_eip4844 :: "op_tx \<Rightarrow> bool" where
  "is_eip4844 tx = (tx_ty tx = Eip4844)"

definition is_deposit :: "op_tx \<Rightarrow> bool" where
  "is_deposit tx = (tx_ty tx = Deposit)"

text \<open>\<^verbatim>\<open>Recovered<OpTransactionSigned>\<close>: a transaction with its sender.\<close>

datatype recovered = Recovered (inner_tx: op_tx) (signer: address)

section \<open>Execution results and receipts\<close>

record evm_log =
  log_address :: address
  log_topics :: "b256 list"

datatype halt_reason = OutOfGas | OtherHalt string

datatype exec_result =
    Success (gas_used: u64) (result_logs: "evm_log list") (result_output: bytes)
  | Revert (gas_used: u64) (result_output: bytes)
  | Halt (gas_used: u64) (result_reason: halt_reason)

primrec is_success :: "exec_result \<Rightarrow> bool" where
  "is_success (Success g l out) = True"
| "is_success (Revert g out) = False"
| "is_success (Halt g why) = False"

primrec into_logs :: "exec_result \<Rightarrow> evm_log list" where
  "into_logs (Success g l out) = l"
| "into_logs (Revert g out) = []"
| "into_logs (Halt g why) = []"

text \<open>An error of \<^verbatim>\<open>transact\<close>: the transaction is invalid in this state, or the
  attempt failed (a database error, say).\<close>

datatype evm_err =
    InvalidTx (is_nonce_too_low: bool) (evm_err_msg: string)
  | EvmFatal (evm_err_msg: string)

record receipt =
  rc_status :: bool
  rc_cumulative_gas_used :: u64
  rc_logs :: "evm_log list"

record deposit_receipt =
  dr_inner :: receipt
  dr_deposit_nonce :: "u64 option"
  dr_deposit_receipt_version :: "u64 option"

datatype op_receipt =
    RLegacy receipt | REip2930 receipt | REip1559 receipt | REip7702 receipt
  | RDeposit deposit_receipt

primrec receipt_gas :: "op_receipt \<Rightarrow> u64" where
  "receipt_gas (RLegacy r) = rc_cumulative_gas_used r"
| "receipt_gas (REip2930 r) = rc_cumulative_gas_used r"
| "receipt_gas (REip1559 r) = rc_cumulative_gas_used r"
| "receipt_gas (REip7702 r) = rc_cumulative_gas_used r"
| "receipt_gas (RDeposit d) = rc_cumulative_gas_used (dr_inner d)"

section \<open>Pool transactions\<close>

text \<open>\<^verbatim>\<open>TransactionConditional\<close>: the block and timestamp range a bundle asks for.\<close>

record tx_conditional =
  block_number_min :: "u64 option"
  block_number_max :: "u64 option"
  timestamp_min :: "u64 option"
  timestamp_max :: "u64 option"

text \<open>\<^verbatim>\<open>OpPooledTransaction\<close>: a validated pool transaction.\<close>

record op_pooled_tx =
  pt_consensus :: recovered
  pt_estimated_da_size :: u64
  pt_interop_deadline :: "u64 option"
  pt_conditional :: "tx_conditional option"

section \<open>The functions of the linked libraries\<close>

record ('db, 'st) evm_ops =
  transact :: "'db \<Rightarrow> recovered \<Rightarrow> evm_err + exec_result \<times> 'st"
  commit :: "'db \<Rightarrow> 'st \<Rightarrow> 'db"
  load_cache_account :: "'db \<Rightarrow> address \<Rightarrow> unit + u64 option"
  fetch_da_footprint_gas_scalar :: "'db \<Rightarrow> u16 option"
  tx_estimated_size_fjord_bytes :: "bytes \<Rightarrow> u64"
  try_recover :: "op_tx \<Rightarrow> address option"
  decode_2718 :: "bytes \<Rightarrow> string + op_tx"
  effective_tip_per_gas :: "op_tx \<Rightarrow> u64 \<Rightarrow> u128 option"
  rb_build_receipt :: "op_tx \<Rightarrow> exec_result \<Rightarrow> u64 \<Rightarrow> op_receipt option"
  rb_build_deposit_receipt :: "deposit_receipt \<Rightarrow> op_receipt"
  matches_block_attributes :: "tx_conditional \<Rightarrow> u64 \<Rightarrow> u64 \<Rightarrow> bool"
  is_valid_interop :: "u64 \<Rightarrow> u64 \<Rightarrow> bool"
  hash_to_string :: "b256 \<Rightarrow> string"

text \<open>What the theorems assume of the EVM where they bound gas: a transaction that runs uses at
  most its gas limit, and one whose gas limit is above the block's is rejected as invalid. Both
  are rules of the protocol.\<close>

definition evm_gas_law :: "('db, 'st) evm_ops \<Rightarrow> u64 \<Rightarrow> bool" where
  "evm_gas_law ops env_gas_limit \<longleftrightarrow>
     (\<forall>db tx r st. transact ops db tx = Inr (r, st) \<longrightarrow>
        gas_used r \<le> tx_gas_limit (inner_tx tx) \<and> tx_gas_limit (inner_tx tx) \<le> env_gas_limit)"

text \<open>What they assume of the receipt builder: a receipt carries the cumulative gas it was
  built with, and the only transactions it leaves to the caller are deposits.\<close>

definition receipt_law :: "('db, 'st) evm_ops \<Rightarrow> bool" where
  "receipt_law ops \<longleftrightarrow>
     (\<forall>tx r g rc. rb_build_receipt ops tx r g = Some rc \<longrightarrow> receipt_gas rc = g) \<and>
     (\<forall>d. receipt_gas (rb_build_deposit_receipt ops d) = rc_cumulative_gas_used (dr_inner d))"

lemma evm_gas_lawD:
  assumes "evm_gas_law ops L" "transact ops db tx = Inr (r, st)"
  shows "gas_used r \<le> tx_gas_limit (inner_tx tx)" "tx_gas_limit (inner_tx tx) \<le> L"
  using assms by (auto simp: evm_gas_law_def)

end
