(* ===== verification/Pool_Tx.thy ===== *)
theory Pool_Tx
  imports Evm_Env
begin

text \<open>
  \<^verbatim>\<open>tx.rs\<close>: the pool transaction of the builder, which adds the options of a bundle (the
  hashes that may revert, the range of flashblocks) to the pool transaction of the node.
\<close>

section \<open>Model\<close>

record fb_pooled_tx =
  fb_inner :: op_pooled_tx
  reverted_hashes :: "b256 list option"
  flashblock_number_min :: "u64 option"
  flashblock_number_max :: "u64 option"

definition fb_from :: "op_pooled_tx \<Rightarrow> fb_pooled_tx" where
  "fb_from tx = \<lparr> fb_inner = tx, reverted_hashes = None,
     flashblock_number_min = None, flashblock_number_max = None \<rparr>"

definition with_reverted_hashes :: "fb_pooled_tx \<Rightarrow> b256 list \<Rightarrow> fb_pooled_tx" where
  "with_reverted_hashes tx hs = tx \<lparr> reverted_hashes := Some hs \<rparr>"

definition with_flashblock_number_min :: "fb_pooled_tx \<Rightarrow> u64 option \<Rightarrow> fb_pooled_tx" where
  "with_flashblock_number_min tx n = tx \<lparr> flashblock_number_min := n \<rparr>"

definition with_flashblock_number_max :: "fb_pooled_tx \<Rightarrow> u64 option \<Rightarrow> fb_pooled_tx" where
  "with_flashblock_number_max tx n = tx \<lparr> flashblock_number_max := n \<rparr>"

definition with_conditional :: "fb_pooled_tx \<Rightarrow> tx_conditional \<Rightarrow> fb_pooled_tx" where
  "with_conditional tx c =
     \<lparr> fb_inner = (fb_inner tx) \<lparr> pt_conditional := Some c \<rparr>,
       reverted_hashes = reverted_hashes tx,
       flashblock_number_min = flashblock_number_min tx,
       flashblock_number_max = flashblock_number_max tx \<rparr>"

definition with_interop_deadline :: "fb_pooled_tx \<Rightarrow> u64 \<Rightarrow> fb_pooled_tx" where
  "with_interop_deadline tx interop =
     fb_from ((fb_inner tx) \<lparr> pt_interop_deadline := Some interop \<rparr>)"

definition into_consensus :: "fb_pooled_tx \<Rightarrow> recovered" where
  "into_consensus tx = pt_consensus (fb_inner tx)"

definition fb_hash :: "fb_pooled_tx \<Rightarrow> b256" where
  "fb_hash tx = tx_hash (inner_tx (pt_consensus (fb_inner tx)))"

definition fb_sender :: "fb_pooled_tx \<Rightarrow> address" where
  "fb_sender tx = signer (pt_consensus (fb_inner tx))"

definition fb_nonce :: "fb_pooled_tx \<Rightarrow> u64" where
  "fb_nonce tx = tx_nonce (inner_tx (pt_consensus (fb_inner tx)))"

definition estimated_da_size :: "fb_pooled_tx \<Rightarrow> u64" where
  "estimated_da_size tx = pt_estimated_da_size (fb_inner tx)"

definition interop_deadline :: "fb_pooled_tx \<Rightarrow> u64 option" where
  "interop_deadline tx = pt_interop_deadline (fb_inner tx)"

definition conditional :: "fb_pooled_tx \<Rightarrow> tx_conditional option" where
  "conditional tx = pt_conditional (fb_inner tx)"

section \<open>Properties\<close>

lemmas fb_tx_defs = fb_from_def with_reverted_hashes_def with_flashblock_number_min_def
  with_flashblock_number_max_def with_conditional_def with_interop_deadline_def into_consensus_def
  fb_hash_def fb_sender_def fb_nonce_def estimated_da_size_def interop_deadline_def conditional_def

text \<open>Setting the interop deadline of a bundle transaction forgets that it is a bundle: the reverting
  hashes and the flashblock range are reset, whereas setting the conditional keeps them.\<close>

lemma interop_deadline_forgets_bundle:
  "reverted_hashes (with_interop_deadline tx d) = None \<and>
   flashblock_number_min (with_interop_deadline tx d) = None \<and>
   flashblock_number_max (with_interop_deadline tx d) = None \<and>
   reverted_hashes (with_conditional tx c) = reverted_hashes tx \<and>
   flashblock_number_min (with_conditional tx c) = flashblock_number_min tx \<and>
   flashblock_number_max (with_conditional tx c) = flashblock_number_max tx"
  by (simp add: fb_tx_defs)

end
