(* ===== verification/Bundle.thy ===== *)
theory Bundle
  imports Pool_Tx
begin

text \<open>
  Bundles: \<^verbatim>\<open>primitives/bundle.rs\<close> (validation of the block and flashblock ranges),
  \<^verbatim>\<open>revert_protection.rs\<close> (the RPC methods that accept a bundle and answer for dropped
  transactions) and \<^verbatim>\<open>monitor_tx_pool.rs\<close> (which records the dropped transactions). The pool,
  the chain provider, the node's own RPC and the cache are arguments.
\<close>

section \<open>Model: bundles\<close>

definition MAX_BLOCK_RANGE_BLOCKS :: u64 where
  "MAX_BLOCK_RANGE_BLOCKS = 10"

record bundle_request =
  bn_transactions :: "bytes list"
  bn_reverting_hashes :: "b256 list option"
  bn_block_number_min :: "u64 option"
  bn_block_number_max :: "u64 option"
  bn_flashblock_number_min :: "u64 option"
  bn_flashblock_number_max :: "u64 option"
  bn_min_timestamp :: "u64 option"
  bn_max_timestamp :: "u64 option"

datatype bundle_conditional_error =
    MinGreaterThanMax u64 u64
  | MaxBlockInPast u64 u64
  | MaxBlockTooHigh u64 u64 u64
  | MinTooHighForDefaultRange u64 u64
  | FlashblockMinGreaterThanMax u64 u64

record bundle_conditional =
  bc_transaction_conditional :: tx_conditional
  bc_flashblock_number_min :: "u64 option"
  bc_flashblock_number_max :: "u64 option"

text \<open>The first part: the block range, which yields the effective upper bound.\<close>

definition check_block_range ::
  "bundle_request \<Rightarrow> u64 \<Rightarrow> bundle_conditional_error + u64 option" where
  "check_block_range b last_block_number =
     (case bn_block_number_max b of
        Some hi \<Rightarrow>
          if is_some_and (bn_block_number_min b) (\<lambda>lo. hi < lo)
          then Inl (MinGreaterThanMax (the (bn_block_number_min b)) hi)
          else if hi \<le> last_block_number then Inl (MaxBlockInPast hi last_block_number)
          else
            let max_allowed = last_block_number + MAX_BLOCK_RANGE_BLOCKS in
            if max_allowed < hi then Inl (MaxBlockTooHigh hi last_block_number max_allowed)
            else Inr (Some hi)
      | None \<Rightarrow>
          let default_max = last_block_number + MAX_BLOCK_RANGE_BLOCKS in
          if is_some_and (bn_block_number_min b) (\<lambda>lo. default_max < lo)
          then Inl (MinTooHighForDefaultRange (the (bn_block_number_min b)) default_max)
          else Inr (Some default_max))"

definition bundle_conditional_of ::
  "bundle_request \<Rightarrow> u64 \<Rightarrow> bundle_conditional_error + bundle_conditional" where
  "bundle_conditional_of b last_block_number =
     and_then (check_block_range b last_block_number) (\<lambda>block_max.
       if is_some_and (bn_flashblock_number_min b) (\<lambda>lo. is_some_and (bn_flashblock_number_max b) (\<lambda>hi. hi < lo))
       then Inl (FlashblockMinGreaterThanMax (the (bn_flashblock_number_min b)) (the (bn_flashblock_number_max b)))
       else Inr
         \<lparr> bc_transaction_conditional =
             \<lparr> block_number_min = bn_block_number_min b, block_number_max = block_max,
               timestamp_min = bn_min_timestamp b, timestamp_max = bn_max_timestamp b \<rparr>,
           bc_flashblock_number_min = bn_flashblock_number_min b,
           bc_flashblock_number_max = bn_flashblock_number_max b \<rparr>)"

section \<open>Model: RPC\<close>

datatype rpc_error =
    InternalEthError
  | InvalidParams string
  | InvalidBundle bundle_conditional_error
  | RecoverFailed string
  | PoolRejected string
  | RpcPanic string

text \<open>What the RPC methods call: the chain head, the recovery of a raw transaction into a pool transaction,
  the pool, the receipts of the node, and the cache of dropped transactions, which is made with a capacity.\<close>

record ('p, 'c) rpc_env =
  best_block_number :: "unit + u64"
  recover_raw :: "bytes \<Rightarrow> string + op_pooled_tx"
  add_transaction :: "'p \<Rightarrow> fb_pooled_tx \<Rightarrow> (string + b256) \<times> 'p"
  node_receipt :: "b256 \<Rightarrow> string + op_receipt option"
  cache_new :: "nat \<Rightarrow> 'c"
  cache_insert :: "b256 \<Rightarrow> 'c \<Rightarrow> 'c"
  cache_get :: "'c \<Rightarrow> b256 \<Rightarrow> bool"

record 'p rpc_state =
  rpc_pool :: 'p
  bundle_requests :: nat
  valid_bundles :: nat
  failed_bundles :: nat

definition bundle_pool_tx :: "bundle_request \<Rightarrow> bundle_conditional \<Rightarrow> op_pooled_tx \<Rightarrow> fb_pooled_tx" where
  "bundle_pool_tx b c tx =
     with_conditional
       (with_flashblock_number_max
         (with_flashblock_number_min
           (with_reverted_hashes (fb_from tx) (unwrap_or [] (bn_reverting_hashes b)))
           (bc_flashblock_number_min c))
         (bc_flashblock_number_max c))
       (bc_transaction_conditional c)"

definition send_bundle_inner ::
  "('p, 'c) rpc_env \<Rightarrow> bundle_request \<Rightarrow> 'p \<Rightarrow> (rpc_error + b256) \<times> 'p" where
  "send_bundle_inner e b pool =
     (case best_block_number e of
        Inl _ \<Rightarrow> (Inl InternalEthError, pool)
      | Inr last_block_number \<Rightarrow>
          (case bn_transactions b of
             [] \<Rightarrow> (Inl (InvalidParams ''bundle must contain at least one transaction''), pool)
           | [bundle_transaction] \<Rightarrow>
               (case bundle_conditional_of b last_block_number of
                  Inl err \<Rightarrow> (Inl (InvalidBundle err), pool)
                | Inr c \<Rightarrow>
                    (case recover_raw e bundle_transaction of
                       Inl err \<Rightarrow> (Inl (RecoverFailed err), pool)
                     | Inr recovered \<Rightarrow>
                         (case add_transaction e pool (bundle_pool_tx b c recovered) of
                            (Inl err, pool') \<Rightarrow> (Inl (PoolRejected err), pool')
                          | (Inr outcome_hash, pool') \<Rightarrow> (Inr outcome_hash, pool'))))
           | _ \<Rightarrow> (Inl (InvalidParams ''bundle must contain exactly one transaction''), pool)))"

definition send_bundle ::
  "('p, 'c) rpc_env \<Rightarrow> bundle_request \<Rightarrow> 'p rpc_state \<Rightarrow> (rpc_error + b256) \<times> 'p rpc_state" where
  "send_bundle e b s =
     (let (result, pool) = send_bundle_inner e b (rpc_pool s);
          s' = s \<lparr> rpc_pool := pool, bundle_requests := bundle_requests s + 1 \<rparr> in
      (result,
       if is_ok result then s' \<lparr> valid_bundles := valid_bundles s' + 1 \<rparr>
       else s' \<lparr> failed_bundles := failed_bundles s' + 1 \<rparr>))"

text \<open>The receipt method unwraps the answer of the node's method: its error is a panic.\<close>

definition transaction_receipt ::
  "('p, 'c) rpc_env \<Rightarrow> 'c \<Rightarrow> b256 \<Rightarrow> rpc_error + op_receipt option" where
  "transaction_receipt e cache hash =
     (case node_receipt e hash of
        Inl err \<Rightarrow> Inl (RpcPanic err)
      | Inr (Some rc) \<Rightarrow> Inr (Some rc)
      | Inr None \<Rightarrow>
          if cache_get e cache hash
          then Inl (InvalidParams ''the transaction was dropped from the pool'')
          else Inr None)"

section \<open>Model: pool monitor\<close>

datatype pool_event =
    Pending b256 | Queued b256 | Mined b256 b256 | Replaced b256 b256 | Discarded b256 | InvalidEvent b256
  | Propagated

fun transaction_event_log :: "('p, 'c) rpc_env \<Rightarrow> pool_event \<Rightarrow> 'c \<Rightarrow> 'c" where
  "transaction_event_log e (Discarded hash) cache = cache_insert e hash cache"
| "transaction_event_log e event cache = cache"

definition monitor_tx_pool :: "('p, 'c) rpc_env \<Rightarrow> pool_event list \<Rightarrow> 'c \<Rightarrow> 'c" where
  "monitor_tx_pool e events cache = fold (transaction_event_log e) events cache"

section \<open>Properties\<close>

text \<open>The blocks a bundle may be included in, as the API promises them.\<close>

definition valid_range :: "bundle_request \<Rightarrow> u64 \<Rightarrow> bool" where
  "valid_range b head \<longleftrightarrow>
     (\<forall>hi. bn_block_number_max b = Some hi \<longrightarrow> unat head < unat hi \<and> unat hi \<le> unat head + 10 \<and>
        (\<forall>lo. bn_block_number_min b = Some lo \<longrightarrow> unat lo \<le> unat hi)) \<and>
     (bn_block_number_max b = None \<longrightarrow> (\<forall>lo. bn_block_number_min b = Some lo \<longrightarrow> unat lo \<le> unat head + 10)) \<and>
     (\<forall>lo hi. bn_flashblock_number_min b = Some lo \<and> bn_flashblock_number_max b = Some hi \<longrightarrow> unat lo \<le> unat hi)"

lemma unat_max_allowed:
  assumes "unat head < 2 ^ 64 - 10"
  shows "unat (head + MAX_BLOCK_RANGE_BLOCKS) = unat head + 10"
  using assms by (subst unat_add_no_wrap) (simp_all add: MAX_BLOCK_RANGE_BLOCKS_def)

text \<open>C16: A bundle passes validation exactly when its ranges are valid: an explicit last block is in the
  future, at most ten blocks ahead and not before the first block; without one, the first block is at most ten
  blocks ahead; the flashblock range is not empty. The condition attached to the transaction then has
  an upper bound, the explicit one or ten blocks ahead, and keeps the other bounds of the request.\<close>

theorem bundle_conditional_iff:
  assumes "unat head < 2 ^ 64 - 10"
  shows "bundle_conditional_of b head = Inr c \<longleftrightarrow>
    valid_range b head \<and>
    c = \<lparr> bc_transaction_conditional =
            \<lparr> block_number_min = bn_block_number_min b,
              block_number_max = Some (unwrap_or (head + 10) (bn_block_number_max b)),
              timestamp_min = bn_min_timestamp b, timestamp_max = bn_max_timestamp b \<rparr>,
          bc_flashblock_number_min = bn_flashblock_number_min b,
          bc_flashblock_number_max = bn_flashblock_number_max b \<rparr>"
proof -
  have fb: "is_some_and (bn_flashblock_number_min b) (\<lambda>lo. is_some_and (bn_flashblock_number_max b) (\<lambda>hi. hi < lo)) \<longleftrightarrow>
      \<not> (\<forall>lo hi. bn_flashblock_number_min b = Some lo \<and> bn_flashblock_number_max b = Some hi \<longrightarrow> unat lo \<le> unat hi)"
    by (auto simp: is_some_and_iff word_less_nat_alt)
  have range: "check_block_range b head = Inr m \<longleftrightarrow>
      (\<forall>hi. bn_block_number_max b = Some hi \<longrightarrow> unat head < unat hi \<and> unat hi \<le> unat head + 10 \<and>
        (\<forall>lo. bn_block_number_min b = Some lo \<longrightarrow> unat lo \<le> unat hi)) \<and>
      (bn_block_number_max b = None \<longrightarrow> (\<forall>lo. bn_block_number_min b = Some lo \<longrightarrow> unat lo \<le> unat head + 10)) \<and>
      m = Some (unwrap_or (head + 10) (bn_block_number_max b))" for m
    using unat_max_allowed [OF assms]
    by (cases "bn_block_number_max b"; cases "bn_block_number_min b")
      (auto simp: check_block_range_def Let_def word_less_nat_alt word_le_nat_alt not_less not_le
        MAX_BLOCK_RANGE_BLOCKS_def)
  show ?thesis
    unfolding bundle_conditional_of_def valid_range_def and_then_eq_Inr range fb
    by (cases "\<forall>lo hi. bn_flashblock_number_min b = Some lo \<and> bn_flashblock_number_max b = Some hi \<longrightarrow> unat lo \<le> unat hi")
      (simp_all only: if_True if_False not_True_eq_False not_False_eq_True sum.inject Inl_Inr_False, auto)
qed

theorem bundle_conditional_iff_witness:
  "bundle_conditional_of
     \<lparr> bn_transactions = [[1]], bn_reverting_hashes = None, bn_block_number_min = Some 101, bn_block_number_max = None,
       bn_flashblock_number_min = None, bn_flashblock_number_max = Some 3, bn_min_timestamp = None,
       bn_max_timestamp = None \<rparr> 100 =
   Inr \<lparr> bc_transaction_conditional = \<lparr> block_number_min = Some 101, block_number_max = Some 110,
           timestamp_min = None, timestamp_max = None \<rparr>,
         bc_flashblock_number_min = None, bc_flashblock_number_max = Some 3 \<rparr>"
  by (subst bundle_conditional_iff) (simp_all add: valid_range_def)

text \<open>The pool transaction of an accepted request.\<close>

definition bundle_offer :: "bundle_request \<Rightarrow> bundle_conditional \<Rightarrow> op_pooled_tx \<Rightarrow> fb_pooled_tx" where
  "bundle_offer b c tx =
     \<lparr> fb_inner = tx \<lparr> pt_conditional := Some (bc_transaction_conditional c) \<rparr>,
       reverted_hashes = Some (unwrap_or [] (bn_reverting_hashes b)),
       flashblock_number_min = bn_flashblock_number_min b,
       flashblock_number_max = bn_flashblock_number_max b \<rparr>"

lemma bundle_pool_tx_offer:
  assumes "bundle_conditional_of b head = Inr c"
  shows "bundle_pool_tx b c tx = bundle_offer b c tx"
proof -
  have "bc_flashblock_number_min c = bn_flashblock_number_min b" "bc_flashblock_number_max c = bn_flashblock_number_max b"
    using assms by (auto simp: bundle_conditional_of_def and_then_eq_Inr split: if_splits)
  then show ?thesis by (simp add: bundle_pool_tx_def bundle_offer_def fb_tx_defs)
qed

text \<open>A request is turned down before the pool sees it, or it is offered to the pool.\<close>

definition bundle_checks ::
  "('p, 'c) rpc_env \<Rightarrow> bundle_request \<Rightarrow> bundle_conditional \<Rightarrow> op_pooled_tx \<Rightarrow> bool" where
  "bundle_checks e b c tx \<longleftrightarrow>
     (\<exists>head rawtx. best_block_number e = Inr head \<and> bn_transactions b = [rawtx] \<and>
        bundle_conditional_of b head = Inr c \<and> recover_raw e rawtx = Inr tx)"

lemma send_bundle_inner_cases:
  obtains (refused) err where "send_bundle_inner e b pool = (Inl err, pool)" "\<And>c tx. \<not> bundle_checks e b c tx"
  | (offered) c tx where "bundle_checks e b c tx" "\<And>c' tx'. bundle_checks e b c' tx' \<Longrightarrow> c' = c \<and> tx' = tx"
      "send_bundle_inner e b pool =
         (map_sum PoolRejected id (fst (add_transaction e pool (bundle_offer b c tx))),
          snd (add_transaction e pool (bundle_offer b c tx)))"
proof (cases "\<exists>c tx. bundle_checks e b c tx")
  case True
  then obtain c tx where ok: "bundle_checks e b c tx" by blast
  show ?thesis
  proof (rule offered [OF ok])
    show "c' = c \<and> tx' = tx" if "bundle_checks e b c' tx'" for c' tx'
      using ok that by (auto simp: bundle_checks_def)
    show "send_bundle_inner e b pool =
        (map_sum PoolRejected id (fst (add_transaction e pool (bundle_offer b c tx))),
         snd (add_transaction e pool (bundle_offer b c tx)))"
      using ok
      by (auto simp: bundle_checks_def send_bundle_inner_def bundle_pool_tx_offer
          split: prod.split sum.split)
  qed
next
  case False
  have "\<exists>err. send_bundle_inner e b pool = (Inl err, pool)"
    using False
    by (auto simp: bundle_checks_def send_bundle_inner_def split: sum.split list.split)
  then show ?thesis using refused False by blast
qed

text \<open>
  What is wrong with a request, in the order in which the method looks: the chain head is unknown, the number of transactions is
  not one, the ranges are not valid, the transaction cannot be recovered, the pool does not take it. Each entry stands for itself; an entry
  that needs the outcome of an earlier one is left out without it.
\<close>

definition range_problem :: "('p, 'c) rpc_env \<Rightarrow> bundle_request \<Rightarrow> rpc_error list" where
  "range_problem e b =
     (case best_block_number e of
        Inl _ \<Rightarrow> []
      | Inr head \<Rightarrow> (case bundle_conditional_of b head of Inl err \<Rightarrow> [InvalidBundle err] | Inr _ \<Rightarrow> []))"

definition recover_problem :: "('p, 'c) rpc_env \<Rightarrow> bundle_request \<Rightarrow> rpc_error list" where
  "recover_problem e b =
     (case bn_transactions b of
        [] \<Rightarrow> []
      | rawtx # _ \<Rightarrow> (case recover_raw e rawtx of Inl err \<Rightarrow> [RecoverFailed err] | Inr _ \<Rightarrow> []))"

definition pool_problem :: "('p, 'c) rpc_env \<Rightarrow> bundle_request \<Rightarrow> 'p \<Rightarrow> rpc_error list" where
  "pool_problem e b pool =
     (case (best_block_number e, bn_transactions b) of
        (Inr head, [rawtx]) \<Rightarrow>
          (case (bundle_conditional_of b head, recover_raw e rawtx) of
             (Inr c, Inr tx) \<Rightarrow> (case fst (add_transaction e pool (bundle_offer b c tx)) of Inl err \<Rightarrow> [PoolRejected err] | Inr _ \<Rightarrow> [])
           | _ \<Rightarrow> [])
      | _ \<Rightarrow> [])"

definition bundle_problems :: "('p, 'c) rpc_env \<Rightarrow> bundle_request \<Rightarrow> 'p \<Rightarrow> rpc_error list" where
  "bundle_problems e b pool =
     (if is_ok (best_block_number e) then [] else [InternalEthError]) @
     (if length (bn_transactions b) = 0 then [InvalidParams ''bundle must contain at least one transaction''] else []) @
     (if 1 < length (bn_transactions b) then [InvalidParams ''bundle must contain exactly one transaction''] else []) @
     range_problem e b @ recover_problem e b @ pool_problem e b pool"

lemmas bundle_problem_defs = bundle_problems_def range_problem_def recover_problem_def pool_problem_def

lemma first_problem_reported:
  "(case fst (send_bundle_inner e b pool) of Inl err \<Rightarrow> \<exists>more. bundle_problems e b pool = err # more | Inr h \<Rightarrow> bundle_problems e b pool = [])"
proof (cases "best_block_number e")
  case (Inl u)
  then show ?thesis by (simp add: send_bundle_inner_def bundle_problem_defs)
next
  case head: (Inr head)
  consider (none) "bn_transactions b = []" | (one) rawtx where "bn_transactions b = [rawtx]"
    | (many) t u ts where "bn_transactions b = t # u # ts"
    by (cases "bn_transactions b"; cases "tl (bn_transactions b)") auto
  then show ?thesis
  proof cases
    case one
    show ?thesis
    proof (cases "bundle_conditional_of b head")
      case (Inl err)
      then show ?thesis using head one by (simp add: send_bundle_inner_def bundle_problem_defs)
    next
      case c: (Inr c)
      show ?thesis
      proof (cases "recover_raw e rawtx")
        case (Inl err)
        then show ?thesis using head one c by (simp add: send_bundle_inner_def bundle_problem_defs)
      next
        case (Inr tx)
        then show ?thesis using head one c bundle_pool_tx_offer [OF c, of tx]
          by (simp add: send_bundle_inner_def bundle_problem_defs split: prod.split sum.split)
      qed
    qed
  qed (use head in \<open>simp_all add: send_bundle_inner_def bundle_problem_defs\<close>)
qed

text \<open>C17: Sending a bundle: it is accepted exactly when the chain head is known, it has a single transaction, its
  ranges are valid, the transaction can be recovered and the pool takes it; otherwise the error is the first that applies, in this
  order. The pool is only ever offered that transaction marked as a bundle, with the reverting hashes (none if the request has
  none), the flashblock range and the block condition of the request, and it is not touched if an earlier check fails. Every
  request is counted, an accepted one as valid and a refused one as failed.\<close>

theorem send_bundle_behaviour:
  "(fst (send_bundle e b s) = Inr h \<longleftrightarrow>
      (\<exists>c tx. bundle_checks e b c tx \<and> fst (add_transaction e (rpc_pool s) (bundle_offer b c tx)) = Inr h)) \<and>
   (case fst (send_bundle e b s) of
      Inl err \<Rightarrow> \<exists>more. bundle_problems e b (rpc_pool s) = err # more
    | Inr _ \<Rightarrow> bundle_problems e b (rpc_pool s) = []) \<and>
   (if \<exists>c tx. bundle_checks e b c tx
    then \<exists>c tx. bundle_checks e b c tx \<and>
           rpc_pool (snd (send_bundle e b s)) = snd (add_transaction e (rpc_pool s) (bundle_offer b c tx))
    else rpc_pool (snd (send_bundle e b s)) = rpc_pool s) \<and>
   bundle_requests (snd (send_bundle e b s)) = bundle_requests s + 1 \<and>
   valid_bundles (snd (send_bundle e b s)) = valid_bundles s + (if is_ok (fst (send_bundle e b s)) then 1 else 0) \<and>
   failed_bundles (snd (send_bundle e b s)) = failed_bundles s + (if is_ok (fst (send_bundle e b s)) then 0 else 1)"
proof -
  obtain r pool where inner: "send_bundle_inner e b (rpc_pool s) = (r, pool)" by fastforce
  have out: "fst (send_bundle e b s) = r" "rpc_pool (snd (send_bundle e b s)) = pool"
    "bundle_requests (snd (send_bundle e b s)) = bundle_requests s + 1"
    "valid_bundles (snd (send_bundle e b s)) = valid_bundles s + (if is_ok r then 1 else 0)"
    "failed_bundles (snd (send_bundle e b s)) = failed_bundles s + (if is_ok r then 0 else 1)"
    by (simp_all add: send_bundle_def inner Let_def)
  have first: "case r of Inl err \<Rightarrow> \<exists>more. bundle_problems e b (rpc_pool s) = err # more | Inr _ \<Rightarrow> bundle_problems e b (rpc_pool s) = []"
    using first_problem_reported [of e b "rpc_pool s"] inner by simp
  show ?thesis
  proof (cases rule: send_bundle_inner_cases [of e b "rpc_pool s"])
    case (refused err)
    then show ?thesis using out inner first by auto
  next
    case (offered c tx)
    have "r = map_sum PoolRejected id (fst (add_transaction e (rpc_pool s) (bundle_offer b c tx)))"
      "pool = snd (add_transaction e (rpc_pool s) (bundle_offer b c tx))"
      using offered(3) inner by auto
    moreover have "(map_sum PoolRejected id x = Inr h) = (x = Inr h)" for x :: "string + b256"
      by (cases x) auto
    moreover have "bundle_checks e b c' tx' \<longleftrightarrow> c' = c \<and> tx' = tx" for c' tx'
      using offered(1,2) by blast
    ultimately show ?thesis using first by (simp add: out)
  qed
qed

section \<open>The cache of dropped transactions\<close>

text \<open>
  What the cache library documents: a new cache is empty; an entry is found until it is evicted, and none is evicted as long as the
  entries fit the capacity. Beyond it the library may evict any entry, or not admit the new one. The two functions of the law are
  the entries a cache holds and its capacity.
\<close>

definition cache_law :: "('p, 'c) rpc_env \<Rightarrow> ('c \<Rightarrow> b256 set) \<Rightarrow> ('c \<Rightarrow> nat) \<Rightarrow> bool" where
  "cache_law e entries cap \<longleftrightarrow>
     (\<forall>n. entries (cache_new e n) = {} \<and> cap (cache_new e n) = n) \<and>
     (\<forall>h c. cap (cache_insert e h c) = cap c \<and> entries (cache_insert e h c) \<subseteq> insert h (entries c) \<and>
        (card (insert h (entries c)) \<le> cap c \<longrightarrow> entries (cache_insert e h c) = insert h (entries c))) \<and>
     (\<forall>c h. cache_get e c h \<longleftrightarrow> h \<in> entries c)"

definition discarded :: "pool_event list \<Rightarrow> b256 set" where
  "discarded events = {h. Discarded h \<in> set events}"

lemma discarded_simps [simp]:
  "discarded [] = {}" "discarded (ev # events) = (case ev of Discarded h \<Rightarrow> insert h (discarded events) | _ \<Rightarrow> discarded events)"
  by (auto simp: discarded_def split: pool_event.split)

lemma finite_discarded [simp]: "finite (discarded events)"
proof -
  have "discarded events \<subseteq> (\<lambda>ev. case ev of Discarded h \<Rightarrow> h | _ \<Rightarrow> 0) ` set events" by (force simp: discarded_def)
  then show ?thesis by (rule finite_subset) simp
qed

lemma monitor_entries:
  assumes "cache_law e entries cap"
  shows "entries (monitor_tx_pool e events cache) \<subseteq> entries cache \<union> discarded events"
    and "finite (entries cache) \<Longrightarrow> card (entries cache \<union> discarded events) \<le> cap cache \<Longrightarrow>
      entries (monitor_tx_pool e events cache) = entries cache \<union> discarded events"
proof -
  have law: "entries (cache_insert e h c) \<subseteq> insert h (entries c)" "cap (cache_insert e h c) = cap c"
    "card (insert h (entries c)) \<le> cap c \<Longrightarrow> entries (cache_insert e h c) = insert h (entries c)" for h c
    using assms by (auto simp: cache_law_def)
  show "entries (monitor_tx_pool e events cache) \<subseteq> entries cache \<union> discarded events"
  proof (induction events arbitrary: cache)
    case (Cons ev events)
    have "entries (transaction_event_log e ev cache) \<union> discarded events \<subseteq> entries cache \<union> discarded (ev # events)"
      using law(1) [of _ cache] by (cases ev) auto
    then show ?case using Cons.IH [of "transaction_event_log e ev cache"] by (auto simp: monitor_tx_pool_def)
  qed (simp add: monitor_tx_pool_def)
  show "entries (monitor_tx_pool e events cache) = entries cache \<union> discarded events"
    if "finite (entries cache)" "card (entries cache \<union> discarded events) \<le> cap cache"
    using that
  proof (induction events arbitrary: cache)
    case (Cons ev events)
    let ?c = "transaction_event_log e ev cache"
    have "card (insert h (entries cache)) \<le> cap cache" if "ev = Discarded h" for h
      using Cons.prems that by (auto intro: order_trans [OF card_mono])
    then have c: "entries ?c \<union> discarded events = entries cache \<union> discarded (ev # events)" "cap ?c = cap cache" "finite (entries ?c)"
      using law(2,3) [of _ cache] Cons.prems(1) by (cases ev; simp)+
    show ?case using Cons.IH [of ?c] c Cons.prems(2) by (simp add: monitor_tx_pool_def)
  qed (simp add: monitor_tx_pool_def)
qed

text \<open>What a receipt query reports as dropped, with a cache that the monitor has filled from empty.\<close>

lemma receipt_after_monitor:
  assumes "cache_law e entries cap" "node_receipt e hash = Inr None"
    and r_def: "r = transaction_receipt e (monitor_tx_pool e events (cache_new e n)) hash"
  shows "r = Inl (InvalidParams ''the transaction was dropped from the pool'') \<or> r = Inr None"
    and "r \<noteq> Inr None \<Longrightarrow> hash \<in> discarded events"
    and "hash \<in> discarded events \<Longrightarrow> card (discarded events) \<le> n \<Longrightarrow> r \<noteq> Inr None"
proof -
  let ?c = "monitor_tx_pool e events (cache_new e n)"
  have r: "r = (if hash \<in> entries ?c then Inl (InvalidParams ''the transaction was dropped from the pool'') else Inr None)"
    using assms(1,2) by (simp add: r_def transaction_receipt_def cache_law_def)
  have new: "entries (cache_new e n) = {}" "cap (cache_new e n) = n" using assms(1) by (simp_all add: cache_law_def)
  show "r = Inl (InvalidParams ''the transaction was dropped from the pool'') \<or> r = Inr None" by (simp add: r)
  show "r \<noteq> Inr None \<Longrightarrow> hash \<in> discarded events"
    using monitor_entries(1) [OF assms(1), of events "cache_new e n"] new by (auto simp: r split: if_splits)
  show "hash \<in> discarded events \<Longrightarrow> card (discarded events) \<le> n \<Longrightarrow> r \<noteq> Inr None"
    using monitor_entries(2) [OF assms(1), of "cache_new e n" events] new by (simp add: r)
qed

text \<open>A cache that forgets its oldest entries.\<close>

definition demo_rpc :: "(unit, nat \<times> b256 list) rpc_env" where
  "demo_rpc = \<lparr> best_block_number = Inr 1, recover_raw = (\<lambda>b. Inl ''raw''), add_transaction = (\<lambda>p tx. (Inl ''full'', p)),
     node_receipt = (\<lambda>h. Inr None), cache_new = (\<lambda>n. (n, [])),
     cache_insert = (\<lambda>h c. (fst c, take (fst c) (remdups (h # snd c)))), cache_get = (\<lambda>c. List.member (snd c)) \<rparr>"

lemma demo_cache_law: "cache_law demo_rpc (set \<circ> snd) fst"
proof -
  have "set (take n (remdups (h # xs))) = insert h (set xs)" if "card (insert h (set xs)) \<le> n" for n h and xs :: "b256 list"
    using that length_remdups_card_conv [of "h # xs"] by (metis list.simps(15) set_remdups take_all)
  moreover have "set (take n (remdups (h # xs))) \<subseteq> insert h (set xs)" for n h and xs :: "b256 list"
    by (metis list.simps(15) set_remdups set_take_subset)
  ultimately show ?thesis by (simp add: cache_law_def demo_rpc_def del: remdups.simps)
qed

end
