(* ===== verification/Execution_Info.thy ===== *)
theory Execution_Info
  imports Evm_Env
begin

text \<open>
  \<^verbatim>\<open>primitives/reth/execution.rs\<close>: what has been executed so far for the block under
  construction, and the test whether one more transaction fits.
\<close>

section \<open>Model\<close>

datatype txn_execution_result =
    TransactionDALimitExceeded
  | BlockDALimitExceeded u64 u64 u64
  | TransactionGasLimitExceeded u64 u64 u64
  | SequencerTransaction
  | NonceTooLow
  | InteropFailed
  | InternalError evm_err
  | EvmError
  | TxSuccess
  | Reverted
  | RevertedAndExcluded
  | MaxGasUsageExceeded

record 'x execution_info =
  executed_transactions :: "op_tx list"
  executed_senders :: "address list"
  receipts :: "op_receipt list"
  cumulative_gas_used :: u64
  cumulative_da_bytes_used :: u64
  total_fees :: u256
  extra :: 'x
  da_footprint_scalar :: "u16 option"
  optional_blob_fields :: "(u64 option \<times> u64 option) option"

definition with_capacity :: "'x \<Rightarrow> 'x execution_info" where
  "with_capacity default_extra =
     \<lparr> executed_transactions = [], executed_senders = [], receipts = [],
       cumulative_gas_used = 0, cumulative_da_bytes_used = 0, total_fees = 0,
       extra = default_extra, da_footprint_scalar = None, optional_blob_fields = None \<rparr>"

text \<open>The four tests in the order of the source; the last sum wraps, as it does in a release
  build.\<close>

definition is_tx_over_limits ::
  "'x execution_info \<Rightarrow> u64 \<Rightarrow> u64 \<Rightarrow> u64 option \<Rightarrow> u64 option \<Rightarrow> u64 \<Rightarrow> u16 option \<Rightarrow> u64 option
   \<Rightarrow> txn_execution_result + unit" where
  "is_tx_over_limits info tx_da_size block_gas_limit tx_data_limit block_data_limit tx_gas
     da_footprint_gas_scalar block_da_footprint_limit =
     (if is_some_and tx_data_limit (\<lambda>da_limit. da_limit < tx_da_size)
      then Inl TransactionDALimitExceeded
      else
        let total_da_bytes_used = saturating_add (cumulative_da_bytes_used info) tx_da_size in
        if is_some_and block_data_limit (\<lambda>da_limit. da_limit < total_da_bytes_used)
        then Inl (BlockDALimitExceeded (cumulative_da_bytes_used info) tx_da_size
                    (unwrap_or 0 block_data_limit))
        else
          let tx_da_footprint =
                map_option (\<lambda>scalar. saturating_mul total_da_bytes_used (ucast scalar))
                  da_footprint_gas_scalar in
          if is_some_and tx_da_footprint
               (\<lambda>footprint. unwrap_or block_gas_limit block_da_footprint_limit < footprint)
          then Inl (BlockDALimitExceeded total_da_bytes_used tx_da_size (the tx_da_footprint))
          else if block_gas_limit < cumulative_gas_used info + tx_gas
          then Inl (TransactionGasLimitExceeded (cumulative_gas_used info) tx_gas block_gas_limit)
          else Inr ())"

text \<open>The text of a result, as the derived \<^verbatim>\<open>Display\<close> prints it.\<close>

fun dec_digits :: "nat \<Rightarrow> string" where
  "dec_digits n =
     (if n < 10 then [''0123456789'' ! n] else dec_digits (n div 10) @ [''0123456789'' ! (n mod 10)])"

fun txn_result_to_string :: "txn_execution_result \<Rightarrow> string" where
  "txn_result_to_string TransactionDALimitExceeded = ''TransactionDALimitExceeded''"
| "txn_result_to_string (BlockDALimitExceeded a b c) =
     ''BlockDALimitExceeded: total_da_used='' @ dec_digits (unat a) @ '' tx_da_size='' @ dec_digits (unat b) @
     '' block_da_limit='' @ dec_digits (unat c)"
| "txn_result_to_string (TransactionGasLimitExceeded a b c) =
     ''TransactionGasLimitExceeded: total_gas_used='' @ dec_digits (unat a) @ '' tx_gas_limit='' @ dec_digits (unat b)"
| "txn_result_to_string SequencerTransaction = ''SequencerTransaction''"
| "txn_result_to_string NonceTooLow = ''NonceTooLow''"
| "txn_result_to_string InteropFailed = ''InteropFailed''"
| "txn_result_to_string (InternalError e) = ''InternalError('' @ evm_err_msg e @ '')''"
| "txn_result_to_string EvmError = ''EvmError''"
| "txn_result_to_string TxSuccess = ''Success''"
| "txn_result_to_string Reverted = ''Reverted''"
| "txn_result_to_string RevertedAndExcluded = ''RevertedAndExcluded''"
| "txn_result_to_string MaxGasUsageExceeded = ''MaxGasUsageExceeded''"

text \<open>What every executor does once a transaction is accepted: count its gas and data, push
  its receipt, its sender and the transaction itself.\<close>

definition push_executed ::
  "'x execution_info \<Rightarrow> recovered \<Rightarrow> u64 \<Rightarrow> u64 \<Rightarrow> (u64 \<Rightarrow> op_receipt) \<Rightarrow> 'x execution_info" where
  "push_executed info tx gas da mk_receipt =
     (let cum = cumulative_gas_used info + gas in
      info \<lparr> cumulative_gas_used := cum,
             cumulative_da_bytes_used := cumulative_da_bytes_used info + da,
             receipts := receipts info @ [mk_receipt cum],
             executed_senders := executed_senders info @ [signer tx],
             executed_transactions := executed_transactions info @ [inner_tx tx] \<rparr>)"

section \<open>Specification\<close>

text \<open>The limits as they are meant, over the naturals.\<close>

definition fits_limits ::
  "'x execution_info \<Rightarrow> u64 \<Rightarrow> u64 \<Rightarrow> u64 option \<Rightarrow> u64 option \<Rightarrow> u64 \<Rightarrow> u16 option \<Rightarrow> u64 option \<Rightarrow> bool" where
  "fits_limits info da gas_lim tx_lim block_lim gas scalar fp_lim \<longleftrightarrow>
     (\<forall>l. tx_lim = Some l \<longrightarrow> unat da \<le> unat l) \<and>
     (\<forall>l. block_lim = Some l \<longrightarrow> unat (cumulative_da_bytes_used info) + unat da \<le> unat l) \<and>
     (\<forall>s. scalar = Some s \<longrightarrow>
        (unat (cumulative_da_bytes_used info) + unat da) * unat s \<le> unat (unwrap_or gas_lim fp_lim)) \<and>
     unat (cumulative_gas_used info) + unat gas \<le> unat gas_lim"

text \<open>The invariant of the execution record: the three lists are parallel, and the gas counter
  is the cumulative gas of the last receipt.\<close>

definition info_wf :: "'x execution_info \<Rightarrow> bool" where
  "info_wf info \<longleftrightarrow>
     length (executed_senders info) = length (executed_transactions info) \<and>
     length (receipts info) = length (executed_transactions info) \<and>
     cumulative_gas_used info = (if receipts info = [] then 0 else receipt_gas (last (receipts info)))"

text \<open>One record continues another: nothing that was executed is dropped or reordered.\<close>

definition extends :: "'x execution_info \<Rightarrow> 'x execution_info \<Rightarrow> bool" where
  "extends info info' \<longleftrightarrow>
     (\<exists>txs. executed_transactions info' = executed_transactions info @ txs) \<and>
     (\<exists>ss. executed_senders info' = executed_senders info @ ss) \<and>
     (\<exists>rs. receipts info' = receipts info @ rs) \<and>
     extra info' = extra info \<and>
     optional_blob_fields info' = optional_blob_fields info"

section \<open>Lemmas\<close>

lemma info_wf_with_capacity [simp]: "info_wf (with_capacity x)"
  by (simp add: info_wf_def with_capacity_def)

lemma extends_refl [simp]: "extends info info"
  by (simp add: extends_def)

lemma extends_trans: "extends a b \<Longrightarrow> extends b c \<Longrightarrow> extends a c"
  by (fastforce simp: extends_def)

lemma push_executed_extends: "extends info (push_executed info tx gas da mk)"
  by (simp add: extends_def push_executed_def Let_def)

lemma push_executed_wf:
  assumes "info_wf info" "\<And>g. receipt_gas (mk g) = g"
  shows "info_wf (push_executed info tx gas da mk)"
  using assms by (simp add: info_wf_def push_executed_def Let_def)

lemma push_executed_sel [simp]:
  "executed_transactions (push_executed info tx gas da mk) = executed_transactions info @ [inner_tx tx]"
  "executed_senders (push_executed info tx gas da mk) = executed_senders info @ [signer tx]"
  "receipts (push_executed info tx gas da mk) = receipts info @ [mk (cumulative_gas_used info + gas)]"
  "cumulative_gas_used (push_executed info tx gas da mk) = cumulative_gas_used info + gas"
  "cumulative_da_bytes_used (push_executed info tx gas da mk) = cumulative_da_bytes_used info + da"
  "total_fees (push_executed info tx gas da mk) = total_fees info"
  "extra (push_executed info tx gas da mk) = extra info"
  "da_footprint_scalar (push_executed info tx gas da mk) = da_footprint_scalar info"
  "optional_blob_fields (push_executed info tx gas da mk) = optional_blob_fields info"
  by (simp_all add: push_executed_def Let_def)

lemma unat_less_max:
  assumes "l \<noteq> (- 1 :: 'a::len word)"
  shows "unat l < 2 ^ LENGTH('a) - 1"
proof -
  have "unat l \<noteq> unat (- 1 :: 'a word)"
    using assms by (simp only: word_unat_eq_iff not_False_eq_True)
  then have "unat l \<noteq> 2 ^ LENGTH('a) - 1"
    by (simp add: unsigned_minus_1_eq_mask mask_eq_exp_minus_1)
  then show ?thesis
    using unat_le_max [of l] by linarith
qed

lemma word_le_unat_min:
  assumes "unat (w :: 'a::len word) = min n (2 ^ LENGTH('a) - 1)" and "l \<noteq> - 1"
  shows "w \<le> l \<longleftrightarrow> n \<le> unat l"
  using assms(1) unat_less_max [OF assms(2)] by (auto simp: word_le_nat_alt)

lemma saturating_add_le_iff:
  "l \<noteq> - 1 \<Longrightarrow> saturating_add a b \<le> l \<longleftrightarrow> unat a + unat b \<le> unat l"
  by (rule word_le_unat_min [OF unat_saturating_add])

lemma less_saturating_add_iff:
  "l \<noteq> - 1 \<Longrightarrow> l < saturating_add a b \<longleftrightarrow> unat l < unat a + unat b"
  by (simp flip: not_le add: saturating_add_le_iff)

lemma footprint_le_iff:
  assumes "l \<noteq> - 1"
  shows "saturating_mul (saturating_add a b) (ucast (s :: u16)) \<le> (l :: u64) \<longleftrightarrow>
     (unat a + unat b) * unat s \<le> unat l"
proof (cases "unat a + unat b < 2 ^ 64 \<or> unat s = 0")
  case True
  then have "unat (saturating_add a b) * unat s = (unat a + unat b) * unat s"
    by (auto simp: rust_arith)
  then show ?thesis
    by (simp only: word_le_unat_min [OF unat_saturating_mul assms] unat_ucast_u16_u64)
next
  case False
  then have s: "1 \<le> unat s" and sum: "2 ^ 64 - 1 \<le> unat a + unat b"
    by linarith+
  have sat: "unat (saturating_add a b) = 2 ^ 64 - 1"
    using sum by (simp add: unat_saturating_add)
  have l: "unat l < 2 ^ 64 - 1"
    using unat_less_max [OF assms] by simp
  have "unat l < (unat a + unat b) * unat s" "unat l < unat (saturating_add a b) * unat s"
    using mult_le_mono [OF sum s] mult_le_mono [OF order_refl [of "2 ^ 64 - 1"] s] l
    unfolding sat by linarith+
  then show ?thesis
    by (simp only: word_le_unat_min [OF unat_saturating_mul assms] unat_ucast_u16_u64 not_le [symmetric])
qed

lemma less_footprint_iff:
  "l \<noteq> - 1 \<Longrightarrow> l < saturating_mul (saturating_add a b) (ucast (s :: u16)) \<longleftrightarrow>
     unat (l :: u64) < (unat a + unat b) * unat s"
  by (simp flip: not_le add: footprint_le_iff)

lemma is_tx_over_limits_ok:
  "is_tx_over_limits info da gas_lim tx_lim block_lim gas scalar fp_lim = Inr () \<longleftrightarrow>
     \<not> is_some_and tx_lim (\<lambda>l. l < da) \<and>
     \<not> is_some_and block_lim (\<lambda>l. l < saturating_add (cumulative_da_bytes_used info) da) \<and>
     \<not> is_some_and scalar (\<lambda>s. unwrap_or gas_lim fp_lim <
          saturating_mul (saturating_add (cumulative_da_bytes_used info) da) (ucast s)) \<and>
     \<not> gas_lim < cumulative_gas_used info + gas"
  by (cases scalar) (simp_all add: is_tx_over_limits_def Let_def)

text \<open>C5: The test accepts a transaction exactly when it fits every configured limit: its own data size, the
  block's data size, the data footprint (against its own limit, or the gas limit where none is
  configured) and the gas. The hypotheses exclude the sums that do not fit 64 bits and limits set to
  the saturation value.\<close>

theorem is_tx_over_limits_iff:
  assumes "unat (cumulative_gas_used info) + unat gas < 2 ^ 64"
    and "block_lim \<noteq> Some (- 1)"
    and "unwrap_or gas_lim fp_lim \<noteq> - 1"
  shows "is_tx_over_limits info da gas_lim tx_lim block_lim gas scalar fp_lim = Inr () \<longleftrightarrow>
         fits_limits info da gas_lim tx_lim block_lim gas scalar fp_lim"
proof -
  have tx: "\<not> is_some_and tx_lim (\<lambda>l. l < da) \<longleftrightarrow> (\<forall>l. tx_lim = Some l \<longrightarrow> unat da \<le> unat l)"
    by (cases tx_lim) (simp_all add: not_less word_le_nat_alt)
  have block: "\<not> is_some_and block_lim (\<lambda>l. l < saturating_add (cumulative_da_bytes_used info) da) \<longleftrightarrow>
      (\<forall>l. block_lim = Some l \<longrightarrow> unat (cumulative_da_bytes_used info) + unat da \<le> unat l)"
    using assms(2) by (cases block_lim) (simp_all add: less_saturating_add_iff not_less)
  have footprint: "\<not> is_some_and scalar (\<lambda>s. unwrap_or gas_lim fp_lim <
        saturating_mul (saturating_add (cumulative_da_bytes_used info) da) (ucast s)) \<longleftrightarrow>
      (\<forall>s. scalar = Some s \<longrightarrow>
        (unat (cumulative_da_bytes_used info) + unat da) * unat s \<le> unat (unwrap_or gas_lim fp_lim))"
    using assms(3) by (cases scalar) (simp_all add: less_footprint_iff not_less)
  have "unat (cumulative_gas_used info + gas) = unat (cumulative_gas_used info) + unat gas"
    using assms(1) by (intro unat_add_no_wrap) simp
  then have gas: "\<not> gas_lim < cumulative_gas_used info + gas \<longleftrightarrow>
      unat (cumulative_gas_used info) + unat gas \<le> unat gas_lim"
    by (simp only: word_le_nat_alt not_less)
  show ?thesis
    by (simp only: is_tx_over_limits_ok fits_limits_def tx block footprint gas)
qed

theorem is_tx_over_limits_iff_witness:
  "is_tx_over_limits ((with_capacity ()) \<lparr> cumulative_gas_used := 5, cumulative_da_bytes_used := 2 \<rparr>)
     3 30 (Some 10) (Some 20) 7 (Some 2) None = Inr ()"
proof -
  let ?info = "(with_capacity ()) \<lparr> cumulative_gas_used := 5, cumulative_da_bytes_used := 2 \<rparr>"
  have "fits_limits ?info 3 30 (Some 10) (Some 20) 7 (Some 2) None"
    by (simp add: fits_limits_def)
  moreover have "unat (cumulative_gas_used ?info) + unat (7 :: u64) < 2 ^ 64"
    "Some (20 :: u64) \<noteq> Some (- 1)" "unwrap_or 30 None \<noteq> (- 1 :: u64)"
    by simp_all
  ultimately show ?thesis
    using is_tx_over_limits_iff by blast
qed

end
