(* ===== verification/Gas_Limiter.thy ===== *)
theory Gas_Limiter
  imports Prelude
begin

text \<open>
  \<^verbatim>\<open>gas_limiter/mod.rs\<close>: one token bucket of gas per sender. A bucket is created full at
  the first request of an address, every request draws from it, and every new block refills all
  buckets. The concurrent map is an association list with distinct keys; the two gauges of
  \<^verbatim>\<open>gas_limiter/metrics.rs\<close> that count buckets and rejections are part of the state, the
  timing histograms are not.
\<close>

section \<open>Model\<close>

record gas_limiter_args =
  gas_limiter_enabled :: bool
  max_gas_per_address :: u64
  refill_rate_per_block :: u64
  cleanup_interval :: u64

datatype gas_limit_error = AddressLimitExceeded address u64 u64

record token_bucket =
  capacity :: u64
  available :: u64

record gas_limiter_metrics =
  rejections :: nat
  active_address_count :: int

record gas_limiter_inner =
  config :: gas_limiter_args
  address_buckets :: "(address \<times> token_bucket) list"
  limiter_metrics :: gas_limiter_metrics

text \<open>\<^verbatim>\<open>AddressGasLimiter\<close> is an optional inner limiter.\<close>

type_synonym address_gas_limiter = "gas_limiter_inner option"

definition token_bucket_new :: "u64 \<Rightarrow> token_bucket" where
  "token_bucket_new cap = \<lparr> capacity = cap, available = cap \<rparr>"

definition try_new :: "gas_limiter_args \<Rightarrow> gas_limiter_inner option" where
  "try_new cfg =
     (if \<not> gas_limiter_enabled cfg then None
      else Some \<lparr> config = cfg, address_buckets = [],
                  limiter_metrics = \<lparr> rejections = 0, active_address_count = 0 \<rparr> \<rparr>)"

definition address_gas_limiter_new :: "gas_limiter_args \<Rightarrow> address_gas_limiter" where
  "address_gas_limiter_new cfg = try_new cfg"

definition consume_gas_inner ::
  "gas_limiter_inner \<Rightarrow> address \<Rightarrow> u64 \<Rightarrow> (gas_limit_error + bool) \<times> gas_limiter_inner" where
  "consume_gas_inner lim addr gas_requested =
     (let entry = map_of (address_buckets lim) addr;
          created_new_bucket = (entry = None);
          bucket = unwrap_or (token_bucket_new (max_gas_per_address (config lim))) entry in
      if available bucket < gas_requested
      then (Inl (AddressLimitExceeded addr gas_requested (available bucket)),
            lim \<lparr> address_buckets := AList.update addr bucket (address_buckets lim) \<rparr>)
      else (Inr created_new_bucket,
            lim \<lparr> address_buckets :=
                    AList.update addr (bucket \<lparr> available := available bucket - gas_requested \<rparr>)
                      (address_buckets lim) \<rparr>))"

fun record_gas_check :: "gas_limiter_metrics \<Rightarrow> gas_limit_error + bool \<Rightarrow> gas_limiter_metrics" where
  "record_gas_check m (Inr created_new_bucket) =
     (if created_new_bucket then m \<lparr> active_address_count := active_address_count m + 1 \<rparr> else m)"
| "record_gas_check m (Inl e) = m \<lparr> rejections := rejections m + 1 \<rparr>"

definition inner_consume_gas ::
  "gas_limiter_inner \<Rightarrow> address \<Rightarrow> u64 \<Rightarrow> (gas_limit_error + unit) \<times> gas_limiter_inner" where
  "inner_consume_gas lim addr gas_requested =
     (let (result, lim') = consume_gas_inner lim addr gas_requested in
      (map_sum id (\<lambda>_. ()) result,
       lim' \<lparr> limiter_metrics := record_gas_check (limiter_metrics lim') result \<rparr>))"

definition refill_bucket :: "gas_limiter_args \<Rightarrow> token_bucket \<Rightarrow> token_bucket" where
  "refill_bucket cfg bucket =
     bucket \<lparr> available := min (capacity bucket) (available bucket + refill_rate_per_block cfg) \<rparr>"

definition refresh_inner :: "gas_limiter_inner \<Rightarrow> u64 \<Rightarrow> nat \<times> gas_limiter_inner" where
  "refresh_inner lim block_number =
     (let active_addresses = length (address_buckets lim);
          refilled = map (\<lambda>(a, b). (a, refill_bucket (config lim) b)) (address_buckets lim);
          kept = (if is_multiple_of block_number (cleanup_interval (config lim))
                  then filter (\<lambda>(a, b). available b \<le> capacity b) refilled
                  else refilled) in
      (active_addresses - length kept, lim \<lparr> address_buckets := kept \<rparr>))"

definition record_refresh :: "gas_limiter_metrics \<Rightarrow> nat \<Rightarrow> gas_limiter_metrics" where
  "record_refresh m removed =
     m \<lparr> active_address_count := active_address_count m - int removed \<rparr>"

definition inner_refresh :: "gas_limiter_inner \<Rightarrow> u64 \<Rightarrow> gas_limiter_inner" where
  "inner_refresh lim block_number =
     (let (removed, lim') = refresh_inner lim block_number in
      lim' \<lparr> limiter_metrics := record_refresh (limiter_metrics lim') removed \<rparr>)"

fun consume_gas ::
  "address_gas_limiter \<Rightarrow> address \<Rightarrow> u64 \<Rightarrow> (gas_limit_error + unit) \<times> address_gas_limiter" where
  "consume_gas (Some lim) addr gas_requested = map_prod id Some (inner_consume_gas lim addr gas_requested)"
| "consume_gas None addr gas_requested = (Inr (), None)"

fun refresh :: "address_gas_limiter \<Rightarrow> u64 \<Rightarrow> address_gas_limiter" where
  "refresh (Some lim) block_number = Some (inner_refresh lim block_number)"
| "refresh None block_number = None"

section \<open>The contract of a rate limiter\<close>

datatype limiter_op = Consume address u64 | Refresh u64

text \<open>Histories of requests and new blocks: the state they lead to, the gas granted to an
  address along them, and the number of new blocks.\<close>

primrec limiter_run ::
  "('s \<Rightarrow> address \<Rightarrow> u64 \<Rightarrow> ('e + unit) \<times> 's) \<Rightarrow> ('s \<Rightarrow> u64 \<Rightarrow> 's) \<Rightarrow> 's \<Rightarrow> limiter_op list \<Rightarrow> 's" where
  "limiter_run consume tick s [] = s"
| "limiter_run consume tick s (oper # ops) =
     limiter_run consume tick
       (case oper of Consume b g \<Rightarrow> snd (consume s b g) | Refresh n \<Rightarrow> tick s n) ops"

primrec granted ::
  "('s \<Rightarrow> address \<Rightarrow> u64 \<Rightarrow> ('e + unit) \<times> 's) \<Rightarrow> ('s \<Rightarrow> u64 \<Rightarrow> 's) \<Rightarrow> 's \<Rightarrow> address \<Rightarrow> limiter_op list \<Rightarrow> nat"
where
  "granted consume tick s a [] = 0"
| "granted consume tick s a (oper # ops) =
     (case oper of
        Consume b g \<Rightarrow>
          (if b = a \<and> is_ok (fst (consume s b g)) then unat g else 0) +
          granted consume tick (snd (consume s b g)) a ops
      | Refresh n \<Rightarrow> granted consume tick (tick s n) a ops)"

primrec refreshes :: "limiter_op list \<Rightarrow> nat" where
  "refreshes [] = 0"
| "refreshes (oper # ops) = (case oper of Consume b g \<Rightarrow> 0 | Refresh n \<Rightarrow> 1) + refreshes ops"

text \<open>A limiter keeps a budget per address. A request is granted exactly when it fits the budget
  and then lowers it; a refused request changes no budget; a new block raises every budget by the
  refill, up to the cap.\<close>

locale rate_limiter =
  fixes consume :: "'s \<Rightarrow> address \<Rightarrow> u64 \<Rightarrow> ('e + unit) \<times> 's"
    and tick :: "'s \<Rightarrow> u64 \<Rightarrow> 's"
    and budget :: "'s \<Rightarrow> address \<Rightarrow> nat"
    and invar :: "'s \<Rightarrow> bool"
    and cap refill :: nat
  assumes consume_invar: "invar s \<Longrightarrow> invar (snd (consume s a g))"
    and tick_invar: "invar s \<Longrightarrow> invar (tick s n)"
    and consume_ok: "invar s \<Longrightarrow> is_ok (fst (consume s a g)) \<longleftrightarrow> unat g \<le> budget s a"
    and consume_budget: "invar s \<Longrightarrow> budget (snd (consume s a g)) b =
      (if b = a \<and> is_ok (fst (consume s a g)) then budget s b - unat g else budget s b)"
    and tick_budget: "invar s \<Longrightarrow> budget (tick s n) a = min cap (budget s a + refill)"
begin

lemma run_invar: "invar s \<Longrightarrow> invar (limiter_run consume tick s ops)"
  by (induction ops arbitrary: s) (auto simp: consume_invar tick_invar split: limiter_op.split)

lemma granted_bound:
  assumes "invar s"
  shows "granted consume tick s a ops + budget (limiter_run consume tick s ops) a
           \<le> budget s a + refill * refreshes ops"
  using assms
proof (induction ops arbitrary: s)
  case (Cons oper ops)
  show ?case
  proof (cases oper)
    case (Consume b g)
    then show ?thesis
      using Cons.IH [OF consume_invar [OF Cons.prems], of b g] consume_budget [OF Cons.prems, of b g a]
        consume_ok [OF Cons.prems, of b g] by (auto split: if_splits)
  next
    case (Refresh n)
    then show ?thesis
      using Cons.IH [OF tick_invar [OF Cons.prems], of n] tick_budget [OF Cons.prems, of n a] by simp
  qed
qed simp

end

section \<open>The address limiter meets the contract\<close>

text \<open>The budget of an address is what its bucket holds, or a full bucket before its first
  request.\<close>

definition limiter_budget :: "gas_limiter_inner \<Rightarrow> address \<Rightarrow> u64" where
  "limiter_budget lim a =
     (case map_of (address_buckets lim) a of
        None \<Rightarrow> max_gas_per_address (config lim)
      | Some b \<Rightarrow> available b)"

text \<open>The invariant: one bucket per address, each of the configured size and never above it.
  The side condition says that refilling does not overflow.\<close>

definition limiter_wf :: "gas_limiter_args \<Rightarrow> gas_limiter_inner \<Rightarrow> bool" where
  "limiter_wf cfg lim \<longleftrightarrow>
     config lim = cfg \<and> distinct (map fst (address_buckets lim)) \<and>
     (\<forall>a b. map_of (address_buckets lim) a = Some b \<longrightarrow>
        capacity b = max_gas_per_address cfg \<and> available b \<le> max_gas_per_address cfg) \<and>
     unat (max_gas_per_address cfg) + unat (refill_rate_per_block cfg) < 2 ^ 64"

lemma limiter_wfD:
  assumes "limiter_wf cfg lim"
  shows "config lim = cfg"
    and "map_of (address_buckets lim) a = Some b \<Longrightarrow> capacity b = max_gas_per_address cfg"
    and "map_of (address_buckets lim) a = Some b \<Longrightarrow> available b \<le> max_gas_per_address cfg"
    and "unat (max_gas_per_address cfg) + unat (refill_rate_per_block cfg) < 2 ^ 64"
    and "distinct (map fst (address_buckets lim))"
  using assms unfolding limiter_wf_def by blast+

text \<open>Both outcomes of a request leave the address with a bucket, lowered only if it was granted.\<close>

lemma inner_consume_gas_result:
  "fst (inner_consume_gas lim a g) =
     (if limiter_budget lim a < g then Inl (AddressLimitExceeded a g (limiter_budget lim a)) else Inr ())"
  by (cases "map_of (address_buckets lim) a")
    (simp_all add: inner_consume_gas_def consume_gas_inner_def limiter_budget_def token_bucket_new_def Let_def)

lemma inner_consume_gas_buckets:
  "map_of (address_buckets (snd (inner_consume_gas lim a g))) =
     (map_of (address_buckets lim))
       (a \<mapsto> \<lparr> capacity = (case map_of (address_buckets lim) a of
                 None \<Rightarrow> max_gas_per_address (config lim) | Some b \<Rightarrow> capacity b),
              available = (if limiter_budget lim a < g then limiter_budget lim a
                           else limiter_budget lim a - g) \<rparr>)"
  by (cases "map_of (address_buckets lim) a")
    (auto simp: inner_consume_gas_def consume_gas_inner_def limiter_budget_def token_bucket_new_def
      update_conv' Let_def intro!: arg_cong [where f = "fun_upd _ _"])

lemma inner_consume_gas_sel [simp]:
  "config (snd (inner_consume_gas lim a g)) = config lim"
  "distinct (map fst (address_buckets lim)) \<Longrightarrow>
     distinct (map fst (address_buckets (snd (inner_consume_gas lim a g))))"
  by (simp_all add: inner_consume_gas_def consume_gas_inner_def Let_def distinct_update)

lemma limiter_budget_le:
  assumes "limiter_wf cfg lim"
  shows "limiter_budget lim a \<le> max_gas_per_address cfg"
  using limiter_wfD(1,3) [OF assms] by (simp add: limiter_budget_def split: option.split)

lemma limiter_budget_consume:
  "limiter_budget (snd (inner_consume_gas lim a g)) b =
     (if b = a \<and> \<not> limiter_budget lim a < g then limiter_budget lim a - g else limiter_budget lim b)"
  unfolding limiter_budget_def [of "snd _"] inner_consume_gas_buckets
  by (simp add: limiter_budget_def split: option.split)

lemma limiter_wf_consume:
  assumes "limiter_wf cfg lim"
  shows "limiter_wf cfg (snd (inner_consume_gas lim a g))"
proof -
  have "limiter_budget lim a - g \<le> max_gas_per_address cfg" if "\<not> limiter_budget lim a < g"
    using that limiter_budget_le [OF assms, of a] word_sub_le order_trans by (meson not_le)
  then show ?thesis
    using limiter_wfD [OF assms] limiter_budget_le [OF assms, of a]
    by (simp add: limiter_wf_def inner_consume_gas_buckets split: option.split)
qed

text \<open>Refilling leaves every bucket at or below its capacity, so the clean-up, which keeps the
  buckets that are not above it, keeps them all.\<close>

lemma refill_bucket_le: "available (refill_bucket cfg b) \<le> capacity (refill_bucket cfg b)"
  by (simp add: refill_bucket_def)

lemma refresh_inner_keeps_all:
  "refresh_inner lim n =
     (0, lim \<lparr> address_buckets := map (\<lambda>(a, b). (a, refill_bucket (config lim) b)) (address_buckets lim) \<rparr>)"
proof -
  have keep: "filter (\<lambda>(a, b). available b \<le> capacity b) (map (\<lambda>(a, b). (a, refill_bucket cfg b)) xs) =
      map (\<lambda>(a, b). (a, refill_bucket cfg b)) xs" for cfg xs
    by (rule filter_True) (auto simp: refill_bucket_le)
  show ?thesis
    by (simp only: refresh_inner_def Let_def keep if_cancel length_map diff_self_eq_0)
qed

lemma inner_refresh_sel [simp]:
  "config (inner_refresh lim n) = config lim"
  "address_buckets (inner_refresh lim n) =
     map (\<lambda>(a, b). (a, refill_bucket (config lim) b)) (address_buckets lim)"
  by (simp_all add: inner_refresh_def refresh_inner_keeps_all)

lemma inner_refresh_lookup:
  "map_of (address_buckets (inner_refresh lim n)) a =
     map_option (refill_bucket (config lim)) (map_of (address_buckets lim) a)"
  by (simp add: map_of_map)

lemma limiter_wf_refresh:
  assumes "limiter_wf cfg lim"
  shows "limiter_wf cfg (inner_refresh lim n)"
proof -
  have "distinct (map fst (address_buckets (inner_refresh lim n)))"
    using limiter_wfD(5) [OF assms] by (simp add: comp_def case_prod_beta)
  moreover have "capacity b = max_gas_per_address cfg \<and> available b \<le> max_gas_per_address cfg"
    if "map_of (address_buckets (inner_refresh lim n)) a = Some b" for a b
    using that limiter_wfD(1,2) [OF assms] refill_bucket_le
    unfolding inner_refresh_lookup by (auto simp: refill_bucket_def)
  ultimately show ?thesis
    using limiter_wfD(1,4) [OF assms] by (simp add: limiter_wf_def)
qed

lemma limiter_budget_refresh:
  assumes "limiter_wf cfg lim"
  shows "unat (limiter_budget (inner_refresh lim n) a) =
    min (unat (max_gas_per_address cfg)) (unat (limiter_budget lim a) + unat (refill_rate_per_block cfg))"
proof (cases "map_of (address_buckets lim) a")
  case None
  then show ?thesis
    using limiter_wfD(1) [OF assms] unfolding limiter_budget_def inner_refresh_lookup by simp
next
  case (Some b)
  have le: "unat (available b) \<le> unat (max_gas_per_address cfg)"
    using limiter_wfD(3) [OF assms Some] by (simp add: word_le_nat_alt)
  have "unat (available b + refill_rate_per_block cfg) = unat (available b) + unat (refill_rate_per_block cfg)"
    using le limiter_wfD(4) [OF assms] by (intro unat_add_no_wrap) simp
  then show ?thesis
    using Some limiter_wfD(1) [OF assms] limiter_wfD(2) [OF assms Some]
    unfolding limiter_budget_def inner_refresh_lookup
    by (simp add: refill_bucket_def min_def word_le_nat_alt)
qed

interpretation gl: rate_limiter inner_consume_gas inner_refresh "\<lambda>lim a. unat (limiter_budget lim a)"
  "limiter_wf cfg" "unat (max_gas_per_address cfg)" "unat (refill_rate_per_block cfg)"
  for cfg
proof unfold_locales
  fix lim a g
  assume wf: "limiter_wf cfg lim"
  show "limiter_wf cfg (snd (inner_consume_gas lim a g))"
    by (rule limiter_wf_consume [OF wf])
  show "is_ok (fst (inner_consume_gas lim a g)) \<longleftrightarrow> unat g \<le> unat (limiter_budget lim a)"
    by (simp add: inner_consume_gas_result word_less_nat_alt)
  show "unat (limiter_budget (snd (inner_consume_gas lim a g)) b) =
      (if b = a \<and> is_ok (fst (inner_consume_gas lim a g)) then unat (limiter_budget lim b) - unat g
       else unat (limiter_budget lim b))" for b
    by (auto simp: limiter_budget_consume inner_consume_gas_result not_less unat_sub word_le_nat_alt
        word_less_nat_alt)
next
  fix lim n
  assume wf: "limiter_wf cfg lim"
  show "limiter_wf cfg (inner_refresh lim n)"
    by (rule limiter_wf_refresh [OF wf])
  show "unat (limiter_budget (inner_refresh lim n) a) =
      min (unat (max_gas_per_address cfg)) (unat (limiter_budget lim a) + unat (refill_rate_per_block cfg))" for a
    by (rule limiter_budget_refresh [OF wf])
qed

section \<open>Properties\<close>

lemma limiter_wf_try_new:
  assumes "try_new cfg = Some lim" "unat (max_gas_per_address cfg) + unat (refill_rate_per_block cfg) < 2 ^ 64"
  shows "limiter_wf cfg lim" "limiter_budget lim a = max_gas_per_address cfg"
  using assms by (auto simp: try_new_def limiter_wf_def limiter_budget_def split: if_splits)

text \<open>C9: Rate limiting: along any history of requests and new blocks, a fresh limiter grants an address at
  most one full bucket plus one refill per new block.\<close>

theorem limiter_grants_bounded:
  assumes "try_new cfg = Some lim"
    and "unat (max_gas_per_address cfg) + unat (refill_rate_per_block cfg) < 2 ^ 64"
  shows "granted inner_consume_gas inner_refresh lim a ops
           \<le> unat (max_gas_per_address cfg) + unat (refill_rate_per_block cfg) * refreshes ops"
  using gl.granted_bound [OF limiter_wf_try_new(1) [OF assms], of a ops]
    limiter_wf_try_new(2) [OF assms, of a] by simp

theorem limiter_grants_bounded_witness:
  "granted inner_consume_gas inner_refresh
     \<lparr> config = \<lparr> gas_limiter_enabled = True, max_gas_per_address = 10, refill_rate_per_block = 3,
                  cleanup_interval = 100 \<rparr>,
       address_buckets = [], limiter_metrics = \<lparr> rejections = 0, active_address_count = 0 \<rparr> \<rparr>
     1 [Consume 1 8, Consume 1 8, Refresh 1, Consume 1 4, Consume 2 10] \<le> 10 + 3 * 1"
proof -
  let ?cfg = "\<lparr> gas_limiter_enabled = True, max_gas_per_address = 10, refill_rate_per_block = 3,
    cleanup_interval = 100 \<rparr>"
  let ?lim = "\<lparr> config = ?cfg, address_buckets = [],
    limiter_metrics = \<lparr> rejections = 0, active_address_count = 0 \<rparr> \<rparr>"
  have "try_new ?cfg = Some ?lim" by (simp add: try_new_def)
  moreover have "unat (max_gas_per_address ?cfg) + unat (refill_rate_per_block ?cfg) < 2 ^ 64" by simp
  ultimately show ?thesis
    using limiter_grants_bounded
      [of ?cfg ?lim 1 "[Consume 1 8, Consume 1 8, Refresh 1, Consume 1 4, Consume 2 10]"] by simp
qed

text \<open>A request of the public interface is granted exactly when it fits the bucket of its sender (any
  request when limiting is disabled). A grant lowers that bucket by the requested gas, a refusal reports the
  address, the request and the bucket, and neither touches the budget of any other address.\<close>

theorem consume_gas_behaviour:
  "case lim of
     None \<Rightarrow> consume_gas lim a g = (Inr (), None)
   | Some l \<Rightarrow>
       \<exists>l'. snd (consume_gas lim a g) = Some l' \<and>
         fst (consume_gas lim a g) =
           (if limiter_budget l a < g then Inl (AddressLimitExceeded a g (limiter_budget l a)) else Inr ()) \<and>
         (\<forall>b. limiter_budget l' b =
           (if b = a \<and> g \<le> limiter_budget l a then limiter_budget l a - g else limiter_budget l b))"
proof (cases lim)
  case (Some l)
  then show ?thesis
    by (simp add: inner_consume_gas_result limiter_budget_consume not_less)
qed simp

text \<open>The clean-up of a refresh never evicts a bucket: after refilling, every bucket is at or below its
  capacity, which is the condition for keeping it. The number of buckets never decreases.\<close>

lemma refresh_never_evicts:
  "fst (refresh_inner lim block_number) = 0 \<and>
   map fst (address_buckets (snd (refresh_inner lim block_number))) = map fst (address_buckets lim)"
  by (simp add: refresh_inner_keeps_all comp_def case_prod_beta)

end
