(* ===== verification/Best_Txs.thy ===== *)
theory Best_Txs
  imports Pool_Tx
begin

text \<open>
  \<^verbatim>\<open>builders/flashblocks/best_txs.rs\<close>: the iterator over the pool that skips transactions
  already in the block and transactions outside their flashblock range. The iterator of the node it
  wraps is the argument \<open>inner\<close>, a pair of the two operations of the trait
  \<^verbatim>\<open>PayloadTransactions\<close>; drawing from an iterator returns \<^const>\<open>None\<close>
  when it does not return.
\<close>

section \<open>Model\<close>

record 'i payload_txs =
  pt_next :: "'i \<Rightarrow> (fb_pooled_tx option \<times> 'i) option"
  pt_mark_invalid :: "'i \<Rightarrow> address \<Rightarrow> u64 \<Rightarrow> 'i"

record 'i best_flashblocks_txs =
  bf_inner :: 'i
  current_flashblock_number :: u64
  commited_transactions :: "b256 set"

definition best_new :: "'i \<Rightarrow> 'i best_flashblocks_txs" where
  "best_new i = \<lparr> bf_inner = i, current_flashblock_number = 0, commited_transactions = {} \<rparr>"

definition refresh_iterator :: "'i best_flashblocks_txs \<Rightarrow> 'i \<Rightarrow> u64 \<Rightarrow> 'i best_flashblocks_txs" where
  "refresh_iterator s i n = s \<lparr> bf_inner := i, current_flashblock_number := n \<rparr>"

definition mark_commited :: "'i best_flashblocks_txs \<Rightarrow> b256 list \<Rightarrow> 'i best_flashblocks_txs" where
  "mark_commited s txs = s \<lparr> commited_transactions := commited_transactions s \<union> set txs \<rparr>"

definition best_draw ::
  "'i payload_txs \<Rightarrow> 'i best_flashblocks_txs \<Rightarrow> (fb_pooled_tx option \<times> 'i best_flashblocks_txs) option" where
  "best_draw inner s = map_option (map_prod id (\<lambda>i. s \<lparr> bf_inner := i \<rparr>)) (pt_next inner (bf_inner s))"

definition best_filter ::
  "'i payload_txs \<Rightarrow> 'i best_flashblocks_txs \<Rightarrow> fb_pooled_tx \<Rightarrow> fb_pooled_tx flow \<times> 'i best_flashblocks_txs" where
  "best_filter inner s tx =
     (if fb_hash tx \<in> commited_transactions s then (Continue, s)
      else case flashblock_number_min tx of
        Some lo \<Rightarrow>
          if current_flashblock_number s < lo then (Continue, s)
          else (case flashblock_number_max tx of
                  Some hi \<Rightarrow>
                    if hi < current_flashblock_number s
                    then (Continue, s \<lparr> bf_inner := pt_mark_invalid inner (bf_inner s) (fb_sender tx) (fb_nonce tx) \<rparr>)
                    else (Return tx, s)
                | None \<Rightarrow> (Return tx, s))
      | None \<Rightarrow>
          (case flashblock_number_max tx of
             Some hi \<Rightarrow>
               if hi < current_flashblock_number s
               then (Continue, s \<lparr> bf_inner := pt_mark_invalid inner (bf_inner s) (fb_sender tx) (fb_nonce tx) \<rparr>)
               else (Return tx, s)
           | None \<Rightarrow> (Return tx, s)))"

definition best_next ::
  "'i payload_txs \<Rightarrow> 'i best_flashblocks_txs \<Rightarrow> (fb_pooled_tx option \<times> 'i best_flashblocks_txs) option" where
  "best_next inner s =
     map_option (\<lambda>(r, s'). (case r of Continue \<Rightarrow> None | Return tx \<Rightarrow> Some tx, s'))
       (while_next (best_draw inner) (best_filter inner) s)"

definition best_mark_invalid ::
  "'i payload_txs \<Rightarrow> 'i best_flashblocks_txs \<Rightarrow> address \<Rightarrow> u64 \<Rightarrow> 'i best_flashblocks_txs" where
  "best_mark_invalid inner s a n = s \<lparr> bf_inner := pt_mark_invalid inner (bf_inner s) a n \<rparr>"

text \<open>The wrapped iterator, as an implementation of the trait.\<close>

definition best_txs_ops :: "'i payload_txs \<Rightarrow> 'i best_flashblocks_txs payload_txs" where
  "best_txs_ops inner = \<lparr> pt_next = best_next inner, pt_mark_invalid = best_mark_invalid inner \<rparr>"

section \<open>Specification\<close>

definition in_flashblock_range :: "u64 \<Rightarrow> fb_pooled_tx \<Rightarrow> bool" where
  "in_flashblock_range n tx \<longleftrightarrow>
     (\<forall>lo. flashblock_number_min tx = Some lo \<longrightarrow> lo \<le> n) \<and>
     (\<forall>hi. flashblock_number_max tx = Some hi \<longrightarrow> n \<le> hi)"

text \<open>A pool that yields a fixed list of transactions and drops the senders marked invalid.\<close>

fun snapshot_next ::
  "fb_pooled_tx list \<times> address list \<Rightarrow> (fb_pooled_tx option \<times> fb_pooled_tx list \<times> address list) option" where
  "snapshot_next ([], bad) = Some (None, [], bad)"
| "snapshot_next (tx # txs, bad) =
     (if List.member bad (fb_sender tx) then snapshot_next (txs, bad) else Some (Some tx, txs, bad))"

definition snapshot_ops :: "(fb_pooled_tx list \<times> address list) payload_txs" where
  "snapshot_ops = \<lparr> pt_next = snapshot_next, pt_mark_invalid = (\<lambda>(txs, bad) a n. (txs, a # bad)) \<rparr>"

section \<open>Lemmas\<close>

lemma best_filter_cases:
  "best_filter inner s tx =
     (if fb_hash tx \<in> commited_transactions s then (Continue, s)
      else if in_flashblock_range (current_flashblock_number s) tx then (Return tx, s)
      else if (\<exists>lo. flashblock_number_min tx = Some lo \<and> current_flashblock_number s < lo) then (Continue, s)
      else (Continue, best_mark_invalid inner s (fb_sender tx) (fb_nonce tx)))"
  by (auto simp: best_filter_def best_mark_invalid_def in_flashblock_range_def not_less not_le split: option.split)

lemma best_filter_keeps:
  "current_flashblock_number (snd (best_filter inner s tx)) = current_flashblock_number s"
  "commited_transactions (snd (best_filter inner s tx)) = commited_transactions s"
  by (simp_all add: best_filter_cases best_mark_invalid_def)

text \<open>The contract of a finite supply of transactions.\<close>

locale finite_payload_txs =
  fixes ops :: "'i payload_txs" and left :: "'i \<Rightarrow> nat"
  assumes next_returns: "\<exists>r. pt_next ops i = Some r"
    and next_decreases: "pt_next ops i = Some (Some tx, i') \<Longrightarrow> left i' < left i"
    and mark_invalid_le: "left (pt_mark_invalid ops i a n) \<le> left i"

text \<open>A pool iterator that is one; the builder's iterator over it is one again.\<close>

locale pool_supply = finite_payload_txs
begin

lemma filter_left: "left (bf_inner (snd (best_filter ops s tx))) \<le> left (bf_inner s)"
  by (simp add: best_filter_cases best_mark_invalid_def mark_invalid_le)

lemma best_next_terminates:
  "\<exists>r t. best_next ops s = Some (r, t) \<and> (r \<noteq> None \<longrightarrow> left (bf_inner t) < left (bf_inner s))"
proof -
  have "\<exists>r u. while_next (best_draw ops) (best_filter ops) s = Some (r, u) \<and>
      (r \<noteq> Continue \<longrightarrow> left (bf_inner u) < left (bf_inner s))"
  proof (rule while_next_terminates)
    show "\<exists>r. best_draw ops s = Some r" for s
      using next_returns [of "bf_inner s"] by (auto simp: best_draw_def)
    show "left (bf_inner t) < left (bf_inner s)" if "best_draw ops s = Some (Some x, t)" for s x t
      using that next_decreases by (auto simp: best_draw_def)
    show "left (bf_inner u) \<le> left (bf_inner t)" if "best_filter ops t x = (f, u)" for t x f u
      using that filter_left [of t x] by simp
  qed
  then obtain r u where run: "while_next (best_draw ops) (best_filter ops) s = Some (r, u)"
    and less: "r \<noteq> Continue \<longrightarrow> left (bf_inner u) < left (bf_inner s)"
    by blast
  then show ?thesis
    by (cases r) (simp_all add: best_next_def)
qed

end

sublocale pool_supply \<subseteq> best: finite_payload_txs "best_txs_ops ops" "\<lambda>s. left (bf_inner s)"
proof unfold_locales
  show "\<exists>r. pt_next (best_txs_ops ops) i = Some r" for i
    using best_next_terminates [of i] by (auto simp: best_txs_ops_def)
  show "left (bf_inner i') < left (bf_inner i)"
    if "pt_next (best_txs_ops ops) i = Some (Some tx, i')" for i tx i'
    using that best_next_terminates [of i] by (auto simp: best_txs_ops_def)
  show "left (bf_inner (pt_mark_invalid (best_txs_ops ops) i a n)) \<le> left (bf_inner i)" for i a n
    by (simp add: best_txs_ops_def best_mark_invalid_def mark_invalid_le)
qed

context pool_supply
begin

lemma best_finite: "finite_payload_txs (best_txs_ops ops) (\<lambda>s. left (bf_inner s))"
  by (rule best.finite_payload_txs_axioms)

end

lemma snapshot_next_result:
  "\<exists>r txs'. snapshot_next (txs, bad) = Some (r, txs', bad) \<and> length txs' \<le> length txs \<and>
     (r \<noteq> None \<longrightarrow> length txs' < length txs)"
proof (induction txs)
  case (Cons tx txs)
  then show ?case by (cases "List.member bad (fb_sender tx)") (auto intro: le_SucI less_SucI)
qed simp

text \<open>A snapshot of the pool is a finite supply, and so is the builder's iterator over it.\<close>

interpretation snap: pool_supply snapshot_ops "\<lambda>i. length (fst i)"
proof unfold_locales
  fix i :: "fb_pooled_tx list \<times> address list"
  obtain txs bad where i: "i = (txs, bad)" by fastforce
  show "\<exists>r. pt_next snapshot_ops i = Some r"
    using snapshot_next_result [of txs bad] i by (auto simp: snapshot_ops_def)
  show "length (fst i') < length (fst i)" if "pt_next snapshot_ops i = Some (Some tx, i')" for tx i'
    using that snapshot_next_result [of txs bad] i by (auto simp: snapshot_ops_def)
  show "length (fst (pt_mark_invalid snapshot_ops i a n)) \<le> length (fst i)" for a n
    using i by (simp add: snapshot_ops_def)
qed

interpretation best_snap: finite_payload_txs "best_txs_ops snapshot_ops" "\<lambda>s. length (fst (bf_inner s))"
  by (rule snap.best.finite_payload_txs_axioms)

section \<open>Properties\<close>

lemma while_best_sound:
  assumes "while_next (best_draw inner) (best_filter inner) s = Some (r, t)"
  shows "current_flashblock_number t = current_flashblock_number s \<and>
    commited_transactions t = commited_transactions s \<and>
    (case r of
       Continue \<Rightarrow> \<exists>i. pt_next inner i = Some (None, bf_inner t)
     | Return tx \<Rightarrow> (\<exists>i. pt_next inner i = Some (Some tx, bf_inner t)) \<and>
         fb_hash tx \<notin> commited_transactions s \<and>
         in_flashblock_range (current_flashblock_number s) tx)"
  using assms
proof (induction s "(r, t)" arbitrary: r t rule: while_next_induct)
  case (exhausted s s')
  then show ?case by (auto simp: best_draw_def)
next
  case (return s x u r t)
  then show ?case
    by (auto simp: best_draw_def best_filter_cases split: if_splits)
next
  case (continue s x u v)
  then have "current_flashblock_number v = current_flashblock_number s"
    "commited_transactions v = commited_transactions s"
    using best_filter_keeps [of inner u x] by (auto simp: best_draw_def)
  then show ?case using continue by (simp split: flow.splits)
qed

text \<open>C10: The iterator of a flashblock only hands out transactions of the pool iterator that are not yet in
  the block and whose flashblock range includes the current flashblock; it ends only when the pool iterator
  does; and drawing changes neither the flashblock number nor the set of committed transactions.\<close>

theorem best_next_sound:
  assumes "best_next inner s = Some (r, s')"
  shows "current_flashblock_number s' = current_flashblock_number s \<and>
    commited_transactions s' = commited_transactions s \<and>
    (case r of
       None \<Rightarrow> \<exists>i. pt_next inner i = Some (None, bf_inner s')
     | Some tx \<Rightarrow> (\<exists>i. pt_next inner i = Some (Some tx, bf_inner s')) \<and>
         fb_hash tx \<notin> commited_transactions s \<and>
         in_flashblock_range (current_flashblock_number s) tx)"
proof -
  obtain f where f: "while_next (best_draw inner) (best_filter inner) s = Some (f, s')"
    and r: "r = (case f of Continue \<Rightarrow> None | Return tx \<Rightarrow> Some tx)"
    using assms by (auto simp: best_next_def)
  show ?thesis
    using while_best_sound [OF f] unfolding r by (cases f) simp_all
qed

definition sample_tx :: "nat \<Rightarrow> u64 option \<Rightarrow> fb_pooled_tx" where
  "sample_tx n lo =
     \<lparr> fb_inner = \<lparr> pt_consensus = Recovered \<lparr> tx_hash = of_nat n, tx_ty = Eip1559, tx_nonce = 0,
                       tx_gas_limit = 21000, encoded_2718 = [] \<rparr> (of_nat n),
                    pt_estimated_da_size = 100, pt_interop_deadline = None, pt_conditional = None \<rparr>,
       reverted_hashes = None, flashblock_number_min = lo, flashblock_number_max = None \<rparr>"

theorem best_next_sound_witness:
  "in_flashblock_range 1 (sample_tx 3 (Some 1))"
proof -
  let ?s = "\<lparr> bf_inner = ([sample_tx 1 None, sample_tx 2 (Some 2), sample_tx 3 (Some 1)], []),
    current_flashblock_number = 1, commited_transactions = {1} \<rparr>"
  have "best_next snapshot_ops ?s = Some (Some (sample_tx 3 (Some 1)), ?s \<lparr> bf_inner := ([], []) \<rparr>)"
    by (simp add: best_next_def while_next.simps best_draw_def best_filter_def snapshot_ops_def
        sample_tx_def fb_tx_defs)
  from best_next_sound [OF this] show ?thesis by simp
qed

text \<open>Over a finite supply of pool transactions, drawing the next one always returns, and uses up at
  least one transaction of the supply whenever it hands one out.\<close>

lemma best_next_returns:
  assumes "\<And>i. \<exists>r. pt_next inner i = Some r"
    and "\<And>i tx i'. pt_next inner i = Some (Some tx, i') \<Longrightarrow> left i' < left i"
    and "\<And>i a n. left (pt_mark_invalid inner i a n) \<le> (left i :: nat)"
  shows "\<exists>r s'. best_next inner s = Some (r, s') \<and> (r \<noteq> None \<longrightarrow> left (bf_inner s') < left (bf_inner s))"
proof -
  have "pool_supply inner left" using assms by unfold_locales
  then show ?thesis by (rule pool_supply.best_next_terminates)
qed

end
