(* ===== verification/Sidecar.thy ===== *)
theory Sidecar
  imports Prelude
begin

text \<open>
  \<^verbatim>\<open>sidecar/\<close>: the client that asks the compose sidecar for cross-chain transactions, its
  hold-and-retry loop, and the state overrides sent along. The HTTP exchange is the argument
  \<open>http\<close>, which gives the outcome of the \<open>n\<close>-th request; the state of the node
  database enters as the list of its pending account transitions.
\<close>

section \<open>Model: types\<close>

datatype sidecar_error =
    Http string
  | HoldTimeout u32
  | NotConfigured
  | DecodeError string
  | SignatureRecoveryFailed
  | InvalidTransactionType
  | LimitsExceeded string
  | ExecutionFailed string
  | TransactionReverted string

record external_transaction =
  raw :: bytes
  required :: bool
  instance_id :: "string option"

datatype json = JString string | JObject "(string \<times> json) list"

record poll_request =
  pr_chain_id :: u64
  pr_block_number :: u64
  pr_flashblock_index :: u64
  pr_state_root :: b256
  pr_timestamp :: u64
  pr_gas_limit :: u64
  pr_state_overrides :: "json option"

record poll_response =
  hold :: bool
  poll_after_ms :: "u64 option"
  transactions :: "external_transaction list"

record sidecar_config =
  endpoint :: string
  poll_timeout_ms :: u64
  max_retries :: u32

definition sidecar_config_default :: sidecar_config where
  "sidecar_config_default = \<lparr> endpoint = [], poll_timeout_ms = 200, max_retries = 5 \<rparr>"

definition is_enabled :: "sidecar_config \<Rightarrow> bool" where
  "is_enabled cfg = (endpoint cfg \<noteq> [])"

section \<open>Model: polling\<close>

text \<open>One run of the client: its result, the number of requests sent and the delays slept. The
  retry counter is a 32-bit word and wraps, so with the largest retry limit the loop may not end.\<close>

record poll_trace =
  requests :: nat
  delays :: "u64 list"

partial_function (option) poll_loop ::
  "(nat \<Rightarrow> string + poll_response) \<Rightarrow> sidecar_config \<Rightarrow> u32 \<Rightarrow> poll_trace
   \<Rightarrow> ((sidecar_error + external_transaction list option) \<times> poll_trace) option" where
  "poll_loop http cfg retries tr =
     (let tr' = tr \<lparr> requests := requests tr + 1 \<rparr> in
      case http (requests tr) of
        Inl e \<Rightarrow> Some (Inl (Http e), tr')
      | Inr response \<Rightarrow>
          if \<not> hold response then Some (Inr (Some (transactions response)), tr')
          else if max_retries cfg < retries + 1 then Some (Inl (HoldTimeout (max_retries cfg)), tr')
          else poll_loop http cfg (retries + 1)
                 (tr' \<lparr> delays := delays tr' @ [unwrap_or 50 (poll_after_ms response)] \<rparr>))"

definition poll_transactions ::
  "(nat \<Rightarrow> string + poll_response) \<Rightarrow> sidecar_config
   \<Rightarrow> ((sidecar_error + external_transaction list option) \<times> poll_trace) option" where
  "poll_transactions http cfg =
     (if \<not> is_enabled cfg then Some (Inr None, \<lparr> requests = 0, delays = [] \<rparr>)
      else poll_loop http cfg 0 \<lparr> requests = 0, delays = [] \<rparr>)"

section \<open>Model: state overrides\<close>

record storage_slot =
  slot_changed :: bool
  present_value :: u256

record account_info =
  ai_balance :: u256
  ai_nonce :: u64

record transition_account =
  ta_not_modified :: bool
  ta_was_destroyed :: bool
  ta_info :: "account_info option"
  ta_new_contract :: "bytes option"
  ta_storage :: "(u256 \<times> storage_slot) list"

fun hex_digits :: "nat \<Rightarrow> string" where
  "hex_digits n =
     (if n < 16 then [''0123456789abcdef'' ! n]
      else hex_digits (n div 16) @ [''0123456789abcdef'' ! (n mod 16)])"

definition hex_pad :: "nat \<Rightarrow> nat \<Rightarrow> string" where
  "hex_pad k n = replicate (k - length (hex_digits n)) (CHR ''0'') @ hex_digits n"

definition hex_encode :: "bytes \<Rightarrow> string" where
  "hex_encode bs = concat (map (\<lambda>b. hex_pad 2 (unat b)) bs)"

definition state_diff :: "transition_account \<Rightarrow> (string \<times> json) list" where
  "state_diff account =
     fold (\<lambda>(slot, v) m.
             if slot_changed v
             then AList.update (''0x'' @ hex_pad 64 (unat slot))
                    (JString (''0x'' @ hex_pad 64 (unat (present_value v)))) m
             else m)
       (ta_storage account) []"

definition account_map :: "transition_account \<Rightarrow> (string \<times> json) list" where
  "account_map account =
     (case (if ta_was_destroyed account then None else ta_info account) of
        None \<Rightarrow>
          [(''balance'', JString ''0x0''), (''nonce'', JString ''0x0''), (''code'', JString ''0x''),
           (''state'', JObject [])]
      | Some info \<Rightarrow>
          [(''balance'', JString (''0x'' @ hex_digits (unat (ai_balance info)))),
           (''nonce'', JString (''0x'' @ hex_digits (unat (ai_nonce info))))] @
          (case ta_new_contract account of
             None \<Rightarrow> []
           | Some code \<Rightarrow> [(''code'', JString (''0x'' @ hex_encode code))]))"

definition account_override :: "transition_account \<Rightarrow> json option" where
  "account_override account =
     (let diff = state_diff account;
          has_account_change = (\<not> ta_not_modified account \<or> ta_new_contract account \<noteq> None);
          has_storage_change = (diff \<noteq> []) in
      if \<not> has_account_change \<and> \<not> has_storage_change then None
      else
        let m = account_map account;
            m' = (if diff \<noteq> [] \<and> map_of m ''state'' = None then m @ [(''stateDiff'', JObject diff)] else m) in
        if m' \<noteq> [] then Some (JObject m') else None)"

definition build_state_overrides ::
  "(address \<Rightarrow> string) \<Rightarrow> (address \<times> transition_account) list option \<Rightarrow> json" where
  "build_state_overrides addr_to_string transition_state =
     (case transition_state of
        None \<Rightarrow> JObject []
      | Some transitions \<Rightarrow>
          JObject (fold (\<lambda>(addr, account) m.
              case account_override account of
                None \<Rightarrow> m
              | Some v \<Rightarrow> AList.update (addr_to_string addr) v m) transitions []))"

section \<open>Polling terminates with the first answer\<close>

text \<open>The answers the client may read: a hold is an answer that asks to come back.\<close>

definition is_hold :: "string + poll_response \<Rightarrow> bool" where
  "is_hold r = (case r of Inl e \<Rightarrow> False | Inr resp \<Rightarrow> hold resp)"

definition answer :: "string + poll_response \<Rightarrow> sidecar_error + external_transaction list option" where
  "answer r = (case r of Inl e \<Rightarrow> Inl (Http e) | Inr resp \<Rightarrow> Inr (Some (transactions resp)))"

text \<open>The three ways one round of the loop can go.\<close>

lemma poll_loop_round:
  "\<not> is_hold (http (requests tr)) \<Longrightarrow>
     poll_loop http cfg retries tr = Some (answer (http (requests tr)), tr \<lparr> requests := requests tr + 1 \<rparr>)"
  "is_hold (http (requests tr)) \<Longrightarrow> max_retries cfg < retries + 1 \<Longrightarrow>
     poll_loop http cfg retries tr =
       Some (Inl (HoldTimeout (max_retries cfg)), tr \<lparr> requests := requests tr + 1 \<rparr>)"
  "is_hold (http (requests tr)) \<Longrightarrow> \<not> max_retries cfg < retries + 1 \<Longrightarrow>
     \<exists>ds. poll_loop http cfg retries tr =
       poll_loop http cfg (retries + 1) (tr \<lparr> requests := requests tr + 1, delays := ds \<rparr>)"
  by (subst poll_loop.simps; force simp: is_hold_def answer_def Let_def split: sum.splits)+

lemma poll_loop_steps:
  assumes "unat (max_retries cfg) < 2 ^ 32 - 1"
    and "unat retries = requests tr" and "requests tr \<le> unat (max_retries cfg)"
  shows "\<exists>r tr'. poll_loop http cfg retries tr = Some (r, tr') \<and>
    requests tr < requests tr' \<and> requests tr' \<le> unat (max_retries cfg) + 1 \<and>
    (\<forall>k. requests tr \<le> k \<and> k + 1 < requests tr' \<longrightarrow> is_hold (http k)) \<and>
    (if is_hold (http (requests tr' - 1))
     then requests tr' = unat (max_retries cfg) + 1 \<and> r = Inl (HoldTimeout (max_retries cfg))
     else r = answer (http (requests tr' - 1)))"
  using assms(2,3)
proof (induction "unat (max_retries cfg) - requests tr" arbitrary: retries tr)
  case 0
  then have lim: "requests tr = unat (max_retries cfg)" by simp
  have "unat (retries + 1) = unat retries + 1"
    using 0 assms(1) by (intro trans [OF unat_add_no_wrap]) auto
  then have "max_retries cfg < retries + 1" using 0 lim by (simp add: word_less_nat_alt)
  then show ?case using lim poll_loop_round(1,2) [of http tr cfg retries]
    by (cases "is_hold (http (requests tr))") auto
next
  case (Suc n)
  have suc: "unat (retries + 1) = unat retries + 1"
    using Suc assms(1) by (intro trans [OF unat_add_no_wrap]) auto
  then have nl: "\<not> max_retries cfg < retries + 1"
    using Suc by (simp add: word_less_nat_alt)
  show ?case
  proof (cases "is_hold (http (requests tr))")
    case False
    then show ?thesis using Suc poll_loop_round(1) [of http tr cfg retries] by auto
  next
    case True
    then obtain ds where eq: "poll_loop http cfg retries tr =
        poll_loop http cfg (retries + 1) (tr \<lparr> requests := requests tr + 1, delays := ds \<rparr>)"
      using poll_loop_round(3) [of http tr cfg retries] True nl by blast
    let ?tr = "tr \<lparr> requests := requests tr + 1, delays := ds \<rparr>"
    have hyps: "n = unat (max_retries cfg) - requests ?tr" "unat (retries + 1) = requests ?tr"
        "requests ?tr \<le> unat (max_retries cfg)"
      using Suc.hyps(2) Suc.prems suc by simp_all
    obtain r tr' where ih:
      "poll_loop http cfg (retries + 1) ?tr = Some (r, tr')"
      "requests ?tr < requests tr'" "requests tr' \<le> unat (max_retries cfg) + 1"
      "\<forall>k. requests ?tr \<le> k \<and> k + 1 < requests tr' \<longrightarrow> is_hold (http k)"
      "if is_hold (http (requests tr' - 1))
       then requests tr' = unat (max_retries cfg) + 1 \<and> r = Inl (HoldTimeout (max_retries cfg))
       else r = answer (http (requests tr' - 1))"
      using Suc.hyps(1) [OF hyps] by blast
    have "is_hold (http k)" if "requests tr \<le> k" "k + 1 < requests tr'" for k
      using that ih(4) True by (cases "k = requests tr") auto
    then show ?thesis using ih eq by auto
  qed
qed

text \<open>C11: Polling an enabled sidecar always returns, after at most one request more than the retry limit. Every
  answer before the last one was a hold; the result is the last answer, or the hold timeout exactly when that
  answer is a hold as well, which happens only after the full number of requests.\<close>

theorem poll_transactions_returns:
  assumes "is_enabled cfg" and "unat (max_retries cfg) < 2 ^ 32 - 1"
  shows "\<exists>r tr. poll_transactions http cfg = Some (r, tr) \<and>
    0 < requests tr \<and> requests tr \<le> unat (max_retries cfg) + 1 \<and>
    (\<forall>k. k + 1 < requests tr \<longrightarrow> is_hold (http k)) \<and>
    (if is_hold (http (requests tr - 1))
     then requests tr = unat (max_retries cfg) + 1 \<and> r = Inl (HoldTimeout (max_retries cfg))
     else r = answer (http (requests tr - 1)))"
  using poll_loop_steps [OF assms(2), of 0 "\<lparr> requests = 0, delays = [] \<rparr>" http] assms(1)
  by (simp add: poll_transactions_def)

theorem poll_transactions_returns_witness:
  "\<exists>r tr. poll_transactions (\<lambda>n. Inr \<lparr> hold = (n < 2), poll_after_ms = None, transactions = [] \<rparr>)
      \<lparr> endpoint = ''http'', poll_timeout_ms = 200, max_retries = 5 \<rparr> = Some (r, tr) \<and>
     0 < requests tr \<and> requests tr \<le> 6"
proof -
  let ?cfg = "\<lparr> endpoint = ''http'', poll_timeout_ms = 200, max_retries = 5 \<rparr>"
  have "is_enabled ?cfg" "unat (max_retries ?cfg) < 2 ^ 32 - 1" by (simp_all add: is_enabled_def)
  from poll_transactions_returns [OF this, of "\<lambda>n. Inr \<lparr> hold = (n < 2), poll_after_ms = None, transactions = [] \<rparr>"]
  show ?thesis by auto
qed

section \<open>Overrides report every changed account once\<close>

lemma fold_override_lookup:
  assumes "inj addr_to_string" and "distinct (map fst transitions)"
  shows "map_of (fold (\<lambda>(addr, account) m.
             case account_override account of
               None \<Rightarrow> m | Some v \<Rightarrow> AList.update (addr_to_string addr) v m) transitions m0)
           (addr_to_string a) =
         (case map_of transitions a of
            None \<Rightarrow> map_of m0 (addr_to_string a)
          | Some account \<Rightarrow>
              (case account_override account of
                 None \<Rightarrow> map_of m0 (addr_to_string a) | Some v \<Rightarrow> Some v))"
  using assms(2)
proof (induction transitions arbitrary: m0)
  case (Cons p transitions)
  obtain b acc where p: "p = (b, acc)" by fastforce
  have "map_of transitions b = None"
    using Cons.prems p by (simp add: map_of_eq_None_iff)
  then show ?case
    using Cons p assms(1)
    by (auto simp: update_conv' inj_eq split: option.split)
qed simp

text \<open>The overrides sent to the sidecar hold, for every account with a pending transition, exactly the
  override of that account, and nothing for an account without one.\<close>

theorem overrides_lookup:
  assumes "inj addr_to_string" and "distinct (map fst transitions)"
  shows "\<exists>m. build_state_overrides addr_to_string (Some transitions) = JObject m \<and>
    (\<forall>a. map_of m (addr_to_string a) = Option.bind (map_of transitions a) account_override)"
proof -
  have "map_of (fold (\<lambda>(addr, account) m.
          case account_override account of
            None \<Rightarrow> m | Some v \<Rightarrow> AList.update (addr_to_string addr) v m) transitions [])
        (addr_to_string a) = Option.bind (map_of transitions a) account_override" for a
    by (subst fold_override_lookup [OF assms], cases "map_of transitions a") (simp_all split: option.split)
  then show ?thesis by (simp add: build_state_overrides_def)
qed

lemma unary_name_inj: "inj (\<lambda>a :: address. replicate (unat a) (CHR ''a''))"
  by (rule injI) (simp add: word_unat_eq_iff)

theorem overrides_lookup_witness:
  "\<exists>m. build_state_overrides (\<lambda>a. replicate (unat a) (CHR ''a''))
       (Some [(1, \<lparr> ta_not_modified = False, ta_was_destroyed = False,
                    ta_info = Some \<lparr> ai_balance = 255, ai_nonce = 1 \<rparr>,
                    ta_new_contract = None, ta_storage = [] \<rparr>)]) = JObject m \<and>
     map_of m ''a'' = Some (JObject [(''balance'', JString ''0xff''), (''nonce'', JString ''0x1'')])"
proof -
  let ?acc = "\<lparr> ta_not_modified = False, ta_was_destroyed = False,
    ta_info = Some \<lparr> ai_balance = 255, ai_nonce = 1 \<rparr>, ta_new_contract = None, ta_storage = [] \<rparr>"
  have d: "distinct (map fst [(1 :: address, ?acc)])" by simp
  obtain m where "build_state_overrides (\<lambda>a. replicate (unat a) (CHR ''a'')) (Some [(1, ?acc)]) = JObject m"
    "\<forall>a. map_of m (replicate (unat a) (CHR ''a'')) = Option.bind (map_of [(1 :: address, ?acc)] a) account_override"
    using overrides_lookup [OF unary_name_inj d] by (elim exE conjE) (rule that)
  moreover have "account_override ?acc = Some (JObject [(''balance'', JString ''0xff''), (''nonce'', JString ''0x1'')])"
    by (simp add: account_override_def account_map_def state_diff_def)
  ultimately show ?thesis by (auto dest: spec [of _ 1])
qed

text \<open>An account that was destroyed is reported as empty, with no storage, even when it was created again
  afterwards and has a balance, code and changed slots.\<close>

lemma destroyed_account_reported_empty:
  assumes "ta_was_destroyed account" and "\<not> ta_not_modified account"
  shows "account_override account =
    Some (JObject [(''balance'', JString ''0x0''), (''nonce'', JString ''0x0''), (''code'', JString ''0x''),
                   (''state'', JObject [])])"
  using assms by (simp add: account_override_def account_map_def Let_def)

end
