(* ===== verification/Context.thy ===== *)
theory Context
  imports Execution_Info Gas_Limiter Best_Txs Sidecar
begin

text \<open>
  \<^verbatim>\<open>builders/context.rs\<close>, first part: the context of a payload build (chain rules, payload
  attributes, block environment, configuration) and what it answers about the block: gas limit, block
  number, blob fields, extra data, receipts. The rate limiter is state of the build, so it is passed
  along instead of being a field. The cancellation token is a function of the number of times
  it has been asked.
\<close>

section \<open>Model\<close>

datatype payload_error =
    BlobTransactionRejected
  | TransactionEcRecoverFailed
  | AccountLoadFailed address
  | EvmExecutionError evm_err
  | SidecarFailed sidecar_error
  | OtherError string
  | Panic string

record base_fee_params =
  max_change_denominator :: u128
  elasticity_multiplier :: u128

text \<open>The rules of the chain: which upgrades are active at a timestamp.\<close>

record chain_spec =
  shanghai_at :: "u64 \<Rightarrow> bool"
  regolith_at :: "u64 \<Rightarrow> bool"
  canyon_at :: "u64 \<Rightarrow> bool"
  ecotone_at :: "u64 \<Rightarrow> bool"
  holocene_at :: "u64 \<Rightarrow> bool"
  isthmus_at :: "u64 \<Rightarrow> bool"
  jovian_at :: "u64 \<Rightarrow> bool"
  base_fee_params_at :: "u64 \<Rightarrow> base_fee_params"
  spec_chain_id :: u64

record withdrawal =
  wd_index :: u64
  wd_validator :: u64
  wd_address :: address
  wd_amount :: u64

text \<open>The payload attributes; the two extra-data encoders are methods of the node's type.\<close>

record payload_attrs =
  at_timestamp :: u64
  at_transactions :: "op_tx list"
  at_no_tx_pool :: bool
  at_gas_limit :: "u64 option"
  at_withdrawals :: "withdrawal list"
  at_parent_beacon_root :: "b256 option"
  at_prev_randao :: b256
  at_fee_recipient :: address
  at_payload_id :: u64
  get_jovian_extra_data :: "base_fee_params \<Rightarrow> string + bytes"
  get_holocene_extra_data :: "base_fee_params \<Rightarrow> string + bytes"

record parent_header =
  ph_hash :: b256
  ph_number :: u64
  ph_state_root :: b256
  ph_timestamp :: u64
  ph_gas_limit :: u64

record block_env =
  be_number :: u256
  be_gas_limit :: u64
  be_basefee :: u64
  be_blob_gasprice :: "u128 option"
  be_beneficiary :: address
  be_difficulty :: u256

record ('db, 'st, 'x) op_ctx =
  evm :: "('db, 'st) evm_ops"
  max_da_tx_size :: "u64 option"
  gas_limit_config :: "u64 option"
  spec :: chain_spec
  attributes :: payload_attrs
  parent :: parent_header
  env :: block_env
  cancel :: "nat \<Rightarrow> bool"
  builder_signer :: "address option"
  extra_ctx :: 'x
  max_gas_per_txn :: "u64 option"
  feature_interop :: bool

definition with_cancel :: "('db, 'st, 'x) op_ctx \<Rightarrow> (nat \<Rightarrow> bool) \<Rightarrow> ('db, 'st, 'x) op_ctx" where
  "with_cancel ctx c = ctx \<lparr> cancel := c \<rparr>"

definition with_extra_ctx :: "('db, 'st, 'x) op_ctx \<Rightarrow> 'x \<Rightarrow> ('db, 'st, 'x) op_ctx" where
  "with_extra_ctx ctx x = ctx \<lparr> extra_ctx := x \<rparr>"

definition timestamp :: "('db, 'st, 'x) op_ctx \<Rightarrow> u64" where
  "timestamp ctx = at_timestamp (attributes ctx)"

definition withdrawals :: "('db, 'st, 'x) op_ctx \<Rightarrow> withdrawal list option" where
  "withdrawals ctx =
     (if shanghai_at (spec ctx) (at_timestamp (attributes ctx)) then Some (at_withdrawals (attributes ctx)) else None)"

definition block_gas_limit :: "('db, 'st, 'x) op_ctx \<Rightarrow> u64" where
  "block_gas_limit ctx =
     (case gas_limit_config ctx of
        Some gas_limit \<Rightarrow> gas_limit
      | None \<Rightarrow> unwrap_or (be_gas_limit (env ctx)) (at_gas_limit (attributes ctx)))"

definition as_u64_saturated :: "u256 \<Rightarrow> u64" where
  "as_u64_saturated w = (if unat w < 2 ^ 64 then ucast w else - 1)"

definition block_number :: "('db, 'st, 'x) op_ctx \<Rightarrow> u64" where
  "block_number ctx = as_u64_saturated (be_number (env ctx))"

definition base_fee :: "('db, 'st, 'x) op_ctx \<Rightarrow> u64" where
  "base_fee ctx = be_basefee (env ctx)"

definition get_blob_gasprice :: "('db, 'st, 'x) op_ctx \<Rightarrow> u64 option" where
  "get_blob_gasprice ctx = map_option ucast (be_blob_gasprice (env ctx))"

definition is_regolith_active :: "('db, 'st, 'x) op_ctx \<Rightarrow> bool" where
  "is_regolith_active ctx = regolith_at (spec ctx) (at_timestamp (attributes ctx))"

definition is_ecotone_active :: "('db, 'st, 'x) op_ctx \<Rightarrow> bool" where
  "is_ecotone_active ctx = ecotone_at (spec ctx) (at_timestamp (attributes ctx))"

definition is_canyon_active :: "('db, 'st, 'x) op_ctx \<Rightarrow> bool" where
  "is_canyon_active ctx = canyon_at (spec ctx) (at_timestamp (attributes ctx))"

definition is_holocene_active :: "('db, 'st, 'x) op_ctx \<Rightarrow> bool" where
  "is_holocene_active ctx = holocene_at (spec ctx) (at_timestamp (attributes ctx))"

definition is_isthmus_active :: "('db, 'st, 'x) op_ctx \<Rightarrow> bool" where
  "is_isthmus_active ctx = isthmus_at (spec ctx) (at_timestamp (attributes ctx))"

definition is_jovian_active :: "('db, 'st, 'x) op_ctx \<Rightarrow> bool" where
  "is_jovian_active ctx = jovian_at (spec ctx) (at_timestamp (attributes ctx))"

definition chain_id :: "('db, 'st, 'x) op_ctx \<Rightarrow> u64" where
  "chain_id ctx = spec_chain_id (spec ctx)"

definition blob_fields ::
  "('db, 'st, 'x) op_ctx \<Rightarrow> 'y execution_info \<Rightarrow> payload_error + u64 option \<times> u64 option" where
  "blob_fields ctx info =
     (case optional_blob_fields info of
        Some bf \<Rightarrow> Inr bf
      | None \<Rightarrow>
          if is_jovian_active ctx then
            (case da_footprint_scalar info of
               None \<Rightarrow> Inl (Panic ''Scalar must be defined for Jovian blocks'')
             | Some scalar \<Rightarrow> Inr (Some 0, Some (cumulative_da_bytes_used info * ucast scalar)))
          else if is_ecotone_active ctx then Inr (Some 0, Some 0)
          else Inr (None, None))"

definition extra_data :: "('db, 'st, 'x) op_ctx \<Rightarrow> payload_error + bytes" where
  "extra_data ctx =
     (if is_jovian_active ctx then
        map_err OtherError (get_jovian_extra_data (attributes ctx)
          (base_fee_params_at (spec ctx) (at_timestamp (attributes ctx))))
      else if is_holocene_active ctx then
        map_err OtherError (get_holocene_extra_data (attributes ctx)
          (base_fee_params_at (spec ctx) (at_timestamp (attributes ctx))))
      else Inr [])"

definition build_receipt ::
  "('db, 'st, 'x) op_ctx \<Rightarrow> op_tx \<Rightarrow> exec_result \<Rightarrow> u64 option \<Rightarrow> u64 \<Rightarrow> op_receipt" where
  "build_receipt ctx tx result deposit_nonce cum =
     (case rb_build_receipt (evm ctx) tx result cum of
        Some rc \<Rightarrow> rc
      | None \<Rightarrow>
          rb_build_deposit_receipt (evm ctx)
            \<lparr> dr_inner = \<lparr> rc_status = is_success result, rc_cumulative_gas_used = cum,
                           rc_logs = into_logs result \<rparr>,
              dr_deposit_nonce = deposit_nonce,
              dr_deposit_receipt_version = (if is_canyon_active ctx then Some 1 else None) \<rparr>)"

section \<open>Lemmas\<close>

lemma build_receipt_gas:
  assumes "receipt_law (evm ctx)"
  shows "receipt_gas (build_receipt ctx tx r n g) = g"
  using assms by (auto simp: build_receipt_def receipt_law_def split: option.split)

lemma block_number_exact:
  assumes "unat (be_number (env ctx)) < 2 ^ 64"
  shows "unat (block_number ctx) = unat (be_number (env ctx))"
  using assms by (simp add: block_number_def as_u64_saturated_def unsigned_ucast_eq take_bit_nat_eq_self)

end
