(* ===== verification/Executors.thy ===== *)
theory Executors
  imports Context
begin

text \<open>
  \<^verbatim>\<open>builders/context.rs\<close>, second part: the three loops that put transactions into a
  block. \<open>execute_sequencer_transactions\<close> runs the transactions of the payload attributes,
  \<open>execute_best_transactions\<close> those of the pool, \<open>execute_sidecar_transactions\<close> those
  of the compose sidecar. Each loop body is a definition of its own. The counters the pool
  loop reports to the metrics are part of its state; logs and timings are not.
\<close>

section \<open>Model: sequencer transactions\<close>

record ('db, 'x) seq_state =
  ss_info :: "'x execution_info"
  ss_db :: 'db

definition depositor_nonce ::
  "('db, 'st, 'c) op_ctx \<Rightarrow> 'db \<Rightarrow> recovered \<Rightarrow> payload_error + u64 option" where
  "depositor_nonce ctx db tx =
     (if is_regolith_active ctx \<and> is_deposit (inner_tx tx) then
        (case load_cache_account (evm ctx) db (signer tx) of
           Inl _ \<Rightarrow> Inl (AccountLoadFailed (signer tx))
         | Inr nonce \<Rightarrow> Inr (Some (unwrap_or 0 nonce)))
      else Inr None)"

definition sequencer_step ::
  "('db, 'st, 'c) op_ctx \<Rightarrow> ('db, 'x) seq_state \<Rightarrow> op_tx \<Rightarrow> payload_error flow \<times> ('db, 'x) seq_state" where
  "sequencer_step ctx s sequencer_tx =
     (if is_eip4844 sequencer_tx then (Return BlobTransactionRejected, s)
      else case try_recover (evm ctx) sequencer_tx of
        None \<Rightarrow> (Return TransactionEcRecoverFailed, s)
      | Some from \<Rightarrow>
          let tx = Recovered sequencer_tx from in
          case depositor_nonce ctx (ss_db s) tx of
            Inl e \<Rightarrow> (Return e, s)
          | Inr nonce \<Rightarrow>
              (case transact (evm ctx) (ss_db s) tx of
                 Inl (InvalidTx low msg) \<Rightarrow> (Continue, s)
               | Inl (EvmFatal msg) \<Rightarrow> (Return (EvmExecutionError (EvmFatal msg)), s)
               | Inr (result, state) \<Rightarrow>
                   let da = (if \<not> is_deposit sequencer_tx
                             then tx_estimated_size_fjord_bytes (evm ctx) (encoded_2718 sequencer_tx) else 0) in
                   (Continue,
                    s \<lparr> ss_info := push_executed (ss_info s) tx (gas_used result) da
                                    (build_receipt ctx sequencer_tx result nonce),
                        ss_db := commit (evm ctx) (ss_db s) state \<rparr>)))"

definition execute_sequencer_transactions ::
  "('db, 'st, 'c) op_ctx \<Rightarrow> 'x \<Rightarrow> 'db \<Rightarrow> (payload_error + 'x execution_info) \<times> 'db" where
  "execute_sequencer_transactions ctx default_extra db =
     (case for_in (sequencer_step ctx) (at_transactions (attributes ctx))
             \<lparr> ss_info = with_capacity default_extra, ss_db = db \<rparr> of
        (Return e, s) \<Rightarrow> (Inl e, ss_db s)
      | (Continue, s) \<Rightarrow>
          if jovian_at (spec ctx) (at_timestamp (attributes ctx)) then
            (case fetch_da_footprint_gas_scalar (evm ctx) (ss_db s) of
               None \<Rightarrow> (Inl (Panic ''DA footprint should always be available from the database post jovian''), ss_db s)
             | Some scalar \<Rightarrow> (Inr ((ss_info s) \<lparr> da_footprint_scalar := Some scalar \<rparr>), ss_db s))
          else (Inr ((ss_info s) \<lparr> da_footprint_scalar := None \<rparr>), ss_db s))"

section \<open>Model: pool transactions\<close>

record exec_counters =
  num_txs_considered :: u32
  num_txs_simulated :: u32
  num_txs_simulated_success :: u32
  num_txs_simulated_fail :: u32
  num_bundles_reverted :: u32
  reverted_gas_used :: u32

definition zero_counters :: exec_counters where
  "zero_counters = \<lparr> num_txs_considered = 0, num_txs_simulated = 0, num_txs_simulated_success = 0,
     num_txs_simulated_fail = 0, num_bundles_reverted = 0, reverted_gas_used = 0 \<rparr>"

record ('db, 'i, 'x) exec_state =
  es_info :: "'x execution_info"
  es_db :: 'db
  es_iter :: 'i
  es_limiter :: address_gas_limiter
  es_cancel_polls :: nat
  es_counters :: exec_counters

text \<open>The limits of one call: block gas, data and data footprint.\<close>

record exec_limits =
  lim_gas :: u64
  lim_da :: "u64 option"
  lim_da_footprint :: "u64 option"

definition over_limits ::
  "('db, 'st, 'c) op_ctx \<Rightarrow> exec_limits \<Rightarrow> 'x execution_info \<Rightarrow> u64 \<Rightarrow> u64 \<Rightarrow> txn_execution_result + unit" where
  "over_limits ctx lims info da gas =
     is_tx_over_limits info da (lim_gas lims) (max_da_tx_size ctx) (lim_da lims) gas
       (da_footprint_scalar info) (lim_da_footprint lims)"

definition skip_sender ::
  "'i payload_txs \<Rightarrow> recovered \<Rightarrow> ('db, 'i, 'x) exec_state \<Rightarrow> ('db, 'i, 'x) exec_state" where
  "skip_sender it tx s =
     s \<lparr> es_iter := pt_mark_invalid it (es_iter s) (signer tx) (tx_nonce (inner_tx tx)) \<rparr>"

definition count ::
  "(exec_counters \<Rightarrow> exec_counters) \<Rightarrow> ('db, 'i, 'x) exec_state \<Rightarrow> ('db, 'i, 'x) exec_state" where
  "count f s = s \<lparr> es_counters := f (es_counters s) \<rparr>"

text \<open>A bundle transaction that reverts is left out unless its hash may revert.\<close>

definition exclude_reverting :: "fb_pooled_tx \<Rightarrow> bool" where
  "exclude_reverting ptx =
     (case reverted_hashes ptx of
        None \<Rightarrow> False
      | Some hs \<Rightarrow> \<not> List.member hs (tx_hash (inner_tx (into_consensus ptx))))"

text \<open>From the execution result to the end of the loop body. The panic of the last step leaves the build,
  so the state next to it is the one before the inclusion.\<close>

definition best_include ::
  "('db, 'st, 'c) op_ctx \<Rightarrow> fb_pooled_tx \<Rightarrow> exec_result \<Rightarrow> 'st \<Rightarrow> ('db, 'i, 'x) exec_state
   \<Rightarrow> (payload_error + unit option) flow \<times> ('db, 'i, 'x) exec_state" where
  "best_include ctx ptx result state s =
     (let tx = into_consensus ptx;
          info = push_executed (es_info s) tx (gas_used result) (estimated_da_size ptx)
                   (build_receipt ctx (inner_tx tx) result None) in
      case effective_tip_per_gas (evm ctx) (inner_tx tx) (base_fee ctx) of
        None \<Rightarrow> (Return (Inl (Panic ''fee is always valid; execution succeeded'')), s)
      | Some miner_fee \<Rightarrow>
          (Continue,
           s \<lparr> es_db := commit (evm ctx) (es_db s) state,
               es_info := info \<lparr> total_fees := total_fees info + ucast miner_fee * ucast (gas_used result) \<rparr> \<rparr>))"

definition best_check_result ::
  "('db, 'st, 'c) op_ctx \<Rightarrow> 'i payload_txs \<Rightarrow> fb_pooled_tx \<Rightarrow> exec_result \<Rightarrow> 'st \<Rightarrow> ('db, 'i, 'x) exec_state
   \<Rightarrow> (payload_error + unit option) flow \<times> ('db, 'i, 'x) exec_state" where
  "best_check_result ctx it ptx result state s0 =
     (let tx = into_consensus ptx;
          s1 = count (\<lambda>c. c \<lparr> num_txs_simulated := num_txs_simulated c + 1 \<rparr>) s0;
          (granted, limiter) = consume_gas (es_limiter s1) (signer tx) (gas_used result);
          s2 = s1 \<lparr> es_limiter := limiter \<rparr> in
      if \<not> is_ok granted then (Continue, skip_sender it tx s2)
      else
        let s3 = (if is_success result
                  then count (\<lambda>c. c \<lparr> num_txs_simulated_success := num_txs_simulated_success c + 1 \<rparr>) s2
                  else count (\<lambda>c. c \<lparr> num_txs_simulated_fail := num_txs_simulated_fail c + 1,
                                      reverted_gas_used := reverted_gas_used c + ucast (gas_used result),
                                      num_bundles_reverted := num_bundles_reverted c +
                                        (if reverted_hashes ptx \<noteq> None then 1 else 0) \<rparr>) s2) in
        if \<not> is_success result \<and> exclude_reverting ptx then (Continue, skip_sender it tx s3)
        else if is_some_and (max_gas_per_txn ctx) (\<lambda>m. m < gas_used result) then (Continue, skip_sender it tx s3)
        else best_include ctx ptx result state s3)"

definition best_step ::
  "('db, 'st, 'c) op_ctx \<Rightarrow> 'i payload_txs \<Rightarrow> exec_limits \<Rightarrow> ('db, 'i, 'x) exec_state \<Rightarrow> fb_pooled_tx
   \<Rightarrow> (payload_error + unit option) flow \<times> ('db, 'i, 'x) exec_state" where
  "best_step ctx it lims s0 ptx =
     (let tx = into_consensus ptx;
          s1 = count (\<lambda>c. c \<lparr> num_txs_considered := num_txs_considered c + 1 \<rparr>) s0 in
      if is_some_and (conditional ptx)
           (\<lambda>c. \<not> matches_block_attributes (evm ctx) c (block_number ctx) (timestamp ctx))
      then (Continue, skip_sender it tx s1)
      else if feature_interop ctx \<and>
              is_some_and (interop_deadline ptx) (\<lambda>d. \<not> is_valid_interop (evm ctx) d (timestamp ctx))
      then (Continue, skip_sender it tx s1)
      else if over_limits ctx lims (es_info s1) (estimated_da_size ptx) (tx_gas_limit (inner_tx tx)) \<noteq> Inr ()
      then (Continue, skip_sender it tx s1)
      else if is_eip4844 (inner_tx tx) \<or> is_deposit (inner_tx tx)
      then (Continue, skip_sender it tx s1)
      else
        let s2 = s1 \<lparr> es_cancel_polls := es_cancel_polls s1 + 1 \<rparr> in
        if cancel ctx (es_cancel_polls s1) then (Return (Inr (Some ())), s2)
        else
          (case transact (evm ctx) (es_db s2) tx of
             Inl (InvalidTx nonce_too_low msg) \<Rightarrow>
               if nonce_too_low then (Continue, s2) else (Continue, skip_sender it tx s2)
           | Inl (EvmFatal msg) \<Rightarrow> (Return (Inl (EvmExecutionError (EvmFatal msg))), s2)
           | Inr (result, state) \<Rightarrow> best_check_result ctx it ptx result state s2))"

definition exec_draw ::
  "'i payload_txs \<Rightarrow> ('db, 'i, 'x) exec_state \<Rightarrow> (fb_pooled_tx option \<times> ('db, 'i, 'x) exec_state) option" where
  "exec_draw it s = map_option (map_prod id (\<lambda>i. s \<lparr> es_iter := i \<rparr>)) (pt_next it (es_iter s))"

text \<open>\<open>Inr (Some ())\<close> says that the job was cancelled.\<close>

definition execute_best_transactions ::
  "('db, 'st, 'c) op_ctx \<Rightarrow> 'i payload_txs \<Rightarrow> exec_limits \<Rightarrow> ('db, 'i, 'x) exec_state
   \<Rightarrow> ((payload_error + unit option) \<times> ('db, 'i, 'x) exec_state) option" where
  "execute_best_transactions ctx it lims s =
     map_option (\<lambda>(r, s'). (case r of Continue \<Rightarrow> Inr None | Return v \<Rightarrow> v, s'))
       (while_next (exec_draw it) (best_step ctx it lims) (s \<lparr> es_counters := zero_counters \<rparr>))"

section \<open>Model: sidecar transactions\<close>

text \<open>A failure of a required transaction ends the call, one of an optional transaction skips it.\<close>

definition sidecar_fail ::
  "external_transaction \<Rightarrow> sidecar_error \<Rightarrow> ('db, 'x) seq_state \<Rightarrow> payload_error flow \<times> ('db, 'x) seq_state" where
  "sidecar_fail ext e s = (if required ext then (Return (SidecarFailed e), s) else (Continue, s))"

definition sidecar_step ::
  "('db, 'st, 'c) op_ctx \<Rightarrow> exec_limits \<Rightarrow> ('db, 'x) seq_state \<Rightarrow> external_transaction
   \<Rightarrow> payload_error flow \<times> ('db, 'x) seq_state" where
  "sidecar_step ctx lims s ext =
     (case decode_2718 (evm ctx) (raw ext) of
        Inl err \<Rightarrow> sidecar_fail ext (DecodeError err) s
      | Inr decoded \<Rightarrow>
          (case try_recover (evm ctx) decoded of
             None \<Rightarrow> sidecar_fail ext SignatureRecoveryFailed s
           | Some from \<Rightarrow>
               let tx = Recovered decoded from in
               if is_eip4844 decoded \<or> is_deposit decoded
               then sidecar_fail ext InvalidTransactionType s
               else
                 let da = tx_estimated_size_fjord_bytes (evm ctx) (encoded_2718 decoded) in
                 case over_limits ctx lims (ss_info s) da (tx_gas_limit decoded) of
                   Inl result \<Rightarrow> sidecar_fail ext (LimitsExceeded (txn_result_to_string result)) s
                 | Inr _ \<Rightarrow>
                     (case transact (evm ctx) (ss_db s) tx of
                        Inl err \<Rightarrow> sidecar_fail ext (ExecutionFailed (evm_err_msg err)) s
                      | Inr (result, state) \<Rightarrow>
                          if \<not> is_success result
                          then sidecar_fail ext (TransactionReverted (hash_to_string (evm ctx) (tx_hash decoded))) s
                          else
                            (Continue,
                             s \<lparr> ss_info := push_executed (ss_info s) tx (gas_used result) da
                                             (build_receipt ctx decoded result None),
                                 ss_db := commit (evm ctx) (ss_db s) state \<rparr>))))"

definition execute_sidecar_transactions ::
  "('db, 'st, 'c) op_ctx \<Rightarrow> exec_limits \<Rightarrow> external_transaction list \<Rightarrow> ('db, 'x) seq_state
   \<Rightarrow> (payload_error + unit) \<times> ('db, 'x) seq_state" where
  "execute_sidecar_transactions ctx lims external_txs s =
     (case for_in (sidecar_step ctx lims) external_txs s of
        (Continue, s') \<Rightarrow> (Inr (), s')
      | (Return e, s') \<Rightarrow> (Inl e, s'))"

end
