(* ===== verification/Inclusion.thy ===== *)
theory Inclusion
  imports Executors
begin

text \<open>
  What the executors have in common: they turn one execution record and database into another by
  including transactions one at a time, each executed on the database its predecessors left. The
  relation \<open>included\<close> records the included transactions with their results; its guard is
  what the executor has checked when it included one. A nonce in the receipt of a deposit is that of the depositor
  before the transaction. The laws below hold for every guard, and are the interface the properties of the executors rest on.
\<close>

section \<open>The inclusion relation\<close>

inductive included ::
  "('db, 'st, 'c) op_ctx \<Rightarrow> ('x execution_info \<Rightarrow> recovered \<Rightarrow> exec_result \<Rightarrow> u64 \<Rightarrow> bool)
   \<Rightarrow> 'x execution_info \<times> 'db \<Rightarrow> (recovered \<times> exec_result) list \<Rightarrow> 'x execution_info \<times> 'db \<Rightarrow> bool"
  for ctx guard where
  none: "included ctx guard p [] p"
| snoc: "included ctx guard p es (info, db) \<Longrightarrow> transact (evm ctx) db tx = Inr (r, st) \<Longrightarrow>
    guard info tx r da \<Longrightarrow> nonce = None \<or> depositor_nonce ctx db tx = Inr nonce \<Longrightarrow>
    included ctx guard p (es @ [(tx, r)])
      ((push_executed info tx (gas_used r) da (build_receipt ctx (inner_tx tx) r nonce)) \<lparr> total_fees := fees \<rparr>,
       commit (evm ctx) db st)"

text \<open>Running the transactions of a block again, in order, on a database.\<close>

fun replay :: "('db, 'st) evm_ops \<Rightarrow> 'db \<Rightarrow> recovered list \<Rightarrow> ('db \<times> exec_result list) option" where
  "replay ops db [] = Some (db, [])"
| "replay ops db (tx # txs) =
     (case transact ops db tx of
        Inl e \<Rightarrow> None
      | Inr (r, st) \<Rightarrow> map_option (map_prod id (\<lambda>rs. r # rs)) (replay ops (commit ops db st) txs))"

section \<open>Laws\<close>

lemma included_trans:
  assumes "included ctx guard q es' u" "included ctx guard p es q"
  shows "included ctx guard p (es @ es') u"
  using assms
proof (induction rule: included.induct)
  case (snoc p' es' info db tx r st da nonce fees)
  then show ?case
    using included.snoc [of ctx guard p "es @ es'" info db tx r st da nonce fees] by simp
qed simp

lemma included_one:
  assumes "transact (evm ctx) db tx = Inr (r, st)" "guard info tx r da" "nonce = None \<or> depositor_nonce ctx db tx = Inr nonce"
  shows "included ctx guard (info, db) [(tx, r)]
    ((push_executed info tx (gas_used r) da (build_receipt ctx (inner_tx tx) r nonce)) \<lparr> total_fees := fees \<rparr>,
     commit (evm ctx) db st)"
  using included.snoc [of ctx guard "(info, db)" "[]" info db tx r st da nonce fees] assms
  by (simp add: included.none)

lemma included_mono:
  assumes "included ctx guard p es q" "\<And>info tx r da. guard info tx r da \<Longrightarrow> guard' info tx r da"
  shows "included ctx guard' p es q"
  using assms by (induction rule: included.induct) (auto intro: included.intros)

lemma replay_append:
  "replay ops db (txs @ txs') =
     (case replay ops db txs of
        None \<Rightarrow> None
      | Some (db', rs) \<Rightarrow> map_option (map_prod id (\<lambda>rs'. rs @ rs')) (replay ops db' txs'))"
proof (induction txs arbitrary: db)
  case Nil
  then show ?case by (cases "replay ops db txs'") (auto simp: map_prod_def)
next
  case (Cons tx txs)
  show ?case
  proof (cases "transact ops db tx")
    case (Inr res)
    obtain r st where "res = (r, st)" by fastforce
    then show ?thesis
      using Inr Cons.IH [of "commit ops db st"]
      by (simp add: option.map_comp comp_def map_prod_def case_prod_unfold split: option.split)
  qed simp
qed

lemma included_replay:
  assumes "included ctx guard p es q"
  shows "replay (evm ctx) (snd p) (map fst es) = Some (snd q, map snd es)"
  using assms by (induction rule: included.induct) (simp_all add: replay_append)

lemma included_lists:
  assumes "included ctx guard p es q"
  shows "executed_transactions (fst q) = executed_transactions (fst p) @ map (inner_tx \<circ> fst) es"
    and "executed_senders (fst q) = executed_senders (fst p) @ map (signer \<circ> fst) es"
    and "cumulative_gas_used (fst q) = cumulative_gas_used (fst p) + (\<Sum>e \<leftarrow> es. gas_used (snd e))"
    and "extra (fst q) = extra (fst p)"
    and "da_footprint_scalar (fst q) = da_footprint_scalar (fst p)"
    and "optional_blob_fields (fst q) = optional_blob_fields (fst p)"
    and "\<exists>rs. receipts (fst q) = receipts (fst p) @ rs \<and> length rs = length es"
  using assms by (induction rule: included.induct) (auto simp: add.assoc)

lemma included_extends: "included ctx guard p es q \<Longrightarrow> extends (fst p) (fst q)"
  using included_lists [of ctx guard p es q] by (auto simp: extends_def)

lemma included_wf:
  assumes "included ctx guard p es q" "receipt_law (evm ctx)" "info_wf (fst p)"
  shows "info_wf (fst q)"
  using assms
proof (induction rule: included.induct)
  case (snoc p es info db tx r st da nonce fees)
  then have "info_wf (push_executed info tx (gas_used r) da (build_receipt ctx (inner_tx tx) r nonce))"
    by (intro push_executed_wf) (simp_all add: build_receipt_gas)
  then show ?case by (simp add: info_wf_def)
qed simp

text \<open>What the guard says of the transaction and its result holds of every included one.\<close>

lemma included_all:
  assumes "included ctx guard p es q" "\<And>info tx r da. guard info tx r da \<Longrightarrow> P tx r"
  shows "\<forall>(tx, r) \<in> set es. P tx r"
  using assms by (induction rule: included.induct) auto

text \<open>Gas stays within a limit the guard has checked against the gas limit of the transaction.\<close>

lemma gas_step_bound:
  fixes cum gl used lim el :: u64
  assumes "cum + gl \<le> lim" "used \<le> gl" "gl \<le> el" "unat cum + unat el < 2 ^ 64"
  shows "cum + used \<le> lim"
proof -
  have le: "unat used \<le> unat gl" "unat gl \<le> unat el"
    using assms(2,3) by (simp_all add: word_le_nat_alt)
  have "unat (cum + gl) = unat cum + unat gl" "unat (cum + used) = unat cum + unat used"
    using le assms(4) by (auto intro!: unat_add_no_wrap)
  then show ?thesis
    using assms(1) le by (simp add: word_le_nat_alt)
qed

lemma included_gas_bound:
  assumes "included ctx guard p es q"
    and "evm_gas_law (evm ctx) el"
    and check: "\<And>info tx r da. guard info tx r da \<Longrightarrow> cumulative_gas_used info + tx_gas_limit (inner_tx tx) \<le> lim"
    and "unat (max (cumulative_gas_used (fst p)) lim) + unat el < 2 ^ 64"
  shows "cumulative_gas_used (fst q) \<le> max (cumulative_gas_used (fst p)) lim"
  using assms(1,4)
proof (induction rule: included.induct)
  case (snoc p es info db tx r st da nonce fees)
  have "unat (cumulative_gas_used info) + unat el < 2 ^ 64"
    using snoc by (simp add: word_le_nat_alt)
  then have "cumulative_gas_used info + gas_used r \<le> lim"
    using gas_step_bound [OF check [OF snoc.hyps(3)]] evm_gas_lawD [OF assms(2) snoc.hyps(2)] by blast
  then show ?case by (simp add: le_max_iff_disj)
qed simp

text \<open>The same for the data size, whose check saturates.\<close>

lemma included_da_bound:
  assumes "included ctx guard p es q"
    and check: "\<And>info tx r da. guard info tx r da \<Longrightarrow> saturating_add (cumulative_da_bytes_used info) da \<le> lim"
  shows "cumulative_da_bytes_used (fst q) \<le> max (cumulative_da_bytes_used (fst p)) lim"
  using assms(1)
proof (induction rule: included.induct)
  case (snoc p es info db tx r st da nonce fees)
  have "cumulative_da_bytes_used info + da \<le> lim"
    using check [OF snoc.hyps(3)]
    by (auto simp: saturating_add_def split: if_splits intro: order_trans [OF word_n1_ge])
  then show ?case by (simp add: le_max_iff_disj)
qed simp

text \<open>And for the data footprint, the data size times a scalar.\<close>

lemma included_footprint_bound:
  assumes "included ctx guard p es q"
    and check: "\<And>info tx r da. guard info tx r da \<Longrightarrow> da_footprint_scalar info = Some sc \<Longrightarrow>
      saturating_mul (saturating_add (cumulative_da_bytes_used info) da) (ucast sc) \<le> lim"
    and "lim \<noteq> - 1" "da_footprint_scalar (fst p) = Some sc"
  shows "unat (cumulative_da_bytes_used (fst q)) * unat sc
    \<le> max (unat (cumulative_da_bytes_used (fst p)) * unat sc) (unat lim)"
  using assms(1,4)
proof (induction rule: included.induct)
  case (snoc p es info db tx r st da nonce fees)
  have "da_footprint_scalar info = Some sc"
    using included_lists(5) [OF snoc.hyps(1)] snoc.prems by simp
  then have "(unat (cumulative_da_bytes_used info) + unat da) * unat sc \<le> unat lim"
    using check [OF snoc.hyps(3)] by (simp add: footprint_le_iff [OF assms(3)])
  then have "unat (cumulative_da_bytes_used info + da) * unat sc \<le> unat lim"
    using mult_le_mono1 [OF unat_add_le] order_trans by blast
  then show ?case by simp
qed simp

section \<open>The executors include transactions\<close>

text \<open>What each executor has checked when it includes a transaction.\<close>

definition sequencer_guard ::
  "('db, 'st, 'c) op_ctx \<Rightarrow> 'x execution_info \<Rightarrow> recovered \<Rightarrow> exec_result \<Rightarrow> u64 \<Rightarrow> bool" where
  "sequencer_guard ctx info tx r da \<longleftrightarrow>
     \<not> is_eip4844 (inner_tx tx) \<and> inner_tx tx \<in> set (at_transactions (attributes ctx)) \<and>
     try_recover (evm ctx) (inner_tx tx) = Some (signer tx)"

definition best_guard ::
  "('db, 'st, 'c) op_ctx \<Rightarrow> 'i payload_txs \<Rightarrow> exec_limits \<Rightarrow> 'x execution_info \<Rightarrow> recovered \<Rightarrow> exec_result
   \<Rightarrow> u64 \<Rightarrow> bool" where
  "best_guard ctx it lims info tx r da \<longleftrightarrow>
     over_limits ctx lims info da (tx_gas_limit (inner_tx tx)) = Inr () \<and>
     \<not> is_eip4844 (inner_tx tx) \<and> \<not> is_deposit (inner_tx tx) \<and>
     (\<forall>m. max_gas_per_txn ctx = Some m \<longrightarrow> gas_used r \<le> m) \<and>
     (\<exists>ptx i i'. pt_next it i = Some (Some ptx, i') \<and> into_consensus ptx = tx \<and> estimated_da_size ptx = da \<and>
        (\<forall>c. conditional ptx = Some c \<longrightarrow>
           matches_block_attributes (evm ctx) c (block_number ctx) (timestamp ctx)) \<and>
        (is_success r \<or> \<not> exclude_reverting ptx))"

definition sidecar_guard ::
  "('db, 'st, 'c) op_ctx \<Rightarrow> exec_limits \<Rightarrow> 'x execution_info \<Rightarrow> recovered \<Rightarrow> exec_result \<Rightarrow> u64 \<Rightarrow> bool" where
  "sidecar_guard ctx lims info tx r da \<longleftrightarrow>
     over_limits ctx lims info da (tx_gas_limit (inner_tx tx)) = Inr () \<and>
     \<not> is_eip4844 (inner_tx tx) \<and> \<not> is_deposit (inner_tx tx) \<and> is_success r"

text \<open>One state includes more than another.\<close>

definition seq_includes where
  "seq_includes ctx guard s s' \<longleftrightarrow> (\<exists>es. included ctx guard (ss_info s, ss_db s) es (ss_info s', ss_db s'))"

text \<open>The rate limiter has been charged for the transactions included: what a sender got included
  and what is left of its budget is within the budget it had.\<close>

definition charged_gas :: "address \<Rightarrow> (recovered \<times> exec_result) list \<Rightarrow> nat" where
  "charged_gas a es = (\<Sum>e \<leftarrow> es. if signer (fst e) = a then unat (gas_used (snd e)) else 0)"

definition charges :: "address_gas_limiter \<Rightarrow> (recovered \<times> exec_result) list \<Rightarrow> address_gas_limiter \<Rightarrow> bool" where
  "charges lim es lim' \<longleftrightarrow>
     (\<forall>l. lim = Some l \<longrightarrow> (\<exists>l'. lim' = Some l' \<and>
        (\<forall>a. charged_gas a es + unat (limiter_budget l' a) \<le> unat (limiter_budget l a))))"

definition exec_includes where
  "exec_includes ctx guard s s' \<longleftrightarrow>
     (\<exists>es. included ctx guard (es_info s, es_db s) es (es_info s', es_db s') \<and>
           charges (es_limiter s) es (es_limiter s'))"

lemma charges_refl: "charges lim [] lim"
  by (simp add: charges_def charged_gas_def)

lemma charged_gas_append: "charged_gas a (es @ es') = charged_gas a es + charged_gas a es'"
  by (simp add: charged_gas_def)

lemma charges_trans: "charges lim es lim' \<Longrightarrow> charges lim' es' lim'' \<Longrightarrow> charges lim (es @ es') lim''"
proof (unfold charges_def [of lim "es @ es'"], intro allI impI)
  fix l
  assume c: "charges lim es lim'" "charges lim' es' lim''" and "lim = Some l"
  then obtain l1 where l1: "lim' = Some l1"
    and le1: "\<forall>a. charged_gas a es + unat (limiter_budget l1 a) \<le> unat (limiter_budget l a)"
    unfolding charges_def [of lim es] by blast
  obtain l2 where l2: "lim'' = Some l2"
    and le2: "\<forall>a. charged_gas a es' + unat (limiter_budget l2 a) \<le> unat (limiter_budget l1 a)"
    using c(2) l1 unfolding charges_def by blast
  have "charged_gas a (es @ es') + unat (limiter_budget l2 a) \<le> unat (limiter_budget l a)" for a
    using spec [OF le1, of a] spec [OF le2, of a] unfolding charged_gas_append by linarith
  then show "\<exists>l'. lim'' = Some l' \<and>
      (\<forall>a. charged_gas a (es @ es') + unat (limiter_budget l' a) \<le> unat (limiter_budget l a))"
    using l2 by blast
qed

lemma consume_gas_budget:
  assumes "consume_gas (Some l) a g = (r, lim')"
  obtains l' where "lim' = Some l'"
    "\<And>b. unat (limiter_budget l' b) =
       (if b = a \<and> is_ok r then unat (limiter_budget l b) - unat g else unat (limiter_budget l b))"
    "is_ok r \<Longrightarrow> unat g \<le> unat (limiter_budget l a)"
proof -
  obtain x l' where x: "inner_consume_gas l a g = (x, l')" by fastforce
  then have lim: "lim' = Some l'" "r = x" using assms by auto
  have ok: "is_ok x \<longleftrightarrow> unat g \<le> unat (limiter_budget l a)"
    using inner_consume_gas_result [of l a g] x by (simp add: word_less_nat_alt)
  have budget: "limiter_budget l' b =
      (if b = a \<and> \<not> limiter_budget l a < g then limiter_budget l a - g else limiter_budget l b)" for b
    using limiter_budget_consume [of l a g b] x by simp
  show ?thesis
  proof (rule that [OF lim(1)])
    show "unat (limiter_budget l' b) =
        (if b = a \<and> is_ok r then unat (limiter_budget l b) - unat g else unat (limiter_budget l b))" for b
      unfolding budget lim(2) ok by (simp add: unat_sub word_le_nat_alt word_less_nat_alt)
    show "is_ok r \<Longrightarrow> unat g \<le> unat (limiter_budget l a)"
      by (simp add: lim(2) ok)
  qed
qed

lemma charges_consume: "charges lim [] (snd (consume_gas lim a g))"
proof (cases lim)
  case (Some l)
  obtain r lim' where r: "consume_gas (Some l) a g = (r, lim')" by fastforce
  obtain l' where "lim' = Some l'"
    "\<And>b. unat (limiter_budget l' b) =
       (if b = a \<and> is_ok r then unat (limiter_budget l b) - unat g else unat (limiter_budget l b))"
    using consume_gas_budget [OF r] by blast
  then show ?thesis
    using Some r by (simp add: charges_def charged_gas_def del: consume_gas.simps)
qed (simp add: charges_def)

lemma charges_granted:
  assumes "is_ok (fst (consume_gas lim (signer tx) (gas_used r)))"
  shows "charges lim [(tx, r)] (snd (consume_gas lim (signer tx) (gas_used r)))"
proof (cases lim)
  case (Some l)
  obtain x lim' where x: "consume_gas (Some l) (signer tx) (gas_used r) = (x, lim')" by fastforce
  have ok: "is_ok x" using assms Some x by (simp del: consume_gas.simps)
  obtain l' where "lim' = Some l'" "unat (gas_used r) \<le> unat (limiter_budget l (signer tx))"
    "\<And>b. unat (limiter_budget l' b) =
       (if b = signer tx then unat (limiter_budget l b) - unat (gas_used r) else unat (limiter_budget l b))"
    using consume_gas_budget [OF x] ok by auto
  then show ?thesis
    using Some x by (simp add: charges_def charged_gas_def del: consume_gas.simps)
qed (simp add: charges_def)

lemma seq_includes_refl: "seq_includes ctx guard s s"
  by (auto simp: seq_includes_def intro: included.none)

lemma seq_includes_trans: "seq_includes ctx guard s t \<Longrightarrow> seq_includes ctx guard t u \<Longrightarrow> seq_includes ctx guard s u"
  by (auto simp: seq_includes_def intro: included_trans)

lemma exec_includes_trans: "exec_includes ctx guard s t \<Longrightarrow> exec_includes ctx guard t u \<Longrightarrow> exec_includes ctx guard s u"
  unfolding exec_includes_def using included_trans charges_trans by blast

lemma exec_includes_none:
  "es_info s' = es_info s \<Longrightarrow> es_db s' = es_db s \<Longrightarrow> charges (es_limiter s) [] (es_limiter s') \<Longrightarrow>
   exec_includes ctx guard s s'"
  unfolding exec_includes_def by (rule exI [of _ "[]"]) (simp add: included.none)

lemma exec_includes_same:
  "es_info s' = es_info s \<Longrightarrow> es_db s' = es_db s \<Longrightarrow> es_limiter s' = es_limiter s \<Longrightarrow> exec_includes ctx guard s s'"
  by (simp add: exec_includes_none charges_refl)

lemma exec_includes_refl: "exec_includes ctx guard s s"
  by (simp add: exec_includes_same)

lemma exec_includes_consumed:
  "es_info s' = es_info s \<Longrightarrow> es_db s' = es_db s \<Longrightarrow> es_limiter s' = snd (consume_gas (es_limiter s) a g) \<Longrightarrow>
   exec_includes ctx guard s s'"
  by (simp add: exec_includes_none charges_consume)

text \<open>Pushing without touching the fees is pushing with the fees they already had.\<close>

lemma included_push:
  assumes "transact (evm ctx) db tx = Inr (r, st)" "guard info tx r da" "nonce = None \<or> depositor_nonce ctx db tx = Inr nonce"
    and "inner_tx tx = t"
  shows "included ctx guard (info, db) [(tx, r)]
    (push_executed info tx (gas_used r) da (build_receipt ctx t r nonce), commit (evm ctx) db st)"
  using included_one [of ctx db tx r st guard info da nonce "total_fees info"] assms
  by (simp add: push_executed_def Let_def)

lemma seq_includes_push:
  assumes "transact (evm ctx) (ss_db s) tx = Inr (r, st)" "guard (ss_info s) tx r da"
    and "nonce = None \<or> depositor_nonce ctx (ss_db s) tx = Inr nonce" "inner_tx tx = t"
  shows "seq_includes ctx guard s
    (s \<lparr> ss_info := push_executed (ss_info s) tx (gas_used r) da (build_receipt ctx t r nonce),
         ss_db := commit (evm ctx) (ss_db s) st \<rparr>)"
  using included_push [of ctx "ss_db s" tx r st guard "ss_info s" da nonce t, OF assms]
  by (auto simp: seq_includes_def)

lemma sequencer_step_includes:
  assumes "sequencer_tx \<in> set (at_transactions (attributes ctx))"
  shows "seq_includes ctx (sequencer_guard ctx) s (snd (sequencer_step ctx s sequencer_tx))"
  using assms
  by (auto simp: sequencer_step_def Let_def sequencer_guard_def
      intro!: seq_includes_push seq_includes_refl
      split: option.splits sum.splits evm_err.splits)

lemma snd_sidecar_fail [simp]: "snd (sidecar_fail ext e s) = s"
  by (simp add: sidecar_fail_def)

lemma sidecar_step_includes:
  "seq_includes ctx (sidecar_guard ctx lims) s (snd (sidecar_step ctx lims s ext))"
  by (auto simp: sidecar_step_def Let_def sidecar_guard_def
      intro!: seq_includes_push seq_includes_refl
      split: option.splits sum.splits)

lemma skip_sender_sel [simp]:
  "es_info (skip_sender it tx s) = es_info s" "es_db (skip_sender it tx s) = es_db s"
  "es_limiter (skip_sender it tx s) = es_limiter s" "es_cancel_polls (skip_sender it tx s) = es_cancel_polls s"
  by (simp_all add: skip_sender_def)

lemma count_sel [simp]:
  "es_info (count f s) = es_info s" "es_db (count f s) = es_db s" "es_iter (count f s) = es_iter s"
  "es_limiter (count f s) = es_limiter s" "es_cancel_polls (count f s) = es_cancel_polls s"
  by (simp_all add: count_def)

lemma best_include_includes:
  assumes "transact (evm ctx) (es_db s) (into_consensus ptx) = Inr (r, st)"
    and "best_guard ctx it lims (es_info s) (into_consensus ptx) r (estimated_da_size ptx)"
    and "es_info t = es_info s" "es_db t = es_db s"
    and limiter: "es_limiter t = snd (consume_gas (es_limiter s) (signer (into_consensus ptx)) (gas_used r))"
      "is_ok (fst (consume_gas (es_limiter s) (signer (into_consensus ptx)) (gas_used r)))"
  shows "exec_includes ctx (best_guard ctx it lims) s (snd (best_include ctx ptx r st t))"
proof -
  have "included ctx (best_guard ctx it lims) (es_info s, es_db s) [(into_consensus ptx, r)]
      ((push_executed (es_info s) (into_consensus ptx) (gas_used r) (estimated_da_size ptx)
          (build_receipt ctx (inner_tx (into_consensus ptx)) r None)) \<lparr> total_fees := fees \<rparr>,
       commit (evm ctx) (es_db s) st)" for fees
    using included_one [of ctx "es_db s" "into_consensus ptx" r st "best_guard ctx it lims" "es_info s"
        "estimated_da_size ptx" None fees] assms by simp
  then have inc: "\<exists>es. included ctx (best_guard ctx it lims) (es_info s, es_db s) es
      ((push_executed (es_info s) (into_consensus ptx) (gas_used r) (estimated_da_size ptx)
          (build_receipt ctx (inner_tx (into_consensus ptx)) r None)) \<lparr> total_fees := fees \<rparr>,
       commit (evm ctx) (es_db s) st) \<and> charges (es_limiter s) es (es_limiter t)" for fees
    using charges_granted [OF limiter(2)] limiter(1) by auto
  show ?thesis
  proof (cases "effective_tip_per_gas (evm ctx) (inner_tx (into_consensus ptx)) (base_fee ctx)")
    case None
    then show ?thesis using assms
      by (auto simp: best_include_def Let_def intro: exec_includes_consumed)
  next
    case (Some fee)
    then show ?thesis using inc assms(3,4)
      by (simp add: best_include_def Let_def exec_includes_def)
  qed
qed

text \<open>After execution the transaction is either left out, or included with nothing changed in
  between but the counters and the rate limiter.\<close>

lemma best_check_result_cases:
  obtains (skipped) t where "best_check_result ctx it ptx r st s = (Continue, t)"
      "es_info t = es_info s" "es_db t = es_db s"
      "es_limiter t = snd (consume_gas (es_limiter s) (signer (into_consensus ptx)) (gas_used r))"
  | (taken) t where "best_check_result ctx it ptx r st s = best_include ctx ptx r st t"
      "es_info t = es_info s" "es_db t = es_db s"
      "es_limiter t = snd (consume_gas (es_limiter s) (signer (into_consensus ptx)) (gas_used r))"
      "is_ok (fst (consume_gas (es_limiter s) (signer (into_consensus ptx)) (gas_used r)))"
      "\<forall>m. max_gas_per_txn ctx = Some m \<longrightarrow> gas_used r \<le> m" "is_success r \<or> \<not> exclude_reverting ptx"
proof -
  obtain granted lim where "consume_gas (es_limiter s) (signer (into_consensus ptx)) (gas_used r) = (granted, lim)"
    by fastforce
  note consumed = this
  define s2 where "s2 = count (\<lambda>c. c \<lparr> num_txs_simulated := num_txs_simulated c + 1 \<rparr>) s \<lparr> es_limiter := lim \<rparr>"
  define s3 where "s3 = (if is_success r
    then count (\<lambda>c. c \<lparr> num_txs_simulated_success := num_txs_simulated_success c + 1 \<rparr>) s2
    else count (\<lambda>c. c \<lparr> num_txs_simulated_fail := num_txs_simulated_fail c + 1,
                        reverted_gas_used := reverted_gas_used c + ucast (gas_used r),
                        num_bundles_reverted := num_bundles_reverted c +
                          (if reverted_hashes ptx \<noteq> None then 1 else 0) \<rparr>) s2)"
  have sel: "es_info s3 = es_info s" "es_db s3 = es_db s" "es_info s2 = es_info s" "es_db s2 = es_db s"
      "es_limiter s2 = lim" "es_limiter s3 = lim"
    by (simp_all add: s2_def s3_def)
  have eq: "best_check_result ctx it ptx r st s =
      (if \<not> is_ok granted then (Continue, skip_sender it (into_consensus ptx) s2)
       else if \<not> is_success r \<and> exclude_reverting ptx then (Continue, skip_sender it (into_consensus ptx) s3)
       else if is_some_and (max_gas_per_txn ctx) (\<lambda>m. m < gas_used r)
       then (Continue, skip_sender it (into_consensus ptx) s3)
       else best_include ctx ptx r st s3)"
    by (simp only: best_check_result_def Let_def count_sel consumed prod.case s2_def s3_def)
  show ?thesis
  proof (cases "is_ok granted \<and> \<not> (\<not> is_success r \<and> exclude_reverting ptx) \<and>
      \<not> is_some_and (max_gas_per_txn ctx) (\<lambda>m. m < gas_used r)")
    case True
    then have "best_check_result ctx it ptx r st s = best_include ctx ptx r st s3" by (auto simp: eq)
    moreover have "\<forall>m. max_gas_per_txn ctx = Some m \<longrightarrow> gas_used r \<le> m"
      using True by (auto simp: is_some_and_iff not_less)
    ultimately show ?thesis
      using taken [of s3] sel True consumed by simp
  next
    case False
    then have "best_check_result ctx it ptx r st s =
        (Continue, skip_sender it (into_consensus ptx) (if is_ok granted then s3 else s2))"
      by (auto simp: eq)
    then show ?thesis using skipped sel consumed by simp
  qed
qed

lemma best_step_includes:
  assumes "pt_next it i = Some (Some ptx, i')"
  shows "exec_includes ctx (best_guard ctx it lims) s (snd (best_step ctx it lims s ptx))"
proof -
  let ?s = "count (\<lambda>c. c \<lparr> num_txs_considered := num_txs_considered c + 1 \<rparr>) s"
  let ?t = "?s \<lparr> es_cancel_polls := es_cancel_polls ?s + 1 \<rparr>"
  have run: "exec_includes ctx (best_guard ctx it lims) s (snd (best_check_result ctx it ptx r st ?t))"
    if exec: "transact (evm ctx) (es_db s) (into_consensus ptx) = Inr (r, st)"
      and fit: "over_limits ctx lims (es_info s) (estimated_da_size ptx)
        (tx_gas_limit (inner_tx (into_consensus ptx))) = Inr ()"
      and kind: "\<not> is_eip4844 (inner_tx (into_consensus ptx))" "\<not> is_deposit (inner_tx (into_consensus ptx))"
      and cond: "\<not> is_some_and (conditional ptx)
        (\<lambda>c. \<not> matches_block_attributes (evm ctx) c (block_number ctx) (timestamp ctx))"
    for r st
  proof (cases rule: best_check_result_cases [of ctx it ptx r st ?t])
    case (skipped u)
    then show ?thesis by (auto intro: exec_includes_consumed)
  next
    case (taken u)
    have "best_guard ctx it lims (es_info s) (into_consensus ptx) r (estimated_da_size ptx)"
      using taken fit kind cond assms unfolding best_guard_def is_some_and_iff by simp blast
    then show ?thesis
      using exec taken by (simp add: best_include_includes)
  qed
  show ?thesis
    using run
    by (auto simp: best_step_def Let_def exec_includes_same split: sum.splits evm_err.splits)
qed

interpretation sequencer_loop: loop_body "sequencer_step ctx" "\<lambda>tx. tx \<in> set (at_transactions (attributes ctx))"
  "\<lambda>s. True" "seq_includes ctx (sequencer_guard ctx)" for ctx
  by unfold_locales (auto intro: seq_includes_refl seq_includes_trans sequencer_step_includes)

interpretation sidecar_loop: loop_body "sidecar_step ctx lims" "\<lambda>ext. True" "\<lambda>s. True"
  "seq_includes ctx (sidecar_guard ctx lims)" for ctx lims
  by unfold_locales (auto intro: seq_includes_refl seq_includes_trans sidecar_step_includes)

interpretation best_loop: drawing_loop "best_step ctx it lims"
  "\<lambda>ptx. \<exists>i i'. pt_next it i = Some (Some ptx, i')" "\<lambda>s. True" "exec_includes ctx (best_guard ctx it lims)"
  "exec_draw it" for ctx it lims
  by unfold_locales
    (auto intro: exec_includes_refl exec_includes_trans best_step_includes exec_includes_same simp: exec_draw_def)

text \<open>Hence so do the three functions.\<close>

lemma sequencer_includes:
  assumes "execute_sequencer_transactions ctx x db = (Inr info, db')"
  shows "\<exists>es info0. included ctx (sequencer_guard ctx) (with_capacity x, db) es (info0, db') \<and>
    info = info0 \<lparr> da_footprint_scalar := da_footprint_scalar info \<rparr>"
proof -
  let ?s = "\<lparr> ss_info = with_capacity x, ss_db = db \<rparr>"
  obtain s where s: "for_in (sequencer_step ctx) (at_transactions (attributes ctx)) ?s = (Continue, s)"
    and info: "info = (ss_info s) \<lparr> da_footprint_scalar := da_footprint_scalar info \<rparr>" "db' = ss_db s"
    using assms
    by (auto simp: execute_sequencer_transactions_def split: prod.splits flow.splits if_splits option.splits)
  have "seq_includes ctx (sequencer_guard ctx) ?s s"
    using sequencer_loop.for_in_keeps [of "at_transactions (attributes ctx)" ctx ?s] s by simp
  then show ?thesis using info by (auto simp: seq_includes_def)
qed

lemma best_includes:
  assumes "execute_best_transactions ctx it lims s = Some (r, s')"
  shows "\<exists>es. included ctx (best_guard ctx it lims) (es_info s, es_db s) es (es_info s', es_db s') \<and>
    charges (es_limiter s) es (es_limiter s')"
proof -
  obtain f where "while_next (exec_draw it) (best_step ctx it lims) (s \<lparr> es_counters := zero_counters \<rparr>) = Some (f, s')"
    using assms by (auto simp: execute_best_transactions_def)
  then have "exec_includes ctx (best_guard ctx it lims) (s \<lparr> es_counters := zero_counters \<rparr>) s'"
    using best_loop.while_next_keeps by blast
  then show ?thesis by (simp add: exec_includes_def)
qed

lemma sidecar_includes:
  "\<exists>es. included ctx (sidecar_guard ctx lims) (ss_info s, ss_db s) es
     (ss_info (snd (execute_sidecar_transactions ctx lims txs s)), ss_db (snd (execute_sidecar_transactions ctx lims txs s)))"
  using sidecar_loop.for_in_keeps [of txs ctx lims s]
  by (auto simp: execute_sidecar_transactions_def seq_includes_def split: prod.splits flow.splits)

end
