(* ===== verification/Samples.thy ===== *)
theory Samples
  imports Inclusion
begin

text \<open>
  A small concrete environment on which the properties are instantiated: a database that counts the
  committed transactions, an EVM that charges 21000 gas, rejects transactions above the block
  gas limit or below 21000 gas, reverts those with nonce 7, and a chain with or without the Jovian
  upgrade. It meets the hypotheses the properties make about the linked libraries.
\<close>

definition demo_transact :: "nat \<Rightarrow> recovered \<Rightarrow> evm_err + exec_result \<times> nat" where
  "demo_transact db tx =
     (if 30000000 < tx_gas_limit (inner_tx tx) \<or> tx_gas_limit (inner_tx tx) < 21000
      then Inl (InvalidTx False ''gas limit'')
      else if tx_nonce (inner_tx tx) = 7 then Inr (Revert 21000 [], db + 1)
      else Inr (Success 21000 [] [], db + 1))"

definition demo_tx :: "nat \<Rightarrow> u64 \<Rightarrow> op_tx" where
  "demo_tx n nonce = \<lparr> tx_hash = of_nat n, tx_ty = Eip1559, tx_nonce = nonce, tx_gas_limit = 50000,
     encoded_2718 = [of_nat n] \<rparr>"

definition demo_ops :: "(nat, nat) evm_ops" where
  "demo_ops = \<lparr> transact = demo_transact, commit = (\<lambda>db st. st),
     load_cache_account = (\<lambda>db a. Inr (Some 0)),
     fetch_da_footprint_gas_scalar = (\<lambda>db. Some 2),
     tx_estimated_size_fjord_bytes = (\<lambda>bs. 100),
     try_recover = (\<lambda>tx. Some (ucast (tx_hash tx))),
     decode_2718 = (\<lambda>bs. case bs of [b] \<Rightarrow> Inr (demo_tx (unat b) 0) | _ \<Rightarrow> Inl ''malformed''),
     effective_tip_per_gas = (\<lambda>tx fee. Some 1),
     rb_build_receipt = (\<lambda>tx r g. if is_deposit tx then None
        else Some (REip1559 \<lparr> rc_status = is_success r, rc_cumulative_gas_used = g, rc_logs = into_logs r \<rparr>)),
     rb_build_deposit_receipt = RDeposit,
     matches_block_attributes = (\<lambda>c n t. True),
     is_valid_interop = (\<lambda>d t. True),
     hash_to_string = (\<lambda>h. hex_digits (unat h)) \<rparr>"

definition demo_spec :: "bool \<Rightarrow> chain_spec" where
  "demo_spec jovian = \<lparr> shanghai_at = (\<lambda>t. True), regolith_at = (\<lambda>t. True), canyon_at = (\<lambda>t. True),
     ecotone_at = (\<lambda>t. True), holocene_at = (\<lambda>t. False), isthmus_at = (\<lambda>t. False), jovian_at = (\<lambda>t. jovian),
     base_fee_params_at = (\<lambda>t. \<lparr> max_change_denominator = 50, elasticity_multiplier = 6 \<rparr>),
     spec_chain_id = 10 \<rparr>"

definition demo_attrs :: "op_tx list \<Rightarrow> payload_attrs" where
  "demo_attrs txs = \<lparr> at_timestamp = 1000, at_transactions = txs, at_no_tx_pool = False, at_gas_limit = None,
     at_withdrawals = [], at_parent_beacon_root = Some 3, at_prev_randao = 0, at_fee_recipient = 0,
     at_payload_id = 1, get_jovian_extra_data = (\<lambda>p. Inr [0]), get_holocene_extra_data = (\<lambda>p. Inr [1]) \<rparr>"

definition demo_ctx :: "bool \<Rightarrow> op_tx list \<Rightarrow> 'c \<Rightarrow> (nat, nat, 'c) op_ctx" where
  "demo_ctx jovian txs x = \<lparr> evm = demo_ops, max_da_tx_size = None, gas_limit_config = None,
     spec = demo_spec jovian, attributes = demo_attrs txs,
     parent = \<lparr> ph_hash = 5, ph_number = 41, ph_state_root = 6, ph_timestamp = 998, ph_gas_limit = 30000000 \<rparr>,
     env = \<lparr> be_number = 42, be_gas_limit = 30000000, be_basefee = 7, be_blob_gasprice = None,
             be_beneficiary = 0, be_difficulty = 0 \<rparr>,
     cancel = (\<lambda>n. False), builder_signer = None, extra_ctx = x, max_gas_per_txn = None,
     feature_interop = False \<rparr>"

definition demo_pool_tx :: "nat \<Rightarrow> u64 \<Rightarrow> b256 list option \<Rightarrow> fb_pooled_tx" where
  "demo_pool_tx n nonce hs =
     \<lparr> fb_inner = \<lparr> pt_consensus = Recovered (demo_tx n nonce) (of_nat n),
                    pt_estimated_da_size = 100, pt_interop_deadline = None, pt_conditional = None \<rparr>,
       reverted_hashes = hs, flashblock_number_min = None, flashblock_number_max = None \<rparr>"

type_synonym pool = "fb_pooled_tx list \<times> address list"

definition demo_state :: "fb_pooled_tx list \<Rightarrow> (nat, pool, unit) exec_state" where
  "demo_state txs = \<lparr> es_info = with_capacity (), es_db = 0, es_iter = (txs, []), es_limiter = None,
     es_cancel_polls = 0, es_counters = zero_counters \<rparr>"

definition demo_limits :: exec_limits where
  "demo_limits = \<lparr> lim_gas = 100000, lim_da = Some 1000, lim_da_footprint = None \<rparr>"

lemmas demo_defs = demo_transact_def demo_tx_def demo_ops_def demo_spec_def demo_attrs_def demo_ctx_def
  demo_pool_tx_def demo_state_def demo_limits_def

lemma demo_gas_law: "evm_gas_law (evm (demo_ctx j txs x)) 30000000"
  by (auto simp: evm_gas_law_def demo_ctx_def demo_ops_def demo_transact_def not_less split: if_splits)

lemma demo_receipt_law: "receipt_law (evm (demo_ctx j txs x))"
  by (auto simp: receipt_law_def demo_ctx_def demo_ops_def split: if_splits)

lemmas exec_simps = execute_best_transactions_def while_next.simps exec_draw_def best_step_def
  best_check_result_def best_include_def over_limits_def is_tx_over_limits_def Let_def skip_sender_def count_def
  exclude_reverting_def snapshot_ops_def fb_tx_defs is_eip4844_def is_deposit_def push_executed_def
  with_capacity_def zero_counters_def block_number_def timestamp_def base_fee_def build_receipt_def
  saturating_add_def

lemma demo_run:
  "\<exists>s'. execute_best_transactions (demo_ctx False [] ()) snapshot_ops demo_limits
     (demo_state [demo_pool_tx 1 0 None, demo_pool_tx 2 7 (Some []), demo_pool_tx 3 7 None]) = Some (Inr None, s') \<and>
     executed_transactions (es_info s') = [demo_tx 1 0, demo_tx 3 7] \<and> cumulative_gas_used (es_info s') = 42000 \<and> es_db s' = 2"
  by (simp add: exec_simps demo_defs)

end
