(* ===== verification/Fb_Block.thy ===== *)
theory Fb_Block
  imports Samples
begin

text \<open>
  \<^verbatim>\<open>build_block\<close> of \<^verbatim>\<open>builders/flashblocks/payload.rs\<close>: from the execution record and the
  database to a sealed block and the flashblock message with the transactions that are new since the last
  one. Roots, blooms, hashes and the bookkeeping of the database (merging and restoring pending
  transitions) are library functions, collected in \<open>block_ops\<close>.
\<close>

section \<open>Model: data\<close>

record fb_execution_info =
  last_flashblock_index :: nat

record header =
  hd_parent_hash :: b256
  hd_beneficiary :: address
  hd_state_root :: b256
  hd_transactions_root :: b256
  hd_receipts_root :: b256
  hd_withdrawals_root :: "b256 option"
  hd_logs_bloom :: "b256 list"
  hd_timestamp :: u64
  hd_mix_hash :: b256
  hd_base_fee_per_gas :: "u64 option"
  hd_number :: u64
  hd_gas_limit :: u64
  hd_gas_used :: u64
  hd_extra_data :: bytes
  hd_parent_beacon_block_root :: "b256 option"
  hd_blob_gas_used :: "u64 option"
  hd_excess_blob_gas :: "u64 option"
  hd_requests_hash :: "b256 option"

record sealed_block =
  sb_hash :: b256
  sb_header :: header
  sb_transactions :: "op_tx list"
  sb_withdrawals :: "withdrawal list option"

record built_payload =
  bp_id :: u64
  bp_block :: sealed_block
  bp_fees :: u256
  bp_senders :: "address list"
  bp_receipts :: "op_receipt list"

record fb_base =
  fbb_parent_beacon_block_root :: b256
  fbb_parent_hash :: b256
  fbb_fee_recipient :: address
  fbb_prev_randao :: b256
  fbb_block_number :: u64
  fbb_gas_limit :: u64
  fbb_timestamp :: u64
  fbb_extra_data :: bytes
  fbb_base_fee_per_gas :: u256

record fb_diff =
  fbd_state_root :: b256
  fbd_receipts_root :: b256
  fbd_logs_bloom :: "b256 list"
  fbd_gas_used :: u64
  fbd_block_hash :: b256
  fbd_transactions :: "bytes list"
  fbd_withdrawals :: "withdrawal list"
  fbd_withdrawals_root :: b256
  fbd_blob_gas_used :: "u64 option"

record fb_metadata =
  fbm_receipts :: "(b256 \<times> op_receipt) list"
  fbm_new_account_balances :: "(address \<times> u256) list"
  fbm_block_number :: u64

record fb_payload =
  fb_payload_id :: u64
  fb_index :: u64
  fb_base :: "fb_base option"
  fb_diff :: fb_diff
  fb_metadata :: fb_metadata

text \<open>The database operations \<open>merge_transitions\<close> and \<open>restore_transitions\<close> (dropping the bundle and
  putting the saved transitions of the first argument back into the second), and the commitments.\<close>

record 'db block_ops =
  merge_transitions :: "'db \<Rightarrow> 'db"
  restore_transitions :: "'db \<Rightarrow> 'db \<Rightarrow> 'db"
  receipts_root_of :: "'db \<Rightarrow> op_receipt list \<Rightarrow> u64 \<Rightarrow> b256 option"
  logs_bloom_of :: "'db \<Rightarrow> op_receipt list \<Rightarrow> u64 \<Rightarrow> b256 list option"
  state_root_with_updates :: "'db \<Rightarrow> string + b256"
  isthmus_withdrawals_root :: "'db \<Rightarrow> string + b256"
  calculate_transaction_root :: "op_tx list \<Rightarrow> b256"
  hash_slow :: "header \<Rightarrow> b256"
  bundle_balances :: "'db \<Rightarrow> (address \<times> u256 option) list"
  empty_requests_hash :: b256
  empty_withdrawals :: b256

section \<open>Model: build block\<close>

definition convert_receipt :: "op_receipt \<Rightarrow> op_receipt" where
  "convert_receipt rc =
     (case rc of
        RLegacy r \<Rightarrow> RLegacy r
      | REip2930 r \<Rightarrow> REip2930 r
      | REip1559 r \<Rightarrow> REip1559 r
      | REip7702 r \<Rightarrow> REip7702 r
      | RDeposit r \<Rightarrow> RDeposit \<lparr> dr_inner = dr_inner r, dr_deposit_nonce = dr_deposit_nonce r,
          dr_deposit_receipt_version = dr_deposit_receipt_version r \<rparr>)"

text \<open>The roots: receipts and bloom of the execution outcome, the state root unless it is disabled, and the
  withdrawals root by upgrade.\<close>

definition block_roots ::
  "'db block_ops \<Rightarrow> ('db, 'st, 'c) op_ctx \<Rightarrow> 'x execution_info \<Rightarrow> bool \<Rightarrow> 'db
   \<Rightarrow> payload_error + b256 \<times> b256 list \<times> b256 \<times> b256 option \<times> b256 option" where
  "block_roots blk ctx info calculate_state_root db =
     and_then (ok_or (OtherError ''receipts and block number not in range'')
                 (receipts_root_of blk db (receipts info) (block_number ctx))) (\<lambda>receipts_root.
     and_then (ok_or (OtherError ''logs bloom and block number not in range'')
                 (logs_bloom_of blk db (receipts info) (block_number ctx))) (\<lambda>logs_bloom.
     and_then (if calculate_state_root then map_err OtherError (state_root_with_updates blk db) else Inr 0) (\<lambda>state_root.
     and_then (if isthmus_at (spec ctx) (at_timestamp (attributes ctx))
               then map_err OtherError (map_sum id Some (isthmus_withdrawals_root blk db))
               else if canyon_at (spec ctx) (at_timestamp (attributes ctx)) then Inr (Some (empty_withdrawals blk))
               else Inr None) (\<lambda>withdrawals_root.
     Inr (receipts_root, logs_bloom, state_root, withdrawals_root,
          if isthmus_at (spec ctx) (at_timestamp (attributes ctx)) then Some (empty_requests_hash blk) else None)))))"

definition block_header ::
  "'db block_ops \<Rightarrow> ('db, 'st, 'c) op_ctx \<Rightarrow> 'x execution_info
   \<Rightarrow> b256 \<times> b256 list \<times> b256 \<times> b256 option \<times> b256 option \<Rightarrow> payload_error + header" where
  "block_header blk ctx info roots =
     (let (receipts_root, logs_bloom, state_root, withdrawals_root, requests_hash) = roots in
      and_then (blob_fields ctx info) (\<lambda>(excess_blob_gas, blob_gas_used).
      and_then (extra_data ctx) (\<lambda>ed. Inr
        \<lparr> hd_parent_hash = ph_hash (parent ctx),
          hd_beneficiary = be_beneficiary (env ctx),
          hd_state_root = state_root,
          hd_transactions_root = calculate_transaction_root blk (executed_transactions info),
          hd_receipts_root = receipts_root,
          hd_withdrawals_root = withdrawals_root,
          hd_logs_bloom = logs_bloom,
          hd_timestamp = at_timestamp (attributes ctx),
          hd_mix_hash = at_prev_randao (attributes ctx),
          hd_base_fee_per_gas = Some (base_fee ctx),
          hd_number = ph_number (parent ctx) + 1,
          hd_gas_limit = block_gas_limit ctx,
          hd_gas_used = cumulative_gas_used info,
          hd_extra_data = ed,
          hd_parent_beacon_block_root = at_parent_beacon_root (attributes ctx),
          hd_blob_gas_used = blob_gas_used,
          hd_excess_blob_gas = excess_blob_gas,
          hd_requests_hash = requests_hash \<rparr>)))"

definition seal_block :: "'db block_ops \<Rightarrow> ('db, 'st, 'c) op_ctx \<Rightarrow> 'x execution_info \<Rightarrow> header \<Rightarrow> sealed_block" where
  "seal_block blk ctx info h =
     \<lparr> sb_hash = hash_slow blk h, sb_header = h, sb_transactions = executed_transactions info,
       sb_withdrawals = withdrawals ctx \<rparr>"

text \<open>The flashblock message: the transactions and receipts after the index, as a difference to the last one.\<close>

definition fb_message ::
  "'db block_ops \<Rightarrow> ('db, 'st, 'c) op_ctx \<Rightarrow> 'x execution_info \<Rightarrow> nat \<Rightarrow> sealed_block \<Rightarrow> 'db
   \<Rightarrow> payload_error + fb_payload" where
  "fb_message blk ctx info last_index block db =
     (let new_transactions = drop last_index (executed_transactions info);
          new_receipts = drop last_index (receipts info);
          receipts_with_hash =
            fold (\<lambda>(tx, rc) m. AList.update (tx_hash tx) (convert_receipt rc) m)
              (zip new_transactions new_receipts) [];
          new_account_balances =
            fold (\<lambda>(a, b) m. case b of None \<Rightarrow> m | Some v \<Rightarrow> AList.update a v m) (bundle_balances blk db) [];
          h = sb_header block in
      and_then (blob_fields ctx info) (\<lambda>(_, blob_gas_used).
      and_then (ok_or (OtherError ''parent beacon block root not found'') (at_parent_beacon_root (attributes ctx)))
        (\<lambda>beacon_root.
      and_then (extra_data ctx) (\<lambda>ed. Inr
        \<lparr> fb_payload_id = at_payload_id (attributes ctx),
          fb_index = 0,
          fb_base = Some
            \<lparr> fbb_parent_beacon_block_root = beacon_root, fbb_parent_hash = ph_hash (parent ctx),
              fbb_fee_recipient = at_fee_recipient (attributes ctx), fbb_prev_randao = at_prev_randao (attributes ctx),
              fbb_block_number = ph_number (parent ctx) + 1, fbb_gas_limit = block_gas_limit ctx,
              fbb_timestamp = at_timestamp (attributes ctx), fbb_extra_data = ed,
              fbb_base_fee_per_gas = ucast (base_fee ctx) \<rparr>,
          fb_diff =
            \<lparr> fbd_state_root = hd_state_root h, fbd_receipts_root = hd_receipts_root h,
              fbd_logs_bloom = hd_logs_bloom h, fbd_gas_used = cumulative_gas_used info,
              fbd_block_hash = sb_hash block, fbd_transactions = map encoded_2718 new_transactions,
              fbd_withdrawals = unwrap_or [] (withdrawals ctx),
              fbd_withdrawals_root = unwrap_or 0 (hd_withdrawals_root h),
              fbd_blob_gas_used = blob_gas_used \<rparr>,
          fb_metadata =
            \<lparr> fbm_receipts = receipts_with_hash, fbm_new_account_balances = new_account_balances,
              fbm_block_number = ph_number (parent ctx) + 1 \<rparr> \<rparr>))))"

text \<open>An error leaves the transitions merged; an error of the message also leaves the index moved on.\<close>

definition build_block ::
  "'db block_ops \<Rightarrow> ('db, 'st, 'c) op_ctx \<Rightarrow> bool \<Rightarrow> ('db, fb_execution_info) seq_state
   \<Rightarrow> (payload_error + built_payload \<times> fb_payload) \<times> ('db, fb_execution_info) seq_state" where
  "build_block blk ctx calculate_state_root s =
     (let info = ss_info s;
          merged = merge_transitions blk (ss_db s);
          s1 = s \<lparr> ss_db := merged \<rparr>;
          idx = last_flashblock_index (extra info) in
      if block_number ctx \<noteq> ph_number (parent ctx) + 1
      then (Inl (OtherError ''build context block number mismatch''), s1)
      else case and_then (block_roots blk ctx info calculate_state_root merged) (block_header blk ctx info) of
        Inl e \<Rightarrow> (Inl e, s1)
      | Inr h \<Rightarrow>
          let block = seal_block blk ctx info h in
          if length (executed_transactions info) < idx \<or> length (receipts info) < idx
          then (Inl (Panic ''range start index out of range''), s1)
          else
            let info' = info \<lparr> extra := (extra info) \<lparr> last_flashblock_index := length (executed_transactions info) \<rparr> \<rparr> in
            case fb_message blk ctx info' idx block merged of
              Inl e \<Rightarrow> (Inl e, s1 \<lparr> ss_info := info' \<rparr>)
            | Inr message \<Rightarrow>
                (Inr (\<lparr> bp_id = at_payload_id (attributes ctx), bp_block = block, bp_fees = total_fees info,
                        bp_senders = executed_senders info, bp_receipts = receipts info \<rparr>, message),
                 \<lparr> ss_info = info', ss_db = restore_transitions blk (ss_db s) merged \<rparr>))"

section \<open>Lemmas\<close>

text \<open>Restoring the transitions undoes merging them.\<close>

definition restore_law :: "'db block_ops \<Rightarrow> bool" where
  "restore_law blk \<longleftrightarrow> (\<forall>db. restore_transitions blk db (merge_transitions blk db) = db)"

lemma build_block_ok:
  assumes "build_block blk ctx calc s = (Inr (p, m), s')"
  shows "ss_info s' = (ss_info s) \<lparr> extra := (extra (ss_info s))
      \<lparr> last_flashblock_index := length (executed_transactions (ss_info s)) \<rparr> \<rparr>"
    and "restore_law blk \<Longrightarrow> ss_db s' = ss_db s"
    and "last_flashblock_index (extra (ss_info s)) \<le> length (executed_transactions (ss_info s))"
    and "sb_transactions (bp_block p) = executed_transactions (ss_info s)"
    and "bp_senders p = executed_senders (ss_info s)" and "bp_receipts p = receipts (ss_info s)"
    and "hd_gas_used (sb_header (bp_block p)) = cumulative_gas_used (ss_info s)"
    and "hd_number (sb_header (bp_block p)) = ph_number (parent ctx) + 1"
    and "sb_hash (bp_block p) = hash_slow blk (sb_header (bp_block p))"
    and "fbd_transactions (fb_diff m) =
      map encoded_2718 (drop (last_flashblock_index (extra (ss_info s))) (executed_transactions (ss_info s)))"
    and "fbd_block_hash (fb_diff m) = sb_hash (bp_block p)"
    and "fbd_gas_used (fb_diff m) = cumulative_gas_used (ss_info s)"
    and "fb_index m = 0" and "fb_base m \<noteq> None"
  using assms
  by (auto simp: build_block_def fb_message_def seal_block_def block_header_def restore_law_def Let_def
      and_then_eq_Inr split: sum.splits if_splits prod.splits)

end
