(* ===== verification/Tx_Signer.thy ===== *)
theory Tx_Signer
  imports Evm_Env
begin

text \<open>
  \<^verbatim>\<open>tx_signer.rs\<close>: the key the builder signs transactions and messages with. Elliptic curve
  arithmetic, hashing and the encoding of transactions are library functions, collected in \<open>signer_ops\<close>.
\<close>

section \<open>Model\<close>

text \<open>The fields of a transaction before it is signed.\<close>

record tx_fields =
  x_chain_id :: u64
  x_nonce :: u64
  x_gas_limit :: u64
  x_max_fee_per_gas :: u128
  x_max_priority_fee_per_gas :: u128
  x_to :: address
  x_input :: bytes

datatype op_typed_tx =
    TypedLegacy tx_fields | TypedEip2930 tx_fields | TypedEip1559 tx_fields | TypedEip7702 tx_fields
  | TypedDeposit tx_fields

record signature =
  sig_r :: u256
  sig_s :: u256
  sig_y_parity :: bool

record signer =
  sn_address :: address
  sn_pubkey :: bytes
  sn_secret :: b256

text \<open>A public key is given by its uncompressed form of 65 bytes. Signing returns a recovery id and 64 bytes.\<close>

record signer_ops =
  secret_key_from_slice :: "b256 \<Rightarrow> string + b256"
  public_key_of :: "b256 \<Rightarrow> bytes"
  keccak_256 :: "bytes \<Rightarrow> b256"
  sha_256 :: "bytes \<Rightarrow> b256"
  sign_ecdsa_recoverable :: "b256 \<Rightarrow> b256 \<Rightarrow> nat \<times> bytes"
  signature_hash_of :: "op_typed_tx \<Rightarrow> b256"
  new_signed :: "op_typed_tx \<Rightarrow> signature \<Rightarrow> op_tx"
  b256_from_str :: "string \<Rightarrow> string + b256"

text \<open>The last 20 bytes of the hash of the key without its prefix byte.\<close>

definition public_key_to_address :: "signer_ops \<Rightarrow> bytes \<Rightarrow> address" where
  "public_key_to_address so pubkey = ucast (keccak_256 so (take 64 (drop 1 pubkey)))"

definition try_from_secret :: "signer_ops \<Rightarrow> b256 \<Rightarrow> string + signer" where
  "try_from_secret so secret =
     and_then (secret_key_from_slice so secret) (\<lambda>sk.
       let pubkey = public_key_of so sk in
       Inr \<lparr> sn_address = public_key_to_address so pubkey, sn_pubkey = pubkey, sn_secret = sk \<rparr>)"

definition sign_message :: "signer_ops \<Rightarrow> signer \<Rightarrow> b256 \<Rightarrow> string + signature" where
  "sign_message so sn message =
     (let (rec_id, data) = sign_ecdsa_recoverable so message (sn_secret sn) in
      Inr \<lparr> sig_r = from_be_bytes (take 32 data), sig_s = from_be_bytes (take 32 (drop 32 data)),
            sig_y_parity = (rec_id \<noteq> 0) \<rparr>)"

definition signature_hash :: "signer_ops \<Rightarrow> op_typed_tx \<Rightarrow> b256" where
  "signature_hash so tx = (case tx of TypedDeposit f \<Rightarrow> 0 | _ \<Rightarrow> signature_hash_of so tx)"

definition signer_sign_tx :: "signer_ops \<Rightarrow> signer \<Rightarrow> op_typed_tx \<Rightarrow> string + recovered" where
  "signer_sign_tx so sn tx =
     and_then (sign_message so sn (signature_hash so tx)) (\<lambda>sig.
       Inr (Recovered (new_signed so tx sig) (sn_address sn)))"

definition signer_from_str :: "signer_ops \<Rightarrow> string \<Rightarrow> string + signer" where
  "signer_from_str so str =
     and_then (b256_from_str so str) (\<lambda>secret.
       map_err (\<lambda>e. ''invalid secret key '' @ e) (try_from_secret so secret))"

text \<open>A key from the system's randomness, and one from a seed for tests, whose digest must be a valid key.\<close>

definition generate_signer :: "signer_ops \<Rightarrow> b256 \<Rightarrow> signer" where
  "generate_signer so private_key =
     (let pubkey = public_key_of so private_key in
      \<lparr> sn_address = public_key_to_address so pubkey, sn_pubkey = pubkey, sn_secret = private_key \<rparr>)"

definition generate_key_from_seed :: "signer_ops \<Rightarrow> bytes \<Rightarrow> string + signer" where
  "generate_key_from_seed so seed =
     and_then (secret_key_from_slice so (sha_256 so seed)) (\<lambda>sk. Inr (generate_signer so sk))"

section \<open>Signing\<close>

text \<open>A signer whose address and public key belong to its secret; every way to make one gives such a signer.\<close>

definition valid_signer :: "signer_ops \<Rightarrow> signer \<Rightarrow> bool" where
  "valid_signer so sn \<longleftrightarrow>
     sn_pubkey sn = public_key_of so (sn_secret sn) \<and> sn_address sn = public_key_to_address so (sn_pubkey sn)"

lemma valid_signers:
  "try_from_secret so secret = Inr sn \<Longrightarrow> valid_signer so sn"
  "signer_from_str so str = Inr sn \<Longrightarrow> valid_signer so sn"
  "valid_signer so (generate_signer so sk)"
  "generate_key_from_seed so seed = Inr sn \<Longrightarrow> valid_signer so sn"
  by (auto simp: valid_signer_def try_from_secret_def signer_from_str_def generate_signer_def
      generate_key_from_seed_def Let_def and_then_eq_Inr)

text \<open>What is used of the curve library: a signature with recovery id 0 or 1 determines the public key, the id being
  the parity of the y coordinate.\<close>

definition ecdsa_law :: "signer_ops \<Rightarrow> (b256 \<Rightarrow> signature \<Rightarrow> bytes option) \<Rightarrow> bool" where
  "ecdsa_law so recover \<longleftrightarrow>
     (\<forall>msg sk rid data. sign_ecdsa_recoverable so msg sk = (rid, data) \<and> rid < 2 \<longrightarrow>
        recover msg \<lparr> sig_r = from_be_bytes (take 32 data), sig_s = from_be_bytes (take 32 (drop 32 data)),
                       sig_y_parity = odd rid \<rparr> = Some (public_key_of so sk))"

lemma sign_message_recovers:
  assumes "ecdsa_law so recover" "valid_signer so sn" "sign_message so sn msg = Inr sig"
    and "fst (sign_ecdsa_recoverable so msg (sn_secret sn)) < 2"
  shows "recover msg sig = Some (sn_pubkey sn)"
proof -
  obtain rid data where sd: "sign_ecdsa_recoverable so msg (sn_secret sn) = (rid, data)" by fastforce
  then have "rid < 2" using assms(4) by simp
  then have "(rid \<noteq> 0) = odd rid" by (auto simp: less_2_cases_iff)
  then have "sig = \<lparr> sig_r = from_be_bytes (take 32 data), sig_s = from_be_bytes (take 32 (drop 32 data)), sig_y_parity = odd rid \<rparr>"
    using assms(3) sd by (auto simp: sign_message_def)
  then show ?thesis
    using assms(1,2) sd \<open>rid < 2\<close> by (simp add: ecdsa_law_def valid_signer_def)
qed

text \<open>A signed transaction names its sender truthfully: the signature over its hash recovers a key whose address it is.\<close>

lemma signed_tx_recovers:
  assumes "ecdsa_law so recover" "valid_signer so sn" "signer_sign_tx so sn tx = Inr r"
    and "fst (sign_ecdsa_recoverable so (signature_hash so tx) (sn_secret sn)) < 2"
  shows "\<exists>sig pk. inner_tx r = new_signed so tx sig \<and> recover (signature_hash so tx) sig = Some pk \<and>
    signer r = public_key_to_address so pk"
proof -
  obtain sig where "sign_message so sn (signature_hash so tx) = Inr sig" "r = Recovered (new_signed so tx sig) (sn_address sn)"
    using assms(3) by (auto simp: signer_sign_tx_def and_then_eq_Inr)
  then show ?thesis
    using sign_message_recovers [OF assms(1,2) _ assms(4)] assms(2) by (auto simp: valid_signer_def)
qed

lemma signer_sign_tx_ok:
  "\<exists>sig. signer_sign_tx so sn tx = Inr (Recovered (new_signed so tx sig) (sn_address sn))"
  by (auto simp: signer_sign_tx_def sign_message_def case_prod_unfold Let_def)

end
