(* ===== verification/Builder_Tx.thy ===== *)
theory Builder_Tx
  imports Samples Tx_Signer
begin

text \<open>
  \<^verbatim>\<open>builders/builder_tx.rs\<close>: the transactions the builder itself puts at the top or the bottom of a
  block. How they are simulated is the business of the implementations of the trait, so
  \<open>add_builder_txs\<close> takes the simulation as an argument; the signing library, database reads, contract calls
  and ABI decoding are the record \<open>builder_ops\<close>.
\<close>

section \<open>Model: data\<close>

record builder_tx_ctx =
  bt_gas_used :: u64
  bt_da_size :: u64
  bt_signed_tx :: recovered
  bt_is_top_of_block :: bool

definition set_top_of_block :: "builder_tx_ctx \<Rightarrow> builder_tx_ctx" where
  "set_top_of_block c = c \<lparr> bt_is_top_of_block := True \<rparr>"

definition set_bottom_of_block :: "builder_tx_ctx \<Rightarrow> builder_tx_ctx" where
  "set_bottom_of_block c = c \<lparr> bt_is_top_of_block := False \<rparr>"

datatype invalid_contract_data_error = InvalidLogs "b256 list" "b256 list" | OutputAbiDecodeError

datatype builder_tx_error =
    BtAccountLoadFailed address
  | SigningError string
  | InvalidContract address invalid_contract_data_error
  | TransactionHalted address halt_reason
  | BtTransactionReverted address string
  | InvalidTransactionError evm_err
  | BtEvmExecutionError evm_err
  | BtOther string

fun payload_error_of :: "builder_tx_error \<Rightarrow> payload_error" where
  "payload_error_of (BtEvmExecutionError e) = EvmExecutionError e"
| "payload_error_of e = OtherError ''builder transaction''"

record call_request =
  cr_from :: address
  cr_to :: "address option"
  cr_nonce :: u64
  cr_gas_limit :: u64
  cr_max_fee_per_gas :: u128
  cr_input :: bytes

text \<open>The checks of the EVM that a simulation switches off.\<close>

record evm_cfg =
  disable_balance_check :: bool
  disable_nonce_check :: bool
  disable_block_gas_limit :: bool

record ('db, 'st) builder_ops =
  signing :: signer_ops
  basic_ref :: "'db \<Rightarrow> address \<Rightarrow> unit + account_info option"
  call_tx_env :: "call_request \<Rightarrow> string + call_request"
  call_transact :: "evm_cfg \<Rightarrow> 'db \<Rightarrow> call_request \<Rightarrow> evm_err + exec_result \<times> 'st"
  revert_reason :: "bytes \<Rightarrow> string option"

section \<open>Model: reading accounts and signing\<close>

definition get_nonce :: "('db, 'st) builder_ops \<Rightarrow> 'db \<Rightarrow> address \<Rightarrow> builder_tx_error + u64" where
  "get_nonce bops db a =
     (case basic_ref bops db a of
        Inl _ \<Rightarrow> Inl (BtAccountLoadFailed a)
      | Inr acc \<Rightarrow> Inr (case acc of None \<Rightarrow> 0 | Some info \<Rightarrow> ai_nonce info))"

definition get_balance :: "('db, 'st) builder_ops \<Rightarrow> 'db \<Rightarrow> address \<Rightarrow> builder_tx_error + u256" where
  "get_balance bops db a =
     (case basic_ref bops db a of
        Inl _ \<Rightarrow> Inl (BtAccountLoadFailed a)
      | Inr acc \<Rightarrow> Inr (case acc of None \<Rightarrow> 0 | Some info \<Rightarrow> ai_balance info))"

definition sign_tx ::
  "('db, 'st) builder_ops \<Rightarrow> address \<Rightarrow> signer \<Rightarrow> u64 \<Rightarrow> bytes \<Rightarrow> ('db, 'st, 'c) op_ctx \<Rightarrow> 'db
   \<Rightarrow> builder_tx_error + recovered" where
  "sign_tx bops to from gas calldata ctx db =
     and_then (get_nonce bops db (sn_address from)) (\<lambda>nonce.
       map_err SigningError (signer_sign_tx (signing bops) from (TypedEip1559
         \<lparr> x_chain_id = chain_id ctx, x_nonce = nonce, x_gas_limit = gas * 64 div 63,
           x_max_fee_per_gas = ucast (base_fee ctx), x_max_priority_fee_per_gas = 0, x_to = to,
           x_input = calldata \<rparr>)))"

definition estimate_builder_tx_gas :: "bytes \<Rightarrow> u64" where
  "estimate_builder_tx_gas input =
     (let (zero_bytes, nonzero_bytes) =
            fold (\<lambda>byte (zeros, nonzeros). if byte = 0 then (zeros + 1, nonzeros) else (zeros, nonzeros + 1))
              input (0, 0);
          zero_cost = zero_bytes * 4;
          nonzero_cost = nonzero_bytes * 16;
          tokens_in_calldata = zero_bytes + nonzero_bytes * 4;
          floor_gas = 21000 + tokens_in_calldata * 10 in
      max (zero_cost + nonzero_cost + 21000) floor_gas)"

definition signed_builder_tx ::
  "('db, 'st) builder_ops \<Rightarrow> ('db, 'st, 'c) op_ctx \<Rightarrow> 'db \<Rightarrow> signer \<Rightarrow> u64 \<Rightarrow> bytes
   \<Rightarrow> builder_tx_error + recovered" where
  "signed_builder_tx bops ctx db from gas message =
     and_then (get_nonce bops db (sn_address from)) (\<lambda>nonce.
       map_err SigningError (signer_sign_tx (signing bops) from (TypedEip1559
         \<lparr> x_chain_id = chain_id ctx, x_nonce = nonce, x_gas_limit = gas,
           x_max_fee_per_gas = ucast (base_fee ctx), x_max_priority_fee_per_gas = 0, x_to = 0,
           x_input = message \<rparr>)))"

definition block_number_message :: "('db, 'st, 'c) op_ctx \<Rightarrow> bytes" where
  "block_number_message ctx = map of_char (''Block Number: '' @ dec_digits (unat (block_number ctx)))"

definition simulate_builder_tx ::
  "('db, 'st) builder_ops \<Rightarrow> signer option \<Rightarrow> ('db, 'st, 'c) op_ctx \<Rightarrow> 'db
   \<Rightarrow> builder_tx_error + builder_tx_ctx option" where
  "simulate_builder_tx bops base_signer ctx db =
     (case base_signer of
        None \<Rightarrow> Inr None
      | Some from \<Rightarrow>
          let message = block_number_message ctx;
              gas = estimate_builder_tx_gas message in
          and_then (signed_builder_tx bops ctx db from gas message) (\<lambda>signed_tx.
            Inr (Some \<lparr> bt_gas_used = gas,
                        bt_da_size = tx_estimated_size_fjord_bytes (evm ctx) (encoded_2718 (inner_tx signed_tx)),
                        bt_signed_tx = signed_tx, bt_is_top_of_block = False \<rparr>)))"

section \<open>Model: contract calls\<close>

record ('o, 'st) simulation_success =
  sim_gas_used :: u64
  sim_output :: 'o
  sim_state_changes :: 'st

definition simulate_call ::
  "('db, 'st) builder_ops \<Rightarrow> evm_cfg \<Rightarrow> (bytes \<Rightarrow> 'o option) \<Rightarrow> call_request \<Rightarrow> b256 list \<Rightarrow> 'db
   \<Rightarrow> builder_tx_error + ('o, 'st) simulation_success" where
  "simulate_call bops cfg abi_decode_returns req expected_logs db =
     (case call_tx_env bops req of
        Inl e \<Rightarrow> Inl (BtEvmExecutionError (EvmFatal e))
      | Inr tx_env \<Rightarrow>
          let to = unwrap_or 0 (cr_to tx_env) in
          (case call_transact bops cfg db tx_env of
             Inl (InvalidTx low msg) \<Rightarrow> Inl (InvalidTransactionError (InvalidTx low msg))
           | Inl (EvmFatal msg) \<Rightarrow> Inl (BtEvmExecutionError (EvmFatal msg))
           | Inr (Success gas logs out, state) \<Rightarrow>
               let topics = concat (map log_topics logs) in
               if \<not> list_all (List.member topics) expected_logs
               then Inl (InvalidContract to (InvalidLogs expected_logs (remdups topics)))
               else (case abi_decode_returns out of
                       None \<Rightarrow> Inl (InvalidContract to OutputAbiDecodeError)
                     | Some v \<Rightarrow> Inr \<lparr> sim_gas_used = gas, sim_output = v, sim_state_changes = state \<rparr>)
           | Inr (Revert gas out, state) \<Rightarrow>
               Inl (BtTransactionReverted to (unwrap_or (''unknown revert: '' @ hex_encode out) (revert_reason bops out)))
           | Inr (Halt gas reason, state) \<Rightarrow> Inl (TransactionHalted to reason)))"

section \<open>Model: adding builder transactions\<close>

record ('db, 'x) builder_state = "('db, 'x) seq_state" +
  bs_invalid :: "address list"

type_synonym ('db, 'st, 'c, 'x) simulate_builder_txs =
  "'x execution_info \<Rightarrow> ('db, 'st, 'c) op_ctx \<Rightarrow> 'db \<Rightarrow> bool
   \<Rightarrow> (builder_tx_error + builder_tx_ctx list) \<times> 'x execution_info"

definition builder_step ::
  "('db, 'st, 'c) op_ctx \<Rightarrow> bool \<Rightarrow> ('db, 'x) builder_state \<Rightarrow> builder_tx_ctx
   \<Rightarrow> builder_tx_error flow \<times> ('db, 'x) builder_state" where
  "builder_step ctx top_of_block s btx =
     (let tx = bt_signed_tx btx;
          invalidate = s \<lparr> bs_invalid := signer tx # bs_invalid s \<rparr> in
      if bt_is_top_of_block btx \<noteq> top_of_block then (Continue, s)
      else if List.member (bs_invalid s) (signer tx) then (Continue, s)
      else
        (case transact (evm ctx) (ss_db s) tx of
           Inl (InvalidTx nonce_too_low msg) \<Rightarrow> if nonce_too_low then (Continue, s) else (Continue, invalidate)
         | Inl (EvmFatal msg) \<Rightarrow> (Return (BtEvmExecutionError (EvmFatal msg)), s)
         | Inr (result, state) \<Rightarrow>
             if \<not> is_success result then (Continue, invalidate)
             else
               (Continue,
                s \<lparr> ss_info := push_executed (ss_info s) tx (gas_used result) (bt_da_size btx)
                                (build_receipt ctx (inner_tx tx) result None),
                    ss_db := commit (evm ctx) (ss_db s) state \<rparr>)))"

text \<open>The simulation works on a copy of the database; the database itself is only changed by the loop.
  What the loop did before an error stays done.\<close>

definition add_builder_txs ::
  "('db, 'st, 'c, 'x) simulate_builder_txs \<Rightarrow> ('db, 'st, 'c) op_ctx \<Rightarrow> bool \<Rightarrow> ('db, 'x) seq_state
   \<Rightarrow> (builder_tx_error + builder_tx_ctx list) \<times> ('db, 'x) seq_state" where
  "add_builder_txs simulate ctx top_of_block s =
     (case simulate (ss_info s) ctx (ss_db s) top_of_block of
        (Inl e, info) \<Rightarrow> (Inl e, s \<lparr> ss_info := info \<rparr>)
      | (Inr builder_txs, info) \<Rightarrow>
          (case for_in (builder_step ctx top_of_block) builder_txs
                  \<lparr> ss_info = info, ss_db = ss_db s, bs_invalid = [] \<rparr> of
             (Return e, t) \<Rightarrow> (Inl e, \<lparr> ss_info = ss_info t, ss_db = ss_db t \<rparr>)
           | (Continue, t) \<Rightarrow> (Inr builder_txs, \<lparr> ss_info = ss_info t, ss_db = ss_db t \<rparr>)))"

text \<open>Committing transactions to a simulation state.\<close>

definition commit_step :: "('db, 'st, 'c) op_ctx \<Rightarrow> 'db \<Rightarrow> recovered \<Rightarrow> builder_tx_error flow \<times> 'db" where
  "commit_step ctx db tx =
     (case transact (evm ctx) db tx of
        Inl e \<Rightarrow> (Return (BtEvmExecutionError e), db)
      | Inr (result, state) \<Rightarrow> (Continue, commit (evm ctx) db state))"

definition commit_txs :: "('db, 'st, 'c) op_ctx \<Rightarrow> recovered list \<Rightarrow> 'db \<Rightarrow> (builder_tx_error + unit) \<times> 'db" where
  "commit_txs ctx txs db =
     (case for_in (commit_step ctx) txs db of
        (Continue, db') \<Rightarrow> (Inr (), db')
      | (Return e, db') \<Rightarrow> (Inl e, db'))"

section \<open>Builder transactions are included like others\<close>

definition builder_guard :: "builder_tx_ctx list \<Rightarrow> bool \<Rightarrow> 'x execution_info \<Rightarrow> recovered \<Rightarrow> exec_result \<Rightarrow> u64 \<Rightarrow> bool" where
  "builder_guard btxs atop info tx r da \<longleftrightarrow>
     is_success r \<and> (\<exists>btx \<in> set btxs. bt_is_top_of_block btx = atop \<and> bt_signed_tx btx = tx \<and> bt_da_size btx = da)"

lemma builder_step_includes:
  assumes "btx \<in> set btxs"
  shows "seq_includes ctx (builder_guard btxs atop) s (snd (builder_step ctx atop s btx))"
proof -
  let ?tx = "bt_signed_tx btx"
  have push: "\<exists>es. included ctx (builder_guard btxs atop) (ss_info s, ss_db s) es
      (push_executed (ss_info s) ?tx (gas_used r) (bt_da_size btx) (build_receipt ctx (inner_tx ?tx) r None),
       commit (evm ctx) (ss_db s) st)"
    if "transact (evm ctx) (ss_db s) ?tx = Inr (r, st)" "is_success r" "bt_is_top_of_block btx = atop" for r st
    using included_push [of ctx "ss_db s" ?tx r st "builder_guard btxs atop" "ss_info s" "bt_da_size btx" None "inner_tx ?tx"]
      that assms by (auto simp: builder_guard_def)
  show ?thesis
  proof (cases "bt_is_top_of_block btx = atop \<and> \<not> List.member (bs_invalid s) (signer ?tx)")
    case True
    then show ?thesis
      using push by (auto simp: builder_step_def Let_def seq_includes_def intro: included.none
          split: sum.splits evm_err.splits)
  next
    case False
    then have "snd (builder_step ctx atop s btx) = s" by (auto simp: builder_step_def Let_def)
    then show ?thesis by (simp add: seq_includes_refl)
  qed
qed

interpretation builder_loop: loop_body "builder_step ctx atop" "\<lambda>btx. btx \<in> set btxs" "\<lambda>s. True"
  "seq_includes ctx (builder_guard btxs atop)" for ctx atop btxs
  by unfold_locales (auto intro: seq_includes_refl seq_includes_trans builder_step_includes)

text \<open>Adding builder transactions includes successful ones of the simulated list, from the record the
  simulation left.\<close>

lemma add_builder_includes:
  assumes "simulate (ss_info s) ctx (ss_db s) atop = (Inr btxs, info)"
  shows "\<exists>es. included ctx (builder_guard btxs atop) (info, ss_db s) es
    (ss_info (snd (add_builder_txs simulate ctx atop s)), ss_db (snd (add_builder_txs simulate ctx atop s)))"
proof -
  let ?s = "\<lparr> ss_info = info, ss_db = ss_db s, bs_invalid = [] \<rparr>"
  have "seq_includes ctx (builder_guard btxs atop) ?s (snd (for_in (builder_step ctx atop) btxs ?s))"
    using builder_loop.for_in_keeps [where s = ?s and xs = btxs and btxs = btxs and ctx = ctx and atop = atop] by simp
  then show ?thesis
    using assms by (auto simp: add_builder_txs_def seq_includes_def split: prod.splits flow.splits)
qed

lemma builder_guard_ok:
  "builder_guard btxs atop info tx res da \<Longrightarrow>
     is_success res \<and> (\<exists>btx \<in> set btxs. bt_is_top_of_block btx = atop \<and> bt_signed_tx btx = tx)"
  by (auto simp: builder_guard_def)

section \<open>Properties\<close>

text \<open>C19: However adding builder transactions ends, the block grew only by simulated builder transactions meant for
  that position, each of which succeeded; and replaying them on the database gives the database it ended
  with. A builder transaction that would revert is never included.\<close>

theorem builder_txs_succeed:
  assumes "simulate (ss_info s) ctx (ss_db s) atop = (Inr btxs, ss_info s)"
    and "add_builder_txs simulate ctx atop s = (r, s')"
  shows "\<exists>es. executed_transactions (ss_info s') = executed_transactions (ss_info s) @ map (inner_tx \<circ> fst) es \<and>
    replay (evm ctx) (ss_db s) (map fst es) = Some (ss_db s', map snd es) \<and>
    (\<forall>(tx, res) \<in> set es. is_success res \<and> (\<exists>btx \<in> set btxs. bt_is_top_of_block btx = atop \<and> bt_signed_tx btx = tx))"
proof -
  obtain es where es: "included ctx (builder_guard btxs atop) (ss_info s, ss_db s) es (ss_info s', ss_db s')"
    using add_builder_includes [of simulate s ctx atop btxs "ss_info s"] assms by auto
  from included_all [OF es builder_guard_ok] show ?thesis
    using included_lists(1) [OF es] included_replay [OF es] by (intro exI [of _ es]) simp
qed

definition demo_btx :: "nat \<Rightarrow> u64 \<Rightarrow> bool \<Rightarrow> builder_tx_ctx" where
  "demo_btx n nonce atop = \<lparr> bt_gas_used = 21000, bt_da_size = 100,
     bt_signed_tx = Recovered (demo_tx n nonce) (of_nat n), bt_is_top_of_block = atop \<rparr>"

theorem builder_txs_succeed_witness:
  "\<exists>r s' es. add_builder_txs (\<lambda>info ctx db atop. (Inr [demo_btx 1 0 True, demo_btx 2 7 True, demo_btx 3 0 False], info))
       (demo_ctx False [] ()) True \<lparr> ss_info = with_capacity (), ss_db = 0 \<rparr> = (r, s') \<and>
     executed_transactions (ss_info s') = map (inner_tx \<circ> fst) es \<and> (\<forall>(tx, res) \<in> set es. is_success res)"
proof -
  let ?sim = "\<lambda>info ctx db atop. (Inr [demo_btx 1 0 True, demo_btx 2 7 True, demo_btx 3 0 False], info)"
  let ?s = "\<lparr> ss_info = with_capacity (), ss_db = 0 :: nat \<rparr>"
  obtain r s' where run: "add_builder_txs ?sim (demo_ctx False [] ()) True ?s = (r, s')" by fastforce
  have sim: "?sim (ss_info ?s) (demo_ctx False [] ()) (ss_db ?s) True =
      (Inr [demo_btx 1 0 True, demo_btx 2 7 True, demo_btx 3 0 False], ss_info ?s)" by simp
  obtain es where "executed_transactions (ss_info s') = executed_transactions (ss_info ?s) @ map (inner_tx \<circ> fst) es"
    "\<forall>(tx, res) \<in> set es. is_success res"
    using builder_txs_succeed [of ?sim ?s "demo_ctx False [] ()" True, OF sim run]
    by (elim exE conjE) (rule that, assumption, auto)
  then show ?thesis using run by (intro exI [of _ r] exI [of _ s'] exI [of _ es]) (simp add: with_capacity_def)
qed

lemma count_bytes:
  "fold (\<lambda>byte (zeros, nonzeros). if byte = 0 then (zeros + 1, nonzeros) else (zeros, nonzeros + 1)) input (z, n) =
     (z + of_nat (length (filter (\<lambda>b. b = 0) input)), (n :: u64) + of_nat (length (filter (\<lambda>b. b \<noteq> 0) input)))"
  by (induction input arbitrary: z n) (simp_all add: algebra_simps)

lemma unat_of_nat_small: "n < 2 ^ 64 \<Longrightarrow> unat (of_nat n :: u64) = n"
  by (simp add: unat_of_nat)

text \<open>The gas estimate of the end-of-block transaction is the floor cost of EIP-7623: 21000 plus 10 per token, a zero
  byte being one token and any other byte four. The standard cost (4 and 16 per byte) is never above it, and
  the estimate does not overflow for any input a block could hold.\<close>

lemma estimate_builder_tx_gas_floor:
  assumes "length input < 2 ^ 58"
  shows "unat (estimate_builder_tx_gas input) =
    21000 + 10 * (length (filter (\<lambda>b. b = 0) input) + 4 * length (filter (\<lambda>b. b \<noteq> 0) input))"
proof -
  let ?z = "length (filter (\<lambda>b. b = 0) input)" and ?n = "length (filter (\<lambda>b. b \<noteq> 0) input)"
  have sum: "?z + ?n = length input" by (rule sum_length_filter_compl)
  have eq: "estimate_builder_tx_gas input =
      max (of_nat (?z * 4 + ?n * 16 + 21000)) (of_nat (21000 + (?z + ?n * 4) * 10))"
    by (simp add: estimate_builder_tx_gas_def count_bytes Let_def)
  have "length input < 288230376151711744" using assms by simp
  moreover have "?z * 4 + ?n * 16 \<le> 16 * length input" "(?z + ?n * 4) * 10 \<le> 40 * length input"
    unfolding sum [symmetric] by (simp_all add: algebra_simps)
  ultimately have "?z * 4 + ?n * 16 + 21000 < 18446744073709551616" "21000 + (?z + ?n * 4) * 10 < 18446744073709551616"
    by linarith+
  then have "?z * 4 + ?n * 16 + 21000 < 2 ^ 64" "21000 + (?z + ?n * 4) * 10 < 2 ^ 64" by simp_all
  note small = this [THEN unat_of_nat_small]
  have le: "?z * 4 + ?n * 16 + 21000 \<le> 21000 + (?z + ?n * 4) * 10" by simp
  have "estimate_builder_tx_gas input = of_nat (21000 + (?z + ?n * 4) * 10)"
    unfolding eq max_def word_le_nat_alt small by (simp only: le if_True)
  then have "unat (estimate_builder_tx_gas input) = 21000 + (?z + ?n * 4) * 10" by (simp only: small)
  then show ?thesis by (simp only: mult.commute)
qed

lemma eip150_buffer: "(g :: nat) \<le> (g * 64 div 63) - (g * 64 div 63) div 64"
proof -
  have "g * 64 = g + g * 63" by simp
  then have l: "g * 64 div 63 = g + g div 63" by (simp only: div_mult_self1 add.commute)
  have "g < 63 * Suc (g div 63)" by (metis dividend_less_times_div zero_less_numeral mult_Suc_right add.commute)
  then have "(g + g div 63) div 64 < Suc (g div 63)"
    by (subst div_less_iff_less_mult) simp_all
  then show ?thesis using l by linarith
qed

text \<open>What is used of the transaction library: signing keeps the fields.\<close>

definition signed_fields_law :: "signer_ops \<Rightarrow> bool" where
  "signed_fields_law so \<longleftrightarrow>
     (\<forall>f sig. let tx = new_signed so (TypedEip1559 f) sig in
        tx_gas_limit tx = x_gas_limit f \<and> tx_nonce tx = x_nonce f \<and> tx_ty tx = Eip1559)"

lemma signed_fields:
  assumes "signed_fields_law so" "signer_sign_tx so sn (TypedEip1559 f) = Inr tx"
  shows "tx_gas_limit (inner_tx tx) = x_gas_limit f" "tx_nonce (inner_tx tx) = x_nonce f" "signer tx = sn_address sn"
    "tx_ty (inner_tx tx) = Eip1559"
  using assms signer_sign_tx_ok [of so sn "TypedEip1559 f"] by (auto simp: signed_fields_law_def Let_def)

lemma sign_tx_total:
  assumes "get_nonce bops db (sn_address from) = Inr n"
  obtains tx where "sign_tx bops to from gas calldata ctx db = Inr tx"
proof -
  let ?f = "\<lparr> x_chain_id = chain_id ctx, x_nonce = n, x_gas_limit = gas * 64 div 63,
    x_max_fee_per_gas = ucast (base_fee ctx), x_max_priority_fee_per_gas = 0, x_to = to, x_input = calldata \<rparr>"
  obtain sig where "signer_sign_tx (signing bops) from (TypedEip1559 ?f) =
      Inr (Recovered (new_signed (signing bops) (TypedEip1559 ?f) sig) (sn_address from))"
    using signer_sign_tx_ok by blast
  then show ?thesis using assms by (intro that) (simp add: sign_tx_def)
qed

text \<open>The gas limit put on a signed contract call leaves enough for the call it was simulated with: after keeping
  back one 64th, as EIP-150 demands of a call, at least the simulated gas remains. The nonce is that of the
  signing account.\<close>

theorem sign_tx_gas_buffer:
  assumes "unat gas * 64 < 2 ^ 64" and "signed_fields_law (signing bops)"
    and "sign_tx bops to from gas calldata ctx db = Inr tx"
  shows "unat gas \<le> unat (tx_gas_limit (inner_tx tx)) - unat (tx_gas_limit (inner_tx tx)) div 64 \<and>
    get_nonce bops db (sn_address from) = Inr (tx_nonce (inner_tx tx)) \<and> signer tx = sn_address from"
proof -
  obtain nonce f where nonce: "get_nonce bops db (sn_address from) = Inr nonce"
    and x: "signer_sign_tx (signing bops) from (TypedEip1559 f) = Inr tx"
    and f: "x_gas_limit f = gas * 64 div 63" "x_nonce f = nonce"
    using assms(3) by (auto simp: sign_tx_def and_then_eq_Inr)
  have "unat (gas * 64) = unat gas * 64"
    using assms(1) by (subst unat_mult_lem [THEN iffD1]) simp_all
  then have "unat (gas * 64 div 63) = unat gas * 64 div 63" by (simp add: unat_div)
  then show ?thesis
    using eip150_buffer [of "unat gas"] signed_fields [OF assms(2) x] nonce f by simp
qed

definition demo_signing :: signer_ops where
  "demo_signing = \<lparr> secret_key_from_slice = Inr, public_key_of = (\<lambda>sk. 4 # replicate 64 (ucast sk)),
     keccak_256 = (\<lambda>bs. ucast (hd bs)), sha_256 = (\<lambda>bs. 1), sign_ecdsa_recoverable = (\<lambda>m sk. (0, replicate 64 (ucast sk))),
     signature_hash_of = (\<lambda>tx. 7),
     new_signed = (\<lambda>tx sig. case tx of
         TypedEip1559 f \<Rightarrow> \<lparr> tx_hash = ucast (x_nonce f) + 100, tx_ty = Eip1559, tx_nonce = x_nonce f, tx_gas_limit = x_gas_limit f, encoded_2718 = x_input f \<rparr>
       | _ \<Rightarrow> \<lparr> tx_hash = 9, tx_ty = Legacy, tx_nonce = 0, tx_gas_limit = 0, encoded_2718 = [] \<rparr>),
     b256_from_str = (\<lambda>s. Inl ''not a key'') \<rparr>"

definition demo_signer :: signer where
  "demo_signer = generate_signer demo_signing 6"

definition demo_bops :: "(nat, nat) builder_ops" where
  "demo_bops = \<lparr> signing = demo_signing,
     basic_ref = (\<lambda>db a. Inr (Some \<lparr> ai_balance = 0, ai_nonce = of_nat db \<rparr>)),
     call_tx_env = Inr, call_transact = (\<lambda>cfg db req. if cr_nonce req = of_nat db
         then Inr (Success 30000 [\<lparr> log_address = 5, log_topics = [1] \<rparr>] [], db + 1) else Inl (InvalidTx False ''nonce'')), revert_reason = (\<lambda>b. None) \<rparr>"

lemma demo_signed_fields: "signed_fields_law demo_signing"
  by (simp add: signed_fields_law_def demo_signing_def)

theorem sign_tx_gas_buffer_witness:
  "\<exists>tx. sign_tx demo_bops 5 demo_signer 30000 [] (demo_ctx False [] ()) 3 = Inr tx \<and>
     30000 \<le> unat (tx_gas_limit (inner_tx tx)) - unat (tx_gas_limit (inner_tx tx)) div 64"
proof -
  obtain tx where run: "sign_tx demo_bops 5 demo_signer 30000 [] (demo_ctx False [] ()) 3 = Inr tx"
    by (rule sign_tx_total [of demo_bops 3 demo_signer 3]) (simp add: get_nonce_def demo_bops_def)
  have law: "signed_fields_law (signing demo_bops)" by (simp add: demo_bops_def demo_signed_fields)
  show ?thesis using sign_tx_gas_buffer [OF _ law run] run by simp
qed

end
