(* ===== verification/Execution_Props.thy ===== *)
theory Execution_Props
  imports Samples "HOL-Library.Sublist"
begin

text \<open>
  The properties of the three executors: what they include can be replayed, stays within the
  limits and passes the filters; a finite pool is exhausted; required sidecar transactions are included
  or the call fails; a rate-limited sender is charged for everything included.
\<close>

section \<open>Replay\<close>

text \<open>C12: Executing pool transactions is faithful to the block it produces: the transactions it appends,
  replayed in order on the database it started from, all execute and lead to exactly the database it ends
  with; senders and transactions are appended in the same order and the gas counter grows by their gas.
  Transactions it considered and left out leave no trace.\<close>

theorem best_transactions_replay:
  assumes "execute_best_transactions ctx it lims s = Some (r, s')"
  shows "\<exists>txs rs. replay (evm ctx) (es_db s) txs = Some (es_db s', rs) \<and>
    executed_transactions (es_info s') = executed_transactions (es_info s) @ map inner_tx txs \<and>
    executed_senders (es_info s') = executed_senders (es_info s) @ map signer txs \<and>
    cumulative_gas_used (es_info s') = cumulative_gas_used (es_info s) + sum_list (map gas_used rs)"
proof -
  obtain es where es: "included ctx (best_guard ctx it lims) (es_info s, es_db s) es (es_info s', es_db s')"
    using best_includes [OF assms] by blast
  show ?thesis
    using included_replay [OF es] included_lists(1,2,3) [OF es]
    by (intro exI [of _ "map fst es"] exI [of _ "map snd es"]) (simp add: comp_def)
qed

theorem best_transactions_replay_witness:
  "\<exists>s' txs rs. execute_best_transactions (demo_ctx False [] ()) snapshot_ops demo_limits
     (demo_state [demo_pool_tx 1 0 None, demo_pool_tx 2 7 (Some []), demo_pool_tx 3 7 None]) = Some (Inr None, s') \<and>
     replay demo_ops 0 txs = Some (2, rs) \<and> map inner_tx txs = [demo_tx 1 0, demo_tx 3 7]"
proof -
  obtain s' where run: "execute_best_transactions (demo_ctx False [] ()) snapshot_ops demo_limits
      (demo_state [demo_pool_tx 1 0 None, demo_pool_tx 2 7 (Some []), demo_pool_tx 3 7 None]) = Some (Inr None, s')"
    and res: "executed_transactions (es_info s') = [demo_tx 1 0, demo_tx 3 7]" "es_db s' = 2"
    using demo_run by blast
  show ?thesis
    using best_transactions_replay [OF run] run res
    by (auto simp: demo_ctx_def demo_state_def with_capacity_def)
qed

section \<open>Limits\<close>

lemma over_limits_gas:
  "over_limits ctx lims info da gas = Inr () \<Longrightarrow> cumulative_gas_used info + gas \<le> lim_gas lims"
  by (simp add: over_limits_def is_tx_over_limits_ok not_less)

lemma over_limits_da:
  "over_limits ctx lims info da gas = Inr () \<Longrightarrow> lim_da lims = Some l \<Longrightarrow>
     saturating_add (cumulative_da_bytes_used info) da \<le> l"
  by (simp add: over_limits_def is_tx_over_limits_ok not_less)

lemma over_limits_footprint:
  "over_limits ctx lims info da gas = Inr () \<Longrightarrow> da_footprint_scalar info = Some sc \<Longrightarrow>
     saturating_mul (saturating_add (cumulative_da_bytes_used info) da) (ucast sc)
       \<le> unwrap_or (lim_gas lims) (lim_da_footprint lims)"
  by (simp add: over_limits_def is_tx_over_limits_ok not_less)

lemma best_guard_fits:
  "best_guard ctx it lims info tx r da \<Longrightarrow> over_limits ctx lims info da (tx_gas_limit (inner_tx tx)) = Inr ()"
  by (simp add: best_guard_def)

lemma sidecar_guard_fits:
  "sidecar_guard ctx lims info tx r da \<Longrightarrow> over_limits ctx lims info da (tx_gas_limit (inner_tx tx)) = Inr ()"
  by (simp add: sidecar_guard_def)

text \<open>C13: The pool never takes the block over its gas limit: if execution started within the limit, it ends
  within it, whatever the pool offers (and if it started above, it adds no gas). The hypotheses are the gas
  rules of the EVM and that the limits leave room for one more sum in 64 bits.\<close>

theorem best_transactions_gas_bound:
  assumes "execute_best_transactions ctx it lims s = Some (r, s')"
    and "evm_gas_law (evm ctx) (be_gas_limit (env ctx))"
    and "unat (max (cumulative_gas_used (es_info s)) (lim_gas lims)) + unat (be_gas_limit (env ctx)) < 2 ^ 64"
  shows "cumulative_gas_used (es_info s') \<le> max (cumulative_gas_used (es_info s)) (lim_gas lims)"
proof -
  obtain es where es: "included ctx (best_guard ctx it lims) (es_info s, es_db s) es (es_info s', es_db s')"
    using best_includes [OF assms(1)] by blast
  from included_gas_bound [OF es assms(2) over_limits_gas [OF best_guard_fits]] assms(3)
  show ?thesis by simp
qed

theorem best_transactions_gas_bound_witness:
  "\<exists>s'. execute_best_transactions (demo_ctx False [] ()) snapshot_ops demo_limits
     (demo_state [demo_pool_tx 1 0 None, demo_pool_tx 2 7 (Some []), demo_pool_tx 3 7 None]) = Some (Inr None, s') \<and>
     cumulative_gas_used (es_info s') \<le> 100000"
proof -
  obtain s' where run: "execute_best_transactions (demo_ctx False [] ()) snapshot_ops demo_limits
      (demo_state [demo_pool_tx 1 0 None, demo_pool_tx 2 7 (Some []), demo_pool_tx 3 7 None]) = Some (Inr None, s')"
    using demo_run by blast
  have "evm_gas_law (evm (demo_ctx False [] ())) (be_gas_limit (env (demo_ctx False [] ())))"
    using demo_gas_law by (simp add: demo_ctx_def)
  from best_transactions_gas_bound [OF run this] show ?thesis
    using run by (auto simp: demo_state_def with_capacity_def demo_limits_def demo_ctx_def)
qed

text \<open>The pool never takes the block over its data limit, nor, on a chain with the Jovian upgrade, over
  its data footprint limit (the gas limit where no footprint limit is given).\<close>

theorem best_transactions_da_bound:
  assumes "execute_best_transactions ctx it lims s = Some (r, s')"
  shows "(\<forall>l. lim_da lims = Some l \<longrightarrow>
      cumulative_da_bytes_used (es_info s') \<le> max (cumulative_da_bytes_used (es_info s)) l) \<and>
    (\<forall>sc. da_footprint_scalar (es_info s) = Some sc \<longrightarrow>
      unwrap_or (lim_gas lims) (lim_da_footprint lims) \<noteq> - 1 \<longrightarrow>
      unat (cumulative_da_bytes_used (es_info s')) * unat sc \<le>
        max (unat (cumulative_da_bytes_used (es_info s)) * unat sc)
            (unat (unwrap_or (lim_gas lims) (lim_da_footprint lims))))"
proof (intro conjI allI impI)
  obtain es where es: "included ctx (best_guard ctx it lims) (es_info s, es_db s) es (es_info s', es_db s')"
    using best_includes [OF assms(1)] by blast
  show "cumulative_da_bytes_used (es_info s') \<le> max (cumulative_da_bytes_used (es_info s)) l"
    if "lim_da lims = Some l" for l
    using included_da_bound [OF es over_limits_da [OF best_guard_fits that]] by simp
  show "unat (cumulative_da_bytes_used (es_info s')) * unat sc \<le>
      max (unat (cumulative_da_bytes_used (es_info s)) * unat sc)
          (unat (unwrap_or (lim_gas lims) (lim_da_footprint lims)))"
    if "da_footprint_scalar (es_info s) = Some sc" "unwrap_or (lim_gas lims) (lim_da_footprint lims) \<noteq> - 1" for sc
    using included_footprint_bound [of ctx "best_guard ctx it lims" _ es _ sc, OF es
        over_limits_footprint [OF best_guard_fits [of ctx it lims]]] that by simp
qed

theorem best_transactions_da_bound_witness:
  "\<exists>s'. execute_best_transactions (demo_ctx False [] ()) snapshot_ops demo_limits
     (demo_state [demo_pool_tx 1 0 None, demo_pool_tx 2 7 (Some []), demo_pool_tx 3 7 None]) = Some (Inr None, s') \<and>
     cumulative_da_bytes_used (es_info s') \<le> 1000"
proof -
  obtain s' where run: "execute_best_transactions (demo_ctx False [] ()) snapshot_ops demo_limits
      (demo_state [demo_pool_tx 1 0 None, demo_pool_tx 2 7 (Some []), demo_pool_tx 3 7 None]) = Some (Inr None, s')"
    using demo_run by blast
  from best_transactions_da_bound [OF run] show ?thesis
    using run by (auto simp: demo_state_def with_capacity_def demo_limits_def)
qed

section \<open>Filters\<close>

text \<open>The filters of the pool, for an included transaction and its result.\<close>

definition pool_filters :: "('db, 'st, 'c) op_ctx \<Rightarrow> 'i payload_txs \<Rightarrow> recovered \<Rightarrow> exec_result \<Rightarrow> bool" where
  "pool_filters ctx it tx res \<longleftrightarrow>
     \<not> is_eip4844 (inner_tx tx) \<and> \<not> is_deposit (inner_tx tx) \<and>
     (\<forall>m. max_gas_per_txn ctx = Some m \<longrightarrow> gas_used res \<le> m) \<and>
     (\<exists>ptx i i'. pt_next it i = Some (Some ptx, i') \<and> into_consensus ptx = tx \<and>
        (\<forall>c. conditional ptx = Some c \<longrightarrow>
           matches_block_attributes (evm ctx) c (block_number ctx) (timestamp ctx)) \<and>
        (is_success res \<or>
         (case reverted_hashes ptx of None \<Rightarrow> True | Some hs \<Rightarrow> tx_hash (inner_tx tx) \<in> set hs)))"

lemma best_guard_filters: "best_guard ctx it lims info tx r da \<Longrightarrow> pool_filters ctx it tx r"
  unfolding best_guard_def pool_filters_def exclude_reverting_def
  by (fastforce split: option.splits)

text \<open>C14: Everything the pool contributes has passed the filters: it is neither a blob nor a deposit
  transaction, used no more gas than the per-transaction maximum, was offered by the iterator with a
  condition that matches the block, and, if it reverted, is either no bundle or a bundle that allows
  its hash to revert.\<close>

theorem best_transactions_filtered:
  assumes "execute_best_transactions ctx it lims s = Some (r, s')"
  shows "\<exists>es. executed_transactions (es_info s') = executed_transactions (es_info s) @ map (inner_tx \<circ> fst) es \<and>
    replay (evm ctx) (es_db s) (map fst es) = Some (es_db s', map snd es) \<and>
    (\<forall>(tx, res) \<in> set es. pool_filters ctx it tx res)"
proof -
  obtain es where es: "included ctx (best_guard ctx it lims) (es_info s, es_db s) es (es_info s', es_db s')"
    using best_includes [OF assms(1)] by blast
  show ?thesis
    using included_all [OF es best_guard_filters] included_lists(1) [OF es] included_replay [OF es]
    by (intro exI [of _ es]) simp
qed

theorem best_transactions_filtered_witness:
  "\<exists>es. map (inner_tx \<circ> fst) es = [demo_tx 1 0, demo_tx 3 7] \<and>
     (\<forall>(tx, res) \<in> set es. pool_filters (demo_ctx False [] ()) snapshot_ops tx res)"
proof -
  obtain s' where run: "execute_best_transactions (demo_ctx False [] ()) snapshot_ops demo_limits
      (demo_state [demo_pool_tx 1 0 None, demo_pool_tx 2 7 (Some []), demo_pool_tx 3 7 None]) = Some (Inr None, s')"
    and res: "executed_transactions (es_info s') = [demo_tx 1 0, demo_tx 3 7]"
    using demo_run by blast
  have none: "executed_transactions (es_info (demo_state txs)) = []" for txs
    by (simp add: demo_state_def with_capacity_def)
  obtain es where "[demo_tx 1 0, demo_tx 3 7] = [] @ map (inner_tx \<circ> fst) es"
    and "\<forall>(tx, res) \<in> set es. pool_filters (demo_ctx False [] ()) snapshot_ops tx res"
    using best_transactions_filtered [OF run] unfolding res none by blast
  then show ?thesis by (intro exI [of _ es]) simp
qed

section \<open>Termination\<close>

lemma best_check_result_left:
  assumes "\<And>i a n. left (pt_mark_invalid it i a n) \<le> (left i :: nat)"
  shows "left (es_iter (snd (best_check_result ctx it ptx r st s))) \<le> left (es_iter s)"
  using assms
  by (auto simp: best_check_result_def best_include_def skip_sender_def count_def Let_def
      split: prod.splits option.splits)

lemma best_step_left:
  fixes s :: "('db, 'i, 'x) exec_state"
  assumes "\<And>i a n. left (pt_mark_invalid it i a n) \<le> (left i :: nat)"
  shows "left (es_iter (snd (best_step ctx it lims s ptx))) \<le> left (es_iter s)"
proof -
  have "left (es_iter (snd (best_check_result ctx it ptx r st t))) \<le> left (es_iter s)"
    if "es_iter t = es_iter s" for r st and t :: "('db, 'i, 'x) exec_state"
    using best_check_result_left [of left it ctx ptx r st t, OF assms] that by simp
  then show ?thesis
    using assms
    by (auto simp: best_step_def skip_sender_def count_def Let_def split: sum.splits evm_err.splits)
qed

text \<open>The pool loop over a finite supply returns.\<close>

context finite_payload_txs
begin

lemma execute_best_returns:
  fixes s :: "('db, 'i, 'x) exec_state"
  shows "\<exists>r s'. execute_best_transactions ctx ops lims s = Some (r, s')"
proof -
  have "\<exists>r u. while_next (exec_draw ops) (best_step ctx ops lims) t = Some (r, u) \<and>
      (r \<noteq> Continue \<longrightarrow> left (es_iter u) < left (es_iter t))" for t :: "('db, 'i, 'x) exec_state"
  proof (rule while_next_terminates)
    show "\<exists>r. exec_draw ops s = Some r" for s :: "('db, 'i, 'x) exec_state"
      using next_returns [of "es_iter s"] by (auto simp: exec_draw_def)
    show "left (es_iter t) < left (es_iter s)" if "exec_draw ops s = Some (Some x, t)"
      for s t :: "('db, 'i, 'x) exec_state" and x
      using that next_decreases by (auto simp: exec_draw_def)
    show "left (es_iter u) \<le> left (es_iter t)" if "best_step ctx ops lims t x = (f, u)"
      for t u :: "('db, 'i, 'x) exec_state" and x f
      using that best_step_left [of left ops ctx lims t x] mark_invalid_le by simp
  qed
  then show ?thesis
    by (fastforce simp: execute_best_transactions_def)
qed

end

text \<open>Over a finite pool, executing pool transactions for a flashblock returns.\<close>

lemma best_transactions_terminate:
  assumes "\<And>i. \<exists>r. pt_next inner i = Some r"
    and "\<And>i tx i'. pt_next inner i = Some (Some tx, i') \<Longrightarrow> left i' < left i"
    and "\<And>i a n. left (pt_mark_invalid inner i a n) \<le> (left i :: nat)"
  shows "\<exists>r s'. execute_best_transactions ctx (best_txs_ops inner) lims s = Some (r, s')"
proof -
  have "pool_supply inner left" using assms by unfold_locales
  then have "finite_payload_txs (best_txs_ops inner) (\<lambda>s. left (bf_inner s))"
    by (rule pool_supply.best_finite)
  then show ?thesis by (rule finite_payload_txs.execute_best_returns)
qed

section \<open>Sidecar transactions\<close>

text \<open>The transaction behind an external transaction, and those that are required.\<close>

definition decoded :: "('db, 'st, 'c) op_ctx \<Rightarrow> external_transaction \<Rightarrow> op_tx" where
  "decoded ctx ext = projr (decode_2718 (evm ctx) (raw ext))"

lemma sidecar_step_continue:
  assumes "sidecar_step ctx lims s ext = (Continue, t)"
  shows "(t = s \<and> \<not> required ext) \<or>
    (is_ok (decode_2718 (evm ctx) (raw ext)) \<and>
     executed_transactions (ss_info t) = executed_transactions (ss_info s) @ [decoded ctx ext])"
  using assms
  by (auto simp: sidecar_step_def sidecar_fail_def decoded_def Let_def
      split: sum.splits option.splits if_splits)

text \<open>That a transaction of the sidecar fails for a reason, in the state it is tried in.\<close>

fun sidecar_failure ::
  "('db, 'st, 'c) op_ctx \<Rightarrow> exec_limits \<Rightarrow> ('db, 'x) seq_state \<Rightarrow> external_transaction \<Rightarrow> sidecar_error \<Rightarrow> bool" where
  "sidecar_failure ctx lims s ext (DecodeError err) \<longleftrightarrow> decode_2718 (evm ctx) (raw ext) = Inl err"
| "sidecar_failure ctx lims s ext SignatureRecoveryFailed \<longleftrightarrow>
     is_ok (decode_2718 (evm ctx) (raw ext)) \<and> try_recover (evm ctx) (decoded ctx ext) = None"
| "sidecar_failure ctx lims s ext InvalidTransactionType \<longleftrightarrow>
     is_ok (decode_2718 (evm ctx) (raw ext)) \<and> (is_eip4844 (decoded ctx ext) \<or> is_deposit (decoded ctx ext))"
| "sidecar_failure ctx lims s ext (LimitsExceeded msg) \<longleftrightarrow>
     is_ok (decode_2718 (evm ctx) (raw ext)) \<and>
     (\<exists>r. over_limits ctx lims (ss_info s) (tx_estimated_size_fjord_bytes (evm ctx) (encoded_2718 (decoded ctx ext)))
            (tx_gas_limit (decoded ctx ext)) = Inl r \<and> msg = txn_result_to_string r)"
| "sidecar_failure ctx lims s ext (ExecutionFailed msg) \<longleftrightarrow>
     is_ok (decode_2718 (evm ctx) (raw ext)) \<and>
     (\<exists>from err. try_recover (evm ctx) (decoded ctx ext) = Some from \<and>
        transact (evm ctx) (ss_db s) (Recovered (decoded ctx ext) from) = Inl err \<and> msg = evm_err_msg err)"
| "sidecar_failure ctx lims s ext (TransactionReverted msg) \<longleftrightarrow>
     is_ok (decode_2718 (evm ctx) (raw ext)) \<and>
     (\<exists>from r st. try_recover (evm ctx) (decoded ctx ext) = Some from \<and>
        transact (evm ctx) (ss_db s) (Recovered (decoded ctx ext) from) = Inr (r, st) \<and> \<not> is_success r \<and>
        msg = hash_to_string (evm ctx) (tx_hash (decoded ctx ext)))"
| "sidecar_failure ctx lims s ext _ \<longleftrightarrow> False"

lemma sidecar_step_return:
  assumes "sidecar_step ctx lims s ext = (Return e, t)"
  shows "required ext \<and> (\<exists>x. e = SidecarFailed x \<and> sidecar_failure ctx lims s ext x) \<and> t = s"
  using assms
  by (auto simp: sidecar_step_def sidecar_fail_def decoded_def Let_def split: sum.splits option.splits if_splits)

lemma sidecar_loop_required:
  assumes "for_in (sidecar_step ctx lims) txs s = (Continue, s')"
  shows "\<exists>new. executed_transactions (ss_info s') = executed_transactions (ss_info s) @ new \<and>
    subseq (map (decoded ctx) (filter required txs)) new \<and> subseq new (map (decoded ctx) txs)"
  using assms
proof (induction txs arbitrary: s)
  case (Cons ext txs)
  obtain t where t: "sidecar_step ctx lims s ext = (Continue, t)"
    and rest: "for_in (sidecar_step ctx lims) txs t = (Continue, s')"
    using Cons.prems by (auto split: prod.splits flow.splits)
  obtain new where new: "executed_transactions (ss_info s') = executed_transactions (ss_info t) @ new"
      "subseq (map (decoded ctx) (filter required txs)) new" "subseq new (map (decoded ctx) txs)"
    using Cons.IH [OF rest] by blast
  show ?case
  proof (cases "t = s \<and> \<not> required ext")
    case True
    then show ?thesis using new by auto
  next
    case False
    then have "executed_transactions (ss_info s') = executed_transactions (ss_info s) @ (decoded ctx ext # new)"
      using sidecar_step_continue [OF t] new(1) by auto
    then show ?thesis using new(2,3) by (intro exI [of _ "decoded ctx ext # new"]) auto
  qed
qed simp

lemma sidecar_loop_error:
  assumes "for_in (sidecar_step ctx lims) txs s = (Return e, s')"
  shows "\<exists>pre ext post x. txs = pre @ ext # post \<and> for_in (sidecar_step ctx lims) pre s = (Continue, s') \<and>
    required ext \<and> e = SidecarFailed x \<and> sidecar_failure ctx lims s' ext x"
  using assms
proof (induction txs arbitrary: s)
  case (Cons ext txs)
  obtain f t where step: "sidecar_step ctx lims s ext = (f, t)" by fastforce
  show ?case
  proof (cases f)
    case (Return e')
    then have "e' = e" "t = s'" using Cons.prems step by simp_all
    then show ?thesis
      using sidecar_step_return [of ctx lims s ext e t] step Return by (intro exI [of _ "[]"]) auto
  next
    case Continue
    then have "for_in (sidecar_step ctx lims) txs t = (Return e, s')" using Cons.prems step by simp
    from Cons.IH [OF this] obtain pre x post y where
      "txs = pre @ x # post" "for_in (sidecar_step ctx lims) pre t = (Continue, s')" "required x" "e = SidecarFailed y"
      "sidecar_failure ctx lims s' x y" by blast
    then show ?thesis using step Continue
      by (intro exI [of _ "ext # pre"] exI [of _ x] exI [of _ post] exI [of _ y]) simp
  qed
qed simp

text \<open>C15: Required cross-chain transactions are all or nothing: when executing the sidecar's transactions
  succeeds, the block was extended by transactions of the sidecar's list, in order, among which is every
  required one. When it fails, a required transaction of the list failed, for the reason that is reported, in the state in which
  the transactions before it, executed successfully by the same rules, had left the block; none after it was tried.\<close>

theorem sidecar_required_included:
  "case execute_sidecar_transactions ctx lims txs s of
     (Inr _, s') \<Rightarrow>
       \<exists>new. executed_transactions (ss_info s') = executed_transactions (ss_info s) @ new \<and>
         subseq (map (decoded ctx) (filter required txs)) new \<and> subseq new (map (decoded ctx) txs)
   | (Inl e, s') \<Rightarrow>
       \<exists>pre ext post x. txs = pre @ ext # post \<and> execute_sidecar_transactions ctx lims pre s = (Inr (), s') \<and>
         required ext \<and> sidecar_failure ctx lims s' ext x \<and> e = SidecarFailed x"
proof -
  obtain f s' where run: "for_in (sidecar_step ctx lims) txs s = (f, s')" by fastforce
  show ?thesis
  proof (cases f)
    case Continue
    then show ?thesis
      using run sidecar_loop_required [of ctx lims txs s s'] by (simp add: execute_sidecar_transactions_def)
  next
    case (Return e)
    then obtain pre ext post x where "txs = pre @ ext # post" "for_in (sidecar_step ctx lims) pre s = (Continue, s')"
      "required ext" "e = SidecarFailed x" "sidecar_failure ctx lims s' ext x"
      using run sidecar_loop_error [of ctx lims txs s e s'] by blast
    then show ?thesis using run Return
      by (simp add: execute_sidecar_transactions_def)
        (intro exI [of _ pre] exI [of _ ext] conjI exI [of _ post] exI [of _ x]; simp)
  qed
qed

theorem sidecar_required_included_witness:
  "\<exists>s' new. execute_sidecar_transactions (demo_ctx False [] ()) demo_limits
      [\<lparr> raw = [1, 2], required = False, instance_id = None \<rparr>, \<lparr> raw = [3], required = True, instance_id = None \<rparr>]
      \<lparr> ss_info = with_capacity (), ss_db = 0 \<rparr> = (Inr (), s') \<and>
     executed_transactions (ss_info s') = new \<and> subseq [demo_tx 3 0] new"
proof -
  let ?txs = "[\<lparr> raw = [1, 2], required = False, instance_id = None \<rparr>, \<lparr> raw = [3], required = True, instance_id = None \<rparr>]"
  let ?s = "\<lparr> ss_info = with_capacity (), ss_db = 0 \<rparr>"
  obtain s' where run: "execute_sidecar_transactions (demo_ctx False [] ()) demo_limits ?txs ?s = (Inr (), s')"
    by (simp add: execute_sidecar_transactions_def sidecar_step_def sidecar_fail_def exec_simps demo_defs)
  show ?thesis
    using sidecar_required_included [where ctx = "demo_ctx False [] ()" and lims = demo_limits and txs = ?txs and s = ?s] run
    by (simp add: decoded_def demo_ctx_def demo_ops_def with_capacity_def)
qed

section \<open>Sequencer transactions\<close>

lemma sequencer_loop_subseq:
  assumes "for_in (sequencer_step ctx) txs s = (Continue, s')"
  shows "(\<exists>new. executed_transactions (ss_info s') = executed_transactions (ss_info s) @ new \<and> subseq new txs) \<and>
    (\<forall>tx \<in> set txs. \<not> is_eip4844 tx)"
  using assms
proof (induction txs arbitrary: s)
  case (Cons tx txs)
  obtain t where t: "sequencer_step ctx s tx = (Continue, t)"
    and rest: "for_in (sequencer_step ctx) txs t = (Continue, s')"
    using Cons.prems by (auto split: prod.splits flow.splits)
  obtain new where new: "executed_transactions (ss_info s') = executed_transactions (ss_info t) @ new"
      "subseq new txs" "\<forall>tx \<in> set txs. \<not> is_eip4844 tx"
    using Cons.IH [OF rest] by blast
  have "t = s \<or> executed_transactions (ss_info t) = executed_transactions (ss_info s) @ [tx]"
    "\<not> is_eip4844 tx"
    using t by (auto simp: sequencer_step_def Let_def split: if_splits option.splits sum.splits evm_err.splits)
  then show ?case using new by auto
qed simp

text \<open>The transactions of a list that the EVM accepts, each on the state the ones before it leave.\<close>

fun accepted_txs :: "('db, 'st) evm_ops \<Rightarrow> 'db \<Rightarrow> op_tx list \<Rightarrow> op_tx list" where
  "accepted_txs ops db [] = []"
| "accepted_txs ops db (tx # txs) =
     (case try_recover ops tx of
        None \<Rightarrow> []
      | Some from \<Rightarrow>
          (case transact ops db (Recovered tx from) of
             Inl _ \<Rightarrow> accepted_txs ops db txs
           | Inr (_, st) \<Rightarrow> tx # accepted_txs ops (commit ops db st) txs))"

lemma sequencer_loop_accepted:
  assumes "for_in (sequencer_step ctx) txs s = (Continue, s')"
  shows "executed_transactions (ss_info s') = executed_transactions (ss_info s) @ accepted_txs (evm ctx) (ss_db s) txs"
  using assms
proof (induction txs arbitrary: s)
  case (Cons tx txs)
  obtain t where t: "sequencer_step ctx s tx = (Continue, t)" and rest: "for_in (sequencer_step ctx) txs t = (Continue, s')"
    using Cons.prems by (auto split: prod.splits flow.splits)
  from t obtain sender where rec: "try_recover (evm ctx) tx = Some sender"
    by (auto simp: sequencer_step_def split: if_splits option.splits)
  from t rec have "(\<exists>err. transact (evm ctx) (ss_db s) (Recovered tx sender) = Inl err \<and> t = s) \<or>
      (\<exists>r st. transact (evm ctx) (ss_db s) (Recovered tx sender) = Inr (r, st) \<and> ss_db t = commit (evm ctx) (ss_db s) st \<and>
        executed_transactions (ss_info t) = executed_transactions (ss_info s) @ [tx])"
    by (auto simp: sequencer_step_def Let_def split: if_splits sum.splits evm_err.splits)
  then show ?case using Cons.IH [OF rest] rec by auto
qed simp

lemma sequencer_accepted:
  assumes "execute_sequencer_transactions ctx x db = (Inr info, db')"
  shows "executed_transactions info = accepted_txs (evm ctx) db (at_transactions (attributes ctx))"
proof -
  let ?s = "\<lparr> ss_info = with_capacity x, ss_db = db \<rparr>"
  obtain s where s: "for_in (sequencer_step ctx) (at_transactions (attributes ctx)) ?s = (Continue, s)"
    and info: "executed_transactions info = executed_transactions (ss_info s)"
    using assms by (auto simp: execute_sequencer_transactions_def split: prod.splits flow.splits if_splits option.splits)
  show ?thesis using sequencer_loop_accepted [OF s] info by (simp add: with_capacity_def)
qed

lemma sequencer_subseq:
  assumes "execute_sequencer_transactions ctx x db = (Inr info, db')"
  shows "subseq (executed_transactions info) (at_transactions (attributes ctx))"
    "\<forall>tx \<in> set (at_transactions (attributes ctx)). \<not> is_eip4844 tx"
    "da_footprint_scalar info \<noteq> None \<longleftrightarrow> is_jovian_active ctx"
proof -
  let ?s = "\<lparr> ss_info = with_capacity x, ss_db = db \<rparr>"
  obtain s where s: "for_in (sequencer_step ctx) (at_transactions (attributes ctx)) ?s = (Continue, s)"
    and info: "info = (ss_info s) \<lparr> da_footprint_scalar := da_footprint_scalar info \<rparr>"
    and scalar: "da_footprint_scalar info \<noteq> None \<longleftrightarrow> is_jovian_active ctx"
    using assms
    by (auto simp: execute_sequencer_transactions_def is_jovian_active_def
        split: prod.splits flow.splits if_splits option.splits)
  have "executed_transactions info = executed_transactions (ss_info s)"
    by (subst info) simp
  then show "subseq (executed_transactions info) (at_transactions (attributes ctx))"
    "\<forall>tx \<in> set (at_transactions (attributes ctx)). \<not> is_eip4844 tx"
    using sequencer_loop_subseq [OF s] by (auto simp: with_capacity_def)
  show "da_footprint_scalar info \<noteq> None \<longleftrightarrow> is_jovian_active ctx" by (rule scalar)
qed

text \<open>Executing the sequencer's transactions either fails or yields a well-formed record (parallel lists,
  gas counter equal to the last receipt) of transactions of the payload attributes in their order, none of them a
  blob transaction; replaying them on the initial database gives the final one; and the data footprint scalar is
  set exactly on a chain with the Jovian upgrade.\<close>

theorem sequencer_transactions_correct:
  assumes "execute_sequencer_transactions ctx x db = (Inr info, db')" and "receipt_law (evm ctx)"
  shows "info_wf info \<and> subseq (executed_transactions info) (at_transactions (attributes ctx)) \<and>
    (\<forall>tx \<in> set (at_transactions (attributes ctx)). \<not> is_eip4844 tx) \<and>
    (\<exists>txs rs. replay (evm ctx) db txs = Some (db', rs) \<and> executed_transactions info = map inner_tx txs \<and>
       executed_senders info = map signer txs \<and> cumulative_gas_used info = sum_list (map gas_used rs)) \<and>
    (da_footprint_scalar info \<noteq> None \<longleftrightarrow> is_jovian_active ctx)"
proof -
  obtain es info0 where es: "included ctx (sequencer_guard ctx) (with_capacity x, db) es (info0, db')"
    and info0: "info = info0 \<lparr> da_footprint_scalar := da_footprint_scalar info \<rparr>"
    using sequencer_includes [OF assms(1)] by blast
  have sel: "executed_transactions info = executed_transactions info0" "executed_senders info = executed_senders info0"
      "cumulative_gas_used info = cumulative_gas_used info0"
    by (subst info0, simp)+
  have "info_wf info0" using included_wf [OF es assms(2)] by simp
  then have "info_wf info" by (subst info0) (simp add: info_wf_def)
  moreover have "\<exists>txs rs. replay (evm ctx) db txs = Some (db', rs) \<and> executed_transactions info = map inner_tx txs \<and>
      executed_senders info = map signer txs \<and> cumulative_gas_used info = sum_list (map gas_used rs)"
    using included_replay [OF es] included_lists(1,2,3) [OF es] sel
    by (intro exI [of _ "map fst es"] exI [of _ "map snd es"]) (simp add: comp_def with_capacity_def)
  ultimately show ?thesis using sequencer_subseq [OF assms(1)] by blast
qed

theorem sequencer_transactions_correct_witness:
  "\<exists>info. execute_sequencer_transactions (demo_ctx True [demo_tx 1 0, demo_tx 2 1] ()) () 0 = (Inr info, 2) \<and>
     info_wf info \<and> da_footprint_scalar info \<noteq> None"
proof -
  obtain info where run: "execute_sequencer_transactions (demo_ctx True [demo_tx 1 0, demo_tx 2 1] ()) () 0 = (Inr info, 2)"
    by (simp add: execute_sequencer_transactions_def sequencer_step_def depositor_nonce_def is_regolith_active_def
        exec_simps demo_defs)
  show ?thesis
    using sequencer_transactions_correct [OF run demo_receipt_law] run
    by (simp add: is_jovian_active_def demo_ctx_def demo_spec_def)
qed

section \<open>Cancellation\<close>

lemma best_check_result_flow:
  "best_check_result ctx it ptx r st s \<noteq> (Return (Inr (Some ())), t)"
  by (auto simp: best_check_result_def best_include_def Let_def split: prod.splits option.splits)

lemma best_step_cancelled:
  assumes "best_step ctx it lims s ptx = (Return (Inr (Some ())), t)"
  shows "cancel ctx (es_cancel_polls s)"
  using assms
  by (auto simp: best_step_def Let_def best_check_result_flow split: if_splits sum.splits evm_err.splits)

lemma best_check_result_polls:
  "best_check_result ctx it ptx r st s = (f, t) \<Longrightarrow> es_cancel_polls t = es_cancel_polls s"
  by (auto simp: best_check_result_def best_include_def Let_def split: prod.splits option.splits if_splits)

lemma best_step_polls:
  "best_step ctx it lims s ptx = (f, t) \<Longrightarrow> es_cancel_polls s \<le> es_cancel_polls t"
  by (auto simp: best_step_def Let_def dest: best_check_result_polls split: if_splits sum.splits evm_err.splits)

text \<open>A step under a cancelled token executes nothing.\<close>

lemma best_step_when_cancelled:
  assumes "cancel ctx (es_cancel_polls s)" "best_step ctx it lims s ptx = (f, t)"
  shows "es_info t = es_info s \<and> es_db t = es_db s \<and> es_limiter t = es_limiter s"
  using assms by (auto simp: best_step_def Let_def split: if_splits)

lemma exec_draw_sel:
  "exec_draw it s = Some (x, t) \<Longrightarrow> es_info t = es_info s \<and> es_db t = es_db s \<and>
     es_limiter t = es_limiter s \<and> es_cancel_polls t = es_cancel_polls s"
  by (auto simp: exec_draw_def)

lemma while_best_cancelled:
  assumes "while_next (exec_draw it) (best_step ctx it lims) s = Some (r, s')"
  shows "(r = Return (Inr (Some ())) \<longrightarrow> (\<exists>n \<ge> es_cancel_polls s. cancel ctx n)) \<and>
    ((\<forall>n \<ge> es_cancel_polls s. cancel ctx n) \<longrightarrow>
       es_info s' = es_info s \<and> es_db s' = es_db s \<and> es_limiter s' = es_limiter s)"
  using assms
proof (induction s "(r, s')" arbitrary: r s' rule: while_next_induct)
  case (exhausted s s')
  then show ?case by (auto dest: exec_draw_sel)
next
  case (return s x t r u)
  have "cancel ctx (es_cancel_polls t)" if "r = Inr (Some ())"
    using that return(2) best_step_cancelled by blast
  then show ?case
    using exec_draw_sel [OF return(1)] best_step_when_cancelled [OF _ return(2)] by auto
next
  case (continue s x t u)
  have "es_cancel_polls s \<le> es_cancel_polls u"
    using exec_draw_sel [OF continue(1)] best_step_polls [OF continue(2)] by simp
  then show ?case
    using exec_draw_sel [OF continue(1)] best_step_when_cancelled [OF _ continue(2)] continue(3)
    by (auto intro: order_trans)
qed

lemma best_cancelled:
  assumes "execute_best_transactions ctx it lims s = Some (Inr (Some ()), s')"
  shows "\<exists>n. cancel ctx n"
proof -
  obtain f where "while_next (exec_draw it) (best_step ctx it lims) (s \<lparr> es_counters := zero_counters \<rparr>) = Some (f, s')"
    "(case f of Continue \<Rightarrow> Inr None | Return v \<Rightarrow> v) = Inr (Some ())"
    using assms by (auto simp: execute_best_transactions_def)
  then show ?thesis using while_best_cancelled by (cases f) fastforce+
qed

text \<open>Cancellation: the pool loop reports a cancelled job only if the token was cancelled, and under a
  cancelled token it executes nothing: record, database and rate limiter stay as they were.\<close>

theorem best_transactions_cancellation:
  assumes "execute_best_transactions ctx it lims s = Some (r, s')"
  shows "(r = Inr (Some ()) \<longrightarrow> (\<exists>n \<ge> es_cancel_polls s. cancel ctx n)) \<and>
    ((\<forall>n \<ge> es_cancel_polls s. cancel ctx n) \<longrightarrow>
       es_info s' = es_info s \<and> es_db s' = es_db s \<and> es_limiter s' = es_limiter s)"
proof -
  obtain f where "while_next (exec_draw it) (best_step ctx it lims) (s \<lparr> es_counters := zero_counters \<rparr>) = Some (f, s')"
    "r = (case f of Continue \<Rightarrow> Inr None | Return v \<Rightarrow> v)"
    using assms by (auto simp: execute_best_transactions_def)
  then show ?thesis
    using while_best_cancelled by (cases f) fastforce+
qed

theorem best_transactions_cancellation_witness:
  "\<exists>s'. execute_best_transactions (with_cancel (demo_ctx False [] ()) (\<lambda>n. True)) snapshot_ops demo_limits
      (demo_state [demo_pool_tx 1 0 None]) = Some (Inr (Some ()), s') \<and> es_db s' = 0"
proof -
  obtain s' where run: "execute_best_transactions (with_cancel (demo_ctx False [] ()) (\<lambda>n. True)) snapshot_ops demo_limits
      (demo_state [demo_pool_tx 1 0 None]) = Some (Inr (Some ()), s')"
    by (simp add: with_cancel_def exec_simps demo_defs)
  show ?thesis
    using best_transactions_cancellation [OF run] run by (simp add: with_cancel_def demo_state_def)
qed

section \<open>Rate limiting\<close>

text \<open>When senders are rate limited, the pool transactions of a sender that are included in one call,
  together with what is left of its budget, are within the budget it had before the call; so no sender gets
  more gas included than its bucket holds.\<close>

theorem best_transactions_rate_limited:
  assumes "execute_best_transactions ctx it lims s = Some (r, s')" and "es_limiter s = Some l"
  shows "\<exists>es l'. executed_transactions (es_info s') = executed_transactions (es_info s) @ map (inner_tx \<circ> fst) es \<and>
    replay (evm ctx) (es_db s) (map fst es) = Some (es_db s', map snd es) \<and> es_limiter s' = Some l' \<and>
    (\<forall>a. charged_gas a es + unat (limiter_budget l' a) \<le> unat (limiter_budget l a))"
proof -
  obtain es where es: "included ctx (best_guard ctx it lims) (es_info s, es_db s) es (es_info s', es_db s')"
    and charged: "charges (es_limiter s) es (es_limiter s')"
    using best_includes [OF assms(1)] by blast
  show ?thesis
    using charged assms(2) included_lists(1) [OF es] included_replay [OF es] by (auto simp: charges_def)
qed

definition demo_limiter :: gas_limiter_inner where
  "demo_limiter = \<lparr> config = \<lparr> gas_limiter_enabled = True, max_gas_per_address = 30000, refill_rate_per_block = 0,
     cleanup_interval = 1 \<rparr>, address_buckets = [], limiter_metrics = \<lparr> rejections = 0, active_address_count = 0 \<rparr> \<rparr>"

theorem best_transactions_rate_limited_witness:
  "\<exists>s' es l'. execute_best_transactions (demo_ctx False [] ()) snapshot_ops demo_limits
     ((demo_state [demo_pool_tx 1 0 None]) \<lparr> es_limiter := Some demo_limiter \<rparr>) = Some (Inr None, s') \<and>
     es_limiter s' = Some l' \<and> charged_gas 1 es + unat (limiter_budget l' 1) \<le> 30000"
proof -
  let ?s = "(demo_state [demo_pool_tx 1 0 None]) \<lparr> es_limiter := Some demo_limiter \<rparr>"
  have "\<exists>s'. execute_best_transactions (demo_ctx False [] ()) snapshot_ops demo_limits ?s = Some (Inr None, s')"
    by (simp add: demo_limiter_def inner_consume_gas_def consume_gas_inner_def token_bucket_new_def exec_simps demo_defs)
  then obtain s' where run: "execute_best_transactions (demo_ctx False [] ()) snapshot_ops demo_limits ?s = Some (Inr None, s')"
    by blast
  have "es_limiter ?s = Some demo_limiter" by simp
  from best_transactions_rate_limited [OF run this] obtain es l' where
    "es_limiter s' = Some l'" "charged_gas 1 es + unat (limiter_budget l' 1) \<le> unat (limiter_budget demo_limiter 1)"
    by blast
  then show ?thesis
    using run by (auto simp: demo_limiter_def limiter_budget_def)
qed

end
