(* ===== verification/Fb_Timing.thy ===== *)
theory Fb_Timing
  imports Sidecar Gas_Limiter Tx_Signer
begin

text \<open>
  Configuration and timing of flashblocks: \<^verbatim>\<open>builders/mod.rs\<close> and
  \<^verbatim>\<open>builders/flashblocks/config.rs\<close> (the configuration and how it is made from the arguments), and
  the two functions of \<^verbatim>\<open>builders/flashblocks/payload.rs\<close> that decide how many flashblocks a block
  has and when the first one is due. A duration is a number of nanoseconds; the wall clock is
  an argument, in nanoseconds since the epoch. What the source would panic on is an \<open>Inl\<close>.
\<close>

section \<open>Model: durations\<close>

type_synonym duration = nat

definition dur_max :: duration where
  "dur_max = (2 ^ 64 - 1) * 1000000000 + 999999999"

definition from_millis :: "u64 \<Rightarrow> duration" where
  "from_millis ms = unat ms * 1000000"

definition from_secs :: "u64 \<Rightarrow> duration" where
  "from_secs secs = unat secs * 1000000000"

definition as_millis :: "duration \<Rightarrow> nat" where
  "as_millis d = d div 1000000"

definition dur_saturating_add :: "duration \<Rightarrow> duration \<Rightarrow> duration" where
  "dur_saturating_add a b = min (a + b) dur_max"

definition dur_saturating_sub :: "duration \<Rightarrow> duration \<Rightarrow> duration" where
  "dur_saturating_sub a b = a - b"

definition dur_sub :: "duration \<Rightarrow> duration \<Rightarrow> string + duration" where
  "dur_sub a b = (if b \<le> a then Inr (a - b) else Inl ''overflow when subtracting durations'')"

section \<open>Model: configuration\<close>

record fb_config =
  ws_addr :: "nat \<times> u16"
  interval :: duration
  leeway_time :: duration
  fixed :: bool
  disable_state_root :: bool
  number_contract_address :: "address option"
  number_contract_use_permit :: bool
  build_at_interval_end :: bool
  send_offset_ms :: int
  end_buffer_ms :: u64
  p2p_enabled :: bool
  p2p_port :: u16
  p2p_private_key_file :: "string option"
  p2p_known_peers :: "string option"
  p2p_max_peer_count :: u32
  ws_subscriber_limit :: "u16 option"
  sidecar :: sidecar_config

definition fb_config_default :: fb_config where
  "fb_config_default =
     \<lparr> ws_addr = (0, 1111), interval = from_millis 250, leeway_time = from_millis 0, fixed = False,
       disable_state_root = False, number_contract_address = None, number_contract_use_permit = False,
       build_at_interval_end = False, send_offset_ms = 0, end_buffer_ms = 0, p2p_enabled = False,
       p2p_port = 9009, p2p_private_key_file = None, p2p_known_peers = None, p2p_max_peer_count = 50, ws_subscriber_limit = None,
       sidecar = sidecar_config_default \<rparr>"

text \<open>The arguments of the flashtestations, and their values on a command line and in an environment that do not mention them.\<close>

record flashtestations_args =
  fa_flashtestations_enabled :: bool
  fa_debug :: bool
  fa_debug_tee_key_seed :: bytes
  fa_flashtestations_key_path :: string
  fa_quote_provider :: "string option"
  fa_rpc_url :: "string option"
  fa_enable_block_proofs :: bool
  fa_registry_address :: "address option"
  fa_builder_policy_address :: "address option"
  fa_builder_proof_version :: u8

definition flashtestations_args_default :: flashtestations_args where
  "flashtestations_args_default =
     \<lparr> fa_flashtestations_enabled = False, fa_debug = False, fa_debug_tee_key_seed = map of_char ''debug'',
       fa_flashtestations_key_path = ''/run/flashtestation.key'', fa_quote_provider = None, fa_rpc_url = None,
       fa_enable_block_proofs = False, fa_registry_address = None, fa_builder_policy_address = None,
       fa_builder_proof_version = 1 \<rparr>"

record 's builder_config =
  cfg_builder_signer :: "signer option"
  flashtestations_config :: flashtestations_args
  revert_protection :: bool
  block_time :: duration
  block_time_leeway :: duration
  sampling_ratio :: u64
  specific :: 's
  cfg_max_gas_per_txn :: "u64 option"
  gas_limiter_config :: gas_limiter_args

definition builder_config_default :: "'s \<Rightarrow> gas_limiter_args \<Rightarrow> 's builder_config" where
  "builder_config_default default_specific default_limiter =
     \<lparr> cfg_builder_signer = None, flashtestations_config = flashtestations_args_default,
       revert_protection = False, block_time = from_secs 2, block_time_leeway = from_millis 500,
       sampling_ratio = 100, specific = default_specific, cfg_max_gas_per_txn = None,
       gas_limiter_config = default_limiter \<rparr>"

text \<open>The arguments the configuration is made from. Parsing an IP address is a function of the standard
  library and enters as \<open>parse_ip\<close>.\<close>

record fb_args =
  flashblocks_enabled :: bool
  flashblocks_block_time :: u64
  flashblocks_addr :: string
  flashblocks_port :: u16
  flashblocks_leeway_time :: u64
  flashblocks_fixed :: bool
  flashblocks_disable_state_root :: bool
  flashblocks_number_contract_address :: "address option"
  flashblocks_number_contract_use_permit :: bool
  flashblocks_build_at_interval_end :: bool
  flashblocks_send_offset_ms :: int
  flashblocks_end_buffer_ms :: u64
  arg_p2p_enabled :: bool
  arg_p2p_port :: u16
  arg_p2p_private_key_file :: "string option"
  arg_p2p_known_peers :: "string option"
  arg_p2p_max_peer_count :: u32
  arg_ws_subscriber_limit :: "u16 option"
  sidecar_endpoint :: "string option"
  sidecar_poll_timeout_ms :: u64
  sidecar_max_retries :: u32

record op_rbuilder_args =
  arg_builder_signer :: "signer option"
  log_pool_transactions :: bool
  playground :: "string option"
  arg_flashtestations :: flashtestations_args
  enable_revert_protection :: bool
  chain_block_time :: u64
  extra_block_deadline_secs :: u64
  telemetry_sampling_ratio :: u64
  arg_max_gas_per_txn :: "u64 option"
  arg_gas_limiter :: gas_limiter_args
  flashblocks :: fb_args

text \<open>The values on a command line and in an environment that mention none of them.\<close>

definition fb_args_default :: fb_args where
  "fb_args_default =
     \<lparr> flashblocks_enabled = False, flashblocks_block_time = 250, flashblocks_addr = ''127.0.0.1'', flashblocks_port = 1111,
       flashblocks_leeway_time = 0, flashblocks_fixed = False, flashblocks_disable_state_root = False,
       flashblocks_number_contract_address = None, flashblocks_number_contract_use_permit = False,
       flashblocks_build_at_interval_end = False, flashblocks_send_offset_ms = 0, flashblocks_end_buffer_ms = 0,
       arg_p2p_enabled = False, arg_p2p_port = 9009, arg_p2p_private_key_file = None, arg_p2p_known_peers = None,
       arg_p2p_max_peer_count = 50, arg_ws_subscriber_limit = Some 256, sidecar_endpoint = None,
       sidecar_poll_timeout_ms = 200, sidecar_max_retries = 5 \<rparr>"

definition op_rbuilder_args_default :: op_rbuilder_args where
  "op_rbuilder_args_default =
     \<lparr> arg_builder_signer = None, log_pool_transactions = False, playground = None,
       arg_flashtestations = flashtestations_args_default, enable_revert_protection = False, chain_block_time = 1000,
       extra_block_deadline_secs = 20, telemetry_sampling_ratio = 100, arg_max_gas_per_txn = None,
       arg_gas_limiter = \<lparr> gas_limiter_enabled = False, max_gas_per_address = 10000000, refill_rate_per_block = 1000000,
         cleanup_interval = 100 \<rparr>,
       flashblocks = fb_args_default \<rparr>"

definition fb_config_try_from :: "(string \<Rightarrow> nat option) \<Rightarrow> op_rbuilder_args \<Rightarrow> string + fb_config" where
  "fb_config_try_from parse_ip args =
     (let a = flashblocks args in
      case parse_ip (flashblocks_addr a) of
        None \<Rightarrow> Inl ''invalid IP address syntax''
      | Some ip \<Rightarrow> Inr
          \<lparr> ws_addr = (ip, flashblocks_port a),
            interval = from_millis (flashblocks_block_time a),
            leeway_time = from_millis (flashblocks_leeway_time a),
            fixed = flashblocks_fixed a,
            disable_state_root = flashblocks_disable_state_root a,
            number_contract_address = flashblocks_number_contract_address a,
            number_contract_use_permit = flashblocks_number_contract_use_permit a,
            build_at_interval_end = flashblocks_build_at_interval_end a,
            send_offset_ms = flashblocks_send_offset_ms a,
            end_buffer_ms = flashblocks_end_buffer_ms a,
            p2p_enabled = arg_p2p_enabled a,
            p2p_port = arg_p2p_port a,
            p2p_private_key_file = arg_p2p_private_key_file a,
            p2p_known_peers = arg_p2p_known_peers a,
            p2p_max_peer_count = arg_p2p_max_peer_count a,
            ws_subscriber_limit = arg_ws_subscriber_limit a,
            sidecar = \<lparr> endpoint = unwrap_or [] (sidecar_endpoint a),
                        poll_timeout_ms = sidecar_poll_timeout_ms a,
                        max_retries = sidecar_max_retries a \<rparr> \<rparr>)"

definition builder_config_try_from ::
  "(op_rbuilder_args \<Rightarrow> string + 's) \<Rightarrow> op_rbuilder_args \<Rightarrow> string + 's builder_config" where
  "builder_config_try_from specific_try_from args =
     and_then (specific_try_from args) (\<lambda>sp. Inr
       \<lparr> cfg_builder_signer = arg_builder_signer args,
         flashtestations_config = arg_flashtestations args,
         revert_protection = enable_revert_protection args,
         block_time = from_millis (chain_block_time args),
         block_time_leeway = from_secs (extra_block_deadline_secs args),
         sampling_ratio = telemetry_sampling_ratio args,
         specific = sp,
         cfg_max_gas_per_txn = arg_max_gas_per_txn args,
         gas_limiter_config = arg_gas_limiter args \<rparr>)"

definition flashblocks_per_block :: "fb_config builder_config \<Rightarrow> string + u64" where
  "flashblocks_per_block cfg =
     (if as_millis (block_time cfg) = 0 then Inr 0
      else if as_millis (interval (specific cfg)) = 0 then Inl ''attempt to divide by zero''
      else Inr (of_nat (as_millis (block_time cfg) div as_millis (interval (specific cfg)))))"

section \<open>Model: timing\<close>

text \<open>The time left until a target, if it is at least a millisecond.\<close>

definition time_until :: "int \<Rightarrow> int \<Rightarrow> duration option" where
  "time_until target now =
     (if now \<le> target \<and> 0 < as_millis (nat (target - now)) then Some (nat (target - now)) else None)"

text \<open>The start of a slot: adding to the epoch panics when the seconds leave 63 bits.\<close>

definition slot_time :: "u64 \<Rightarrow> string + int" where
  "slot_time ts =
     (if unat ts < 2 ^ 63 then Inr (int (from_secs ts)) else Inl ''overflow when adding duration to instant'')"

text \<open>The division of the remaining milliseconds into flashblocks, which both functions end with.\<close>

definition split_remaining :: "u64 \<Rightarrow> u64 \<Rightarrow> string + u64 \<times> duration" where
  "split_remaining remaining ival =
     (if ival = 0 then Inl ''attempt to calculate the remainder with a divisor of zero''
      else
        let first_flashblock_offset = remaining mod ival in
        if first_flashblock_offset = 0 then Inr (remaining div ival, from_millis ival)
        else Inr (remaining div ival + 1, from_millis first_flashblock_offset))"

definition calculate_flashblocks ::
  "fb_config builder_config \<Rightarrow> int \<Rightarrow> u64 \<Rightarrow> string + u64 \<times> duration" where
  "calculate_flashblocks cfg now ts =
     (let sp = specific cfg in
      if fixed sp then
        and_then (flashblocks_per_block cfg) (\<lambda>n.
          and_then (dur_sub (interval sp) (leeway_time sp)) (\<lambda>off. Inr (n, off)))
      else
        and_then (slot_time ts) (\<lambda>slot.
          case time_until (slot - int (leeway_time sp)) now of
            None \<Rightarrow> and_then (flashblocks_per_block cfg) (\<lambda>n. Inr (n, interval sp))
          | Some time_drift \<Rightarrow>
              split_remaining (of_nat (as_millis (min time_drift (block_time cfg))))
                (of_nat (as_millis (interval sp)))))"

record flashblocks_timing =
  ft_flashblocks_per_block :: u64
  ft_first_flashblock_offset :: duration
  ft_flashblocks_deadline :: duration

definition unsigned_abs :: "int \<Rightarrow> u64" where
  "unsigned_abs x = of_int \<bar>x\<bar>"

definition calculate_flashblocks_timing ::
  "fb_config builder_config \<Rightarrow> int \<Rightarrow> u64 \<Rightarrow> string + flashblocks_timing" where
  "calculate_flashblocks_timing cfg now ts =
     (let sp = specific cfg;
          offset_delta = from_millis (unsigned_abs (send_offset_ms sp)) in
      if fixed sp then
        and_then (flashblocks_per_block cfg) (\<lambda>n. Inr
          \<lparr> ft_flashblocks_per_block = n,
            ft_first_flashblock_offset =
              (if 0 < send_offset_ms sp then dur_saturating_add (interval sp) offset_delta
               else dur_saturating_sub (interval sp) offset_delta),
            ft_flashblocks_deadline = dur_saturating_sub (block_time cfg) (from_millis (end_buffer_ms sp)) \<rparr>)
      else
        and_then (slot_time ts) (\<lambda>slot.
          case time_until slot now of
            None \<Rightarrow>
              and_then (flashblocks_per_block cfg) (\<lambda>n. Inr
                \<lparr> ft_flashblocks_per_block = n, ft_first_flashblock_offset = interval sp,
                  ft_flashblocks_deadline =
                    dur_saturating_sub (block_time cfg) (from_millis (end_buffer_ms sp)) \<rparr>)
          | Some left \<Rightarrow>
              let remaining_time = of_nat (as_millis (min left (block_time cfg))) in
              and_then (split_remaining remaining_time (of_nat (as_millis (interval sp)))) (\<lambda>(n, offset).
                let deadline = from_millis (saturating_sub remaining_time (end_buffer_ms sp)) in
                Inr
                  \<lparr> ft_flashblocks_per_block = n,
                    ft_first_flashblock_offset =
                      (if 0 \<le> send_offset_ms sp then dur_saturating_add offset offset_delta
                       else dur_saturating_sub offset offset_delta),
                    ft_flashblocks_deadline =
                      (if 0 \<le> send_offset_ms sp then dur_saturating_add deadline offset_delta
                       else dur_saturating_sub deadline offset_delta) \<rparr>)))"

section \<open>Lemmas\<close>

text \<open>The arithmetic of the division, over the naturals.\<close>

lemma nat_tiles_exact:
  assumes "0 < (r :: nat)" "0 < i" "r mod i = 0"
  shows "1 \<le> r div i" "(r div i - 1) * i + i = r"
proof -
  obtain k where k: "r = i * k" using assms(3) by auto
  have "0 < k" using k assms(1) by (cases k) auto
  then obtain j where "k = Suc j" by (cases k) auto
  then show "1 \<le> r div i" "(r div i - 1) * i + i = r"
    using k assms(2) by (simp_all add: mult.commute)
qed

lemma nat_tiles_rest:
  assumes "0 < (i :: nat)" "r mod i \<noteq> 0" "r < n"
  shows "r div i + 1 < n" "r div i * i + r mod i = r"
proof -
  have "2 \<le> i" using assms(1,2) by (cases "i = 1") auto
  then have "r div i * 2 \<le> r div i * i" by (rule mult_le_mono2)
  also have "\<dots> \<le> r" by simp
  finally have "r div i * 2 \<le> r" .
  moreover have "0 < r" using assms(2) by (cases r) auto
  ultimately show "r div i + 1 < n"
    using assms(3) by (cases "r div i = 0") auto
  show "r div i * i + r mod i = r" by simp
qed

lemma split_remaining_tiles:
  assumes "remaining \<noteq> 0" "ival \<noteq> 0"
  obtains n off where "split_remaining remaining ival = Inr (n, off)"
    "1 \<le> unat n" "0 < off" "off \<le> from_millis ival"
    "(unat n - 1) * from_millis ival + off = from_millis remaining"
proof -
  let ?R = "unat remaining" and ?I = "unat ival"
  have pos: "0 < ?R" "0 < ?I" using assms by (simp_all add: unat_gt_0)
  have lt: "?R < 2 ^ 64" using unsigned_less [of remaining, where 'a = nat] by simp
  have r: "unat (remaining mod ival) = ?R mod ?I" by (rule unat_mod)
  have scale: "q * (i * 1000000) + t * 1000000 = (q * i + t) * 1000000" for q i t :: nat
    by (simp add: algebra_simps)
  show ?thesis
  proof (cases "?R mod ?I = 0")
    case True
    then have "remaining mod ival = 0" using r by (simp add: unat_eq_0)
    then have split: "split_remaining remaining ival = Inr (remaining div ival, from_millis ival)"
      using assms(2) by (simp add: split_remaining_def)
    show ?thesis
    proof (rule that [OF split])
      show "(unat (remaining div ival) - 1) * from_millis ival + from_millis ival = from_millis remaining"
        unfolding from_millis_def scale unat_div nat_tiles_exact(2) [OF pos True] ..
    qed (use nat_tiles_exact(1) [OF pos True] pos in \<open>simp_all add: unat_div from_millis_def\<close>)
  next
    case False
    then have "remaining mod ival \<noteq> 0" using r by (metis unat_0)
    then have split: "split_remaining remaining ival = Inr (remaining div ival + 1, from_millis (remaining mod ival))"
      using assms(2) by (simp add: split_remaining_def)
    have n: "unat (remaining div ival + 1) = ?R div ?I + 1"
      using nat_tiles_rest(1) [OF pos(2) False lt] by (subst unat_add_no_wrap) (simp_all add: unat_div)
    show ?thesis
    proof (rule that [OF split])
      show "(unat (remaining div ival + 1) - 1) * from_millis ival + from_millis (remaining mod ival) = from_millis remaining"
        unfolding from_millis_def n r diff_add_inverse2 scale nat_tiles_rest(2) [OF pos(2) False lt] ..
      show "from_millis (remaining mod ival) \<le> from_millis ival"
        unfolding from_millis_def r using mod_less_divisor [OF pos(2), of ?R] by simp
    qed (use n r False in \<open>simp_all add: from_millis_def\<close>)
  qed
qed

text \<open>The configuration the timing is defined for: durations of at least a millisecond that fit 64 bits.\<close>

definition timing_config_ok :: "fb_config builder_config \<Rightarrow> bool" where
  "timing_config_ok cfg \<longleftrightarrow>
     0 < as_millis (interval (specific cfg)) \<and> as_millis (interval (specific cfg)) < 2 ^ 64 \<and>
     0 < as_millis (block_time cfg) \<and> as_millis (block_time cfg) < 2 ^ 64"

lemma as_millis_min: "as_millis (min a b) = min (as_millis a) (as_millis b)"
  by (cases "a \<le> b") (auto simp: as_millis_def min_def intro: antisym div_le_mono)

lemma time_until_Some:
  "time_until target now = Some d \<longleftrightarrow> now \<le> target \<and> d = nat (target - now) \<and> 0 < as_millis d"
  by (auto simp: time_until_def)

text \<open>The remaining milliseconds and the interval as the words the division works on.\<close>

lemma remaining_word:
  assumes "timing_config_ok cfg" "0 < as_millis d"
  shows "unat (of_nat (as_millis (min d (block_time cfg))) :: u64) = as_millis (min d (block_time cfg))"
    "(of_nat (as_millis (min d (block_time cfg))) :: u64) \<noteq> 0"
    "unat (of_nat (as_millis (interval (specific cfg))) :: u64) = as_millis (interval (specific cfg))"
    "(of_nat (as_millis (interval (specific cfg))) :: u64) \<noteq> 0"
proof -
  have bounds: "0 < as_millis (min d (block_time cfg))" "as_millis (min d (block_time cfg)) < 2 ^ 64"
    using assms by (auto simp: timing_config_ok_def as_millis_min)
  have i: "0 < as_millis (interval (specific cfg))" "as_millis (interval (specific cfg)) < 2 ^ 64"
    using assms by (auto simp: timing_config_ok_def)
  show r: "unat (of_nat (as_millis (min d (block_time cfg))) :: u64) = as_millis (min d (block_time cfg))"
    using bounds by (simp add: unat_of_nat)
  show i': "unat (of_nat (as_millis (interval (specific cfg))) :: u64) = as_millis (interval (specific cfg))"
    using i by (simp add: unat_of_nat)
  show "(of_nat (as_millis (min d (block_time cfg))) :: u64) \<noteq> 0" using r bounds by (metis unat_0 less_irrefl)
  show "(of_nat (as_millis (interval (specific cfg))) :: u64) \<noteq> 0" using i' i by (metis unat_0 less_irrefl)
qed

section \<open>Properties\<close>

text \<open>C18: The flashblocks of a block tile the time that is left. When the payload request arrives in time, with
  \<open>left\<close> nanoseconds to go, there is at least one flashblock, the first one is due after at most one
  interval, and the first one together with one interval for each further flashblock is exactly the whole
  milliseconds left (at most the block time).\<close>

theorem flashblocks_tile_remaining_time:
  assumes "timing_config_ok cfg" and "\<not> fixed (specific cfg)" and "unat ts < 2 ^ 63"
    and "time_until (int (from_secs ts) - int (leeway_time (specific cfg))) now = Some left"
  shows "\<exists>n off. calculate_flashblocks cfg now ts = Inr (n, off) \<and> 1 \<le> unat n \<and> 0 < off \<and>
    off \<le> as_millis (interval (specific cfg)) * 1000000 \<and>
    (unat n - 1) * (as_millis (interval (specific cfg)) * 1000000) + off =
      as_millis (min left (block_time cfg)) * 1000000"
proof -
  have pos: "0 < as_millis left" using assms(4) unfolding time_until_Some by blast
  obtain n off where "split_remaining (of_nat (as_millis (min left (block_time cfg))))
      (of_nat (as_millis (interval (specific cfg)))) = Inr (n, off)"
    "1 \<le> unat n" "0 < off" "off \<le> from_millis (of_nat (as_millis (interval (specific cfg))))"
    "(unat n - 1) * from_millis (of_nat (as_millis (interval (specific cfg)))) + off =
       from_millis (of_nat (as_millis (min left (block_time cfg))))"
    using split_remaining_tiles [OF remaining_word(2,4) [OF assms(1) pos]] by blast
  then show ?thesis
    using assms(2-4) remaining_word(1,3) [OF assms(1) pos]
    by (simp add: calculate_flashblocks_def slot_time_def Let_def from_millis_def)
qed

theorem flashblocks_tile_remaining_time_witness:
  "\<exists>n off. calculate_flashblocks
      (builder_config_default fb_config_default
         \<lparr> gas_limiter_enabled = False, max_gas_per_address = 0, refill_rate_per_block = 0, cleanup_interval = 0 \<rparr>)
      (int 9400000000) 10 = Inr (n, off) \<and> (unat n - 1) * 250000000 + off = 600000000"
proof -
  let ?cfg = "builder_config_default fb_config_default
     \<lparr> gas_limiter_enabled = False, max_gas_per_address = 0, refill_rate_per_block = 0, cleanup_interval = 0 \<rparr>"
  have "timing_config_ok ?cfg" "\<not> fixed (specific ?cfg)" "unat (10 :: u64) < 2 ^ 63"
    "time_until (int (from_secs 10) - int (leeway_time (specific ?cfg))) (int 9400000000) = Some 600000000"
    by (simp_all add: timing_config_ok_def builder_config_default_def fb_config_default_def from_millis_def
        from_secs_def as_millis_def time_until_def)
  from flashblocks_tile_remaining_time [OF this] show ?thesis
    by (auto simp: builder_config_default_def fb_config_default_def from_millis_def from_secs_def as_millis_def)
qed

lemma timing_value:
  assumes "timing_config_ok cfg" "\<not> fixed (specific cfg)" "unat ts < 2 ^ 63" "time_until (int (from_secs ts)) now = Some left"
  obtains n off where "1 \<le> unat n"
    "(unat n - 1) * (as_millis (interval (specific cfg)) * 1000000) + off = as_millis (min left (block_time cfg)) * 1000000"
    "calculate_flashblocks_timing cfg now ts =
       (let delta = from_millis (unsigned_abs (send_offset_ms (specific cfg)));
            deadline = (as_millis (min left (block_time cfg)) - unat (end_buffer_ms (specific cfg))) * 1000000 in
        Inr \<lparr> ft_flashblocks_per_block = n,
              ft_first_flashblock_offset =
                (if 0 \<le> send_offset_ms (specific cfg) then dur_saturating_add off delta else dur_saturating_sub off delta),
              ft_flashblocks_deadline =
                (if 0 \<le> send_offset_ms (specific cfg) then dur_saturating_add deadline delta
                 else dur_saturating_sub deadline delta) \<rparr>)"
proof -
  have pos: "0 < as_millis left" using assms(4) unfolding time_until_Some by blast
  note word = remaining_word [OF assms(1) pos]
  obtain n off where split: "split_remaining (of_nat (as_millis (min left (block_time cfg))))
      (of_nat (as_millis (interval (specific cfg)))) = Inr (n, off)"
    and n: "1 \<le> unat n" and tile: "(unat n - 1) * from_millis (of_nat (as_millis (interval (specific cfg)))) + off =
       from_millis (of_nat (as_millis (min left (block_time cfg))))"
    using split_remaining_tiles [OF word(2,4)] by blast
  show ?thesis
  proof (rule that [OF n])
    show "(unat n - 1) * (as_millis (interval (specific cfg)) * 1000000) + off = as_millis (min left (block_time cfg)) * 1000000"
      using tile unfolding from_millis_def word(1,3) .
  qed (use assms(2-4) split word(1) in
      \<open>simp add: calculate_flashblocks_timing_def slot_time_def Let_def from_millis_def unat_saturating_sub\<close>)
qed

text \<open>The newer timing function places the flashblocks against the deadline: unless the send offset is so
  large that a duration is cut at its smallest or largest value, the last flashblock is due exactly the end
  buffer after the deadline.\<close>

theorem flashblocks_timing_meets_deadline:
  assumes "timing_config_ok cfg" and "\<not> fixed (specific cfg)" and "unat ts < 2 ^ 63"
    and "time_until (int (from_secs ts)) now = Some left"
    and "calculate_flashblocks_timing cfg now ts = Inr t"
    and "unat (end_buffer_ms (specific cfg)) \<le> as_millis (min left (block_time cfg))"
    and "0 \<le> send_offset_ms (specific cfg) \<Longrightarrow>
      as_millis (min left (block_time cfg)) * 1000000 + from_millis (unsigned_abs (send_offset_ms (specific cfg))) \<le> dur_max"
    and "send_offset_ms (specific cfg) < 0 \<Longrightarrow> 0 < ft_first_flashblock_offset t \<and> 0 < ft_flashblocks_deadline t"
  shows "1 \<le> unat (ft_flashblocks_per_block t) \<and>
    ft_first_flashblock_offset t + (unat (ft_flashblocks_per_block t) - 1) * (as_millis (interval (specific cfg)) * 1000000) =
      ft_flashblocks_deadline t + from_millis (end_buffer_ms (specific cfg))"
proof -
  let ?delta = "from_millis (unsigned_abs (send_offset_ms (specific cfg)))"
  let ?i = "as_millis (interval (specific cfg)) * 1000000"
  let ?r = "as_millis (min left (block_time cfg))" and ?b = "unat (end_buffer_ms (specific cfg))"
  obtain n off where n: "1 \<le> unat n" and tile: "(unat n - 1) * ?i + off = ?r * 1000000"
    and timing: "calculate_flashblocks_timing cfg now ts =
       (let delta = ?delta; deadline = (?r - ?b) * 1000000 in
        Inr \<lparr> ft_flashblocks_per_block = n,
              ft_first_flashblock_offset =
                (if 0 \<le> send_offset_ms (specific cfg) then dur_saturating_add off delta else dur_saturating_sub off delta),
              ft_flashblocks_deadline =
                (if 0 \<le> send_offset_ms (specific cfg) then dur_saturating_add deadline delta
                 else dur_saturating_sub deadline delta) \<rparr>)"
    by (rule timing_value [OF assms(1-4)])
  have t: "t = \<lparr> ft_flashblocks_per_block = n,
        ft_first_flashblock_offset =
          (if 0 \<le> send_offset_ms (specific cfg) then dur_saturating_add off ?delta else dur_saturating_sub off ?delta),
        ft_flashblocks_deadline =
          (if 0 \<le> send_offset_ms (specific cfg) then dur_saturating_add ((?r - ?b) * 1000000) ?delta
           else dur_saturating_sub ((?r - ?b) * 1000000) ?delta) \<rparr>"
    using assms(5) unfolding timing Let_def sum.inject by (rule sym)
  have buf: "(?r - ?b) * 1000000 + ?b * 1000000 = ?r * 1000000"
    using assms(6) by (simp flip: distrib_right)
  show ?thesis
  proof (cases "0 \<le> send_offset_ms (specific cfg)")
    case True
    have "off + ?delta \<le> dur_max" "(?r - ?b) * 1000000 + ?delta \<le> dur_max"
      using assms(7) [OF True] tile buf by linarith+
    moreover have "off + ?delta + (unat n - 1) * ?i = (?r - ?b) * 1000000 + ?delta + ?b * 1000000"
      using tile buf by linarith
    ultimately show ?thesis
      using True n by (simp add: t dur_saturating_add_def from_millis_def [of "end_buffer_ms (specific cfg)"])
  next
    case False
    have "?delta < off" "?delta < (?r - ?b) * 1000000"
      using assms(8) False by (simp_all add: t dur_saturating_sub_def)
    then have "off - ?delta + (unat n - 1) * ?i = (?r - ?b) * 1000000 - ?delta + ?b * 1000000"
      using tile buf by linarith
    then show ?thesis
      using False n by (simp add: t dur_saturating_sub_def from_millis_def [of "end_buffer_ms (specific cfg)"])
  qed
qed

theorem flashblocks_timing_meets_deadline_witness:
  "\<exists>t. calculate_flashblocks_timing
      (builder_config_default fb_config_default
         \<lparr> gas_limiter_enabled = False, max_gas_per_address = 0, refill_rate_per_block = 0, cleanup_interval = 0 \<rparr>)
      (int 9400000000) 10 = Inr t \<and>
    ft_first_flashblock_offset t + (unat (ft_flashblocks_per_block t) - 1) * 250000000 = ft_flashblocks_deadline t"
proof -
  let ?cfg = "builder_config_default fb_config_default
     \<lparr> gas_limiter_enabled = False, max_gas_per_address = 0, refill_rate_per_block = 0, cleanup_interval = 0 \<rparr>"
  note cfg_defs = builder_config_default_def fb_config_default_def from_millis_def from_secs_def as_millis_def
  have hyps: "timing_config_ok ?cfg" "\<not> fixed (specific ?cfg)" "unat (10 :: u64) < 2 ^ 63"
    "time_until (int (from_secs 10)) (int 9400000000) = Some 600000000"
    by (simp_all add: timing_config_ok_def time_until_def cfg_defs)
  obtain t where t: "calculate_flashblocks_timing ?cfg (int 9400000000) 10 = Inr t"
    by (rule timing_value [OF hyps]) (simp add: Let_def)
  have "unat (end_buffer_ms (specific ?cfg)) \<le> as_millis (min 600000000 (block_time ?cfg))"
    "0 \<le> send_offset_ms (specific ?cfg) \<Longrightarrow>
      as_millis (min 600000000 (block_time ?cfg)) * 1000000 + from_millis (unsigned_abs (send_offset_ms (specific ?cfg))) \<le> dur_max"
    "send_offset_ms (specific ?cfg) < 0 \<Longrightarrow> 0 < ft_first_flashblock_offset t \<and> 0 < ft_flashblocks_deadline t"
    by (simp_all add: cfg_defs dur_max_def unsigned_abs_def)
  from flashblocks_timing_meets_deadline [OF hyps t this] t show ?thesis
    by (auto simp: cfg_defs)
qed

end
