(* ===== verification/Fb_Payload.thy ===== *)
theory Fb_Payload
  imports Fb_Block Builder_Tx Execution_Props Fb_Timing
begin

text \<open>
  \<^verbatim>\<open>builders/flashblocks/payload.rs\<close>: the build of a block as a sequence of flashblocks. A
  fallback block holds the sequencer's transactions; each signal of a timer then adds a flashblock with
  transactions of the pool, of the sidecar and of the builder. What the environment answers while a
  flashblock is built (the pool's iterator, the sidecar's replies, cancellation, the outcome of publishing and
  of handing the payload over) comes with the signal. A value \<^const>\<open>None\<close> is a build
  that never returns. Errors keep their cause; the context added around them is dropped.
\<close>

section \<open>Model: flashblock context\<close>

record fb_extra_ctx =
  fx_flashblock_index :: u64
  fx_target_flashblock_count :: u64
  fx_target_gas_for_batch :: u64
  fx_target_da_for_batch :: "u64 option"
  fx_target_da_footprint_for_batch :: "u64 option"
  fx_gas_per_batch :: u64
  fx_da_per_batch :: "u64 option"
  fx_da_footprint_per_batch :: "u64 option"
  fx_disable_state_root :: bool

definition fb_extra_ctx_default :: fb_extra_ctx where
  "fb_extra_ctx_default =
     \<lparr> fx_flashblock_index = 0, fx_target_flashblock_count = 0, fx_target_gas_for_batch = 0,
       fx_target_da_for_batch = None, fx_target_da_footprint_for_batch = None, fx_gas_per_batch = 0,
       fx_da_per_batch = None, fx_da_footprint_per_batch = None, fx_disable_state_root = False \<rparr>"

definition fb_next :: "fb_extra_ctx \<Rightarrow> u64 \<Rightarrow> u64 option \<Rightarrow> u64 option \<Rightarrow> fb_extra_ctx" where
  "fb_next x gas da footprint =
     x \<lparr> fx_flashblock_index := fx_flashblock_index x + 1, fx_target_gas_for_batch := gas,
         fx_target_da_for_batch := da, fx_target_da_footprint_for_batch := footprint \<rparr>"

type_synonym ('db, 'st) fb_ctx = "('db, 'st, fb_extra_ctx) op_ctx"

definition flashblock_index :: "('db, 'st) fb_ctx \<Rightarrow> u64" where
  "flashblock_index ctx = fx_flashblock_index (extra_ctx ctx)"

definition target_flashblock_count :: "('db, 'st) fb_ctx \<Rightarrow> u64" where
  "target_flashblock_count ctx = fx_target_flashblock_count (extra_ctx ctx)"

definition is_first_flashblock :: "('db, 'st) fb_ctx \<Rightarrow> bool" where
  "is_first_flashblock ctx = (flashblock_index ctx = 0)"

definition is_last_flashblock :: "('db, 'st) fb_ctx \<Rightarrow> bool" where
  "is_last_flashblock ctx = (flashblock_index ctx = target_flashblock_count ctx)"

section \<open>Model: the builder and its environment\<close>

record next_block_env_attrs =
  nb_timestamp :: u64
  nb_suggested_fee_recipient :: address
  nb_prev_randao :: b256
  nb_gas_limit :: u64
  nb_parent_beacon_block_root :: "b256 option"
  nb_extra_data :: bytes

text \<open>The fields of the builder, the node's functions among them.\<close>

record ('db, 'st, 'i) fb_builder =
  fb_config_of :: "fb_config builder_config"
  fb_evm :: "('db, 'st) evm_ops"
  fb_block_ops :: "'db block_ops"
  fb_chain_spec :: chain_spec
  fb_max_da_tx_size :: "u64 option"
  fb_max_da_block_size :: "u64 option"
  fb_gas_limit_config :: "u64 option"
  fb_builder_signer :: "address option"
  fb_feature_interop :: bool
  fb_builder_tx :: "('db, 'st, fb_extra_ctx, fb_execution_info) simulate_builder_txs"
  fb_pool :: "'i payload_txs"
  fb_next_evm_env :: "parent_header \<Rightarrow> next_block_env_attrs \<Rightarrow> string + block_env"
  fb_state_by_block_hash :: "b256 \<Rightarrow> string + 'db"
  fb_pre_execution :: "parent_header \<Rightarrow> next_block_env_attrs \<Rightarrow> 'db \<Rightarrow> string + 'db"
  fb_transition_state :: "'db \<Rightarrow> (address \<times> transition_account) list option"
  fb_address_to_string :: "address \<Rightarrow> string"

text \<open>A signal to build a flashblock, with what happens while it is built.\<close>

record 'i fb_signal =
  sg_cancel :: "nat \<Rightarrow> bool"
  sg_pool :: 'i
  sg_http :: "poll_request \<Rightarrow> nat \<Rightarrow> string + poll_response"
  sg_cancelled_after_pool :: bool
  sg_cancelled_after_build :: bool
  sg_publish :: "string + nat"
  sg_try_send :: "string + unit"

text \<open>What a build leaves behind: the rate limiter, the best payload, the flashblocks published on the websocket
  and the payloads handed to the payload handler.\<close>

record fb_out =
  fo_limiter :: address_gas_limiter
  fo_best_payload :: "built_payload option"
  fo_published :: "fb_payload list"
  fo_sent :: "built_payload list"

record ('db, 'i) fb_state =
  fs_seq :: "('db, fb_execution_info) seq_state"
  fs_best :: "'i best_flashblocks_txs"
  fs_out :: fb_out

definition next_block_env :: "chain_spec \<Rightarrow> payload_attrs \<Rightarrow> parent_header \<Rightarrow> string + next_block_env_attrs" where
  "next_block_env cspec attrs par =
     (let ts = at_timestamp attrs in
      and_then (if jovian_at cspec ts then get_jovian_extra_data attrs (base_fee_params_at cspec ts)
                else if holocene_at cspec ts then get_holocene_extra_data attrs (base_fee_params_at cspec ts)
                else Inr []) (\<lambda>ed. Inr
        \<lparr> nb_timestamp = ts, nb_suggested_fee_recipient = at_fee_recipient attrs,
          nb_prev_randao = at_prev_randao attrs,
          nb_gas_limit = unwrap_or (ph_gas_limit par) (at_gas_limit attrs),
          nb_parent_beacon_block_root = at_parent_beacon_root attrs, nb_extra_data = ed \<rparr>))"

definition get_op_payload_builder_ctx ::
  "('db, 'st, 'i) fb_builder \<Rightarrow> payload_attrs \<Rightarrow> parent_header \<Rightarrow> (nat \<Rightarrow> bool) \<Rightarrow> fb_extra_ctx
   \<Rightarrow> payload_error + ('db, 'st) fb_ctx" where
  "get_op_payload_builder_ctx b attrs par cancelled x =
     map_err OtherError (
       and_then (next_block_env (fb_chain_spec b) attrs par) (\<lambda>block_env_attributes.
       and_then (fb_next_evm_env b par block_env_attributes) (\<lambda>evm_env. Inr
         \<lparr> evm = fb_evm b, max_da_tx_size = fb_max_da_tx_size b, gas_limit_config = fb_gas_limit_config b,
           spec = fb_chain_spec b, attributes = attrs, parent = par, env = evm_env, cancel = cancelled,
           builder_signer = fb_builder_signer b, extra_ctx = x,
           max_gas_per_txn = cfg_max_gas_per_txn (fb_config_of b), feature_interop = fb_feature_interop b \<rparr>)))"

section \<open>Model: one flashblock\<close>

text \<open>The targets of the flashblock, less what the builder's bottom transactions will need.\<close>

definition reserved_limits :: "fb_extra_ctx \<Rightarrow> u16 option \<Rightarrow> builder_tx_ctx list \<Rightarrow> exec_limits" where
  "reserved_limits x scalar builder_txs =
     (let pending = filter (\<lambda>tx. \<not> bt_is_top_of_block tx) builder_txs;
          builder_tx_gas = fold (\<lambda>tx acc. acc + bt_gas_used tx) pending 0;
          builder_tx_da_size = fold (\<lambda>tx acc. acc + bt_da_size tx) pending 0 in
      \<lparr> lim_gas = saturating_sub (fx_target_gas_for_batch x) builder_tx_gas,
        lim_da = map_option (\<lambda>da_limit. saturating_sub da_limit builder_tx_da_size) (fx_target_da_for_batch x),
        lim_da_footprint =
          (case (fx_target_da_footprint_for_batch x, scalar) of
             (Some footprint, Some sc) \<Rightarrow>
               Some (saturating_sub footprint (saturating_mul builder_tx_da_size (ucast sc)))
           | (footprint, _) \<Rightarrow> footprint) \<rparr>)"

text \<open>The limits of the executors: gas also stays below the limit of the block.\<close>

definition batch_limits :: "('db, 'st) fb_ctx \<Rightarrow> exec_limits \<Rightarrow> exec_limits" where
  "batch_limits ctx lims = lims \<lparr> lim_gas := min (lim_gas lims) (block_gas_limit ctx) \<rparr>"

text \<open>The pool: refresh the iterator, execute, mark what the flashblock has so far as committed.\<close>

definition fb_execute_pool ::
  "('db, 'st, 'i) fb_builder \<Rightarrow> ('db, 'st) fb_ctx \<Rightarrow> 'i fb_signal \<Rightarrow> exec_limits \<Rightarrow> ('db, 'i) fb_state
   \<Rightarrow> ((payload_error + unit) \<times> ('db, 'i) fb_state) option" where
  "fb_execute_pool b ctx sg lims s =
     map_option (\<lambda>(r, es).
       let s' = s \<lparr> fs_seq := \<lparr> ss_info = es_info es, ss_db = es_db es \<rparr>, fs_best := es_iter es,
                    fs_out := (fs_out s) \<lparr> fo_limiter := es_limiter es \<rparr> \<rparr>;
           idx = last_flashblock_index (extra (es_info es)) in
       case r of
         Inl e \<Rightarrow> (Inl e, s')
       | Inr _ \<Rightarrow>
           if length (executed_transactions (es_info es)) < idx
           then (Inl (Panic ''range start index out of range''), s')
           else (Inr (), s' \<lparr> fs_best := mark_commited (fs_best s')
                              (map tx_hash (drop idx (executed_transactions (es_info es)))) \<rparr>))
     (execute_best_transactions ctx (best_txs_ops (fb_pool b)) (batch_limits ctx lims)
        \<lparr> es_info = ss_info (fs_seq s), es_db = ss_db (fs_seq s),
          es_iter = refresh_iterator (fs_best s) (sg_pool sg) (flashblock_index ctx),
          es_limiter = fo_limiter (fs_out s), es_cancel_polls = 0, es_counters = zero_counters \<rparr>)"

text \<open>The request to the sidecar: an enabled sidecar gets the pending state, unless that is empty.\<close>

definition fb_poll_request ::
  "('db, 'st, 'i) fb_builder \<Rightarrow> ('db, 'st) fb_ctx \<Rightarrow> exec_limits \<Rightarrow> u64 \<Rightarrow> ('db, fb_execution_info) seq_state
   \<Rightarrow> poll_request" where
  "fb_poll_request b ctx lims gas_before_sidecar s =
     (let pool_gas_used = saturating_sub (cumulative_gas_used (ss_info s)) gas_before_sidecar;
          overrides = build_state_overrides (fb_address_to_string b) (fb_transition_state b (ss_db s));
          state_overrides =
            (if is_enabled (sidecar (specific (fb_config_of b)))
             then (case overrides of
                     JObject m \<Rightarrow> if m = [] then None else Some overrides
                   | _ \<Rightarrow> None)
             else None) in
      \<lparr> pr_chain_id = chain_id ctx, pr_block_number = block_number ctx, pr_flashblock_index = flashblock_index ctx,
        pr_state_root = ph_state_root (parent ctx), pr_timestamp = timestamp ctx,
        pr_gas_limit = saturating_sub (lim_gas lims) pool_gas_used, pr_state_overrides = state_overrides \<rparr>)"

text \<open>The sidecar: a failed poll is only logged, a failed execution ends the build.\<close>

definition fb_execute_sidecar ::
  "('db, 'st, 'i) fb_builder \<Rightarrow> ('db, 'st) fb_ctx \<Rightarrow> 'i fb_signal \<Rightarrow> exec_limits \<Rightarrow> u64
   \<Rightarrow> ('db, fb_execution_info) seq_state
   \<Rightarrow> ((payload_error + unit) \<times> ('db, fb_execution_info) seq_state) option" where
  "fb_execute_sidecar b ctx sg lims gas_before_sidecar s =
     map_option (\<lambda>(reply, tr).
       case reply of
         Inr (Some external_txs) \<Rightarrow>
           if external_txs \<noteq> [] then execute_sidecar_transactions ctx (batch_limits ctx lims) external_txs s
           else (Inr (), s)
       | _ \<Rightarrow> (Inr (), s))
     (poll_transactions (sg_http sg (fb_poll_request b ctx lims gas_before_sidecar s))
        (sidecar (specific (fb_config_of b))))"

text \<open>The targets of the next flashblock.\<close>

definition next_targets :: "fb_extra_ctx \<Rightarrow> exec_limits \<Rightarrow> fb_extra_ctx" where
  "next_targets x lims =
     (let da = (case fx_da_per_batch x of
                  None \<Rightarrow> lim_da lims
                | Some da_limit \<Rightarrow> map_option (\<lambda>da. da + da_limit) (lim_da lims));
          gas = fx_target_gas_for_batch x + fx_gas_per_batch x;
          footprint = (case (lim_da_footprint lims, fx_da_footprint_per_batch x) of
                         (Some footprint, Some da_footprint_limit) \<Rightarrow> Some (footprint + da_footprint_limit)
                       | (footprint, _) \<Rightarrow> footprint) in
      fb_next x gas da footprint)"

text \<open>Publish, hand over, store; each step only if the one before succeeded.\<close>

definition fb_emit ::
  "('db, 'st) fb_ctx \<Rightarrow> 'i fb_signal \<Rightarrow> exec_limits \<Rightarrow> built_payload \<Rightarrow> fb_payload \<Rightarrow> fb_out
   \<Rightarrow> (payload_error + fb_extra_ctx option) \<times> fb_out" where
  "fb_emit ctx sg lims new_payload message out =
     (if sg_cancelled_after_build sg then (Inr None, out)
      else
        let message' = message \<lparr> fb_index := flashblock_index ctx, fb_base := None \<rparr> in
        case sg_publish sg of
          Inl e \<Rightarrow> (Inl (OtherError e), out)
        | Inr _ \<Rightarrow>
            let out1 = out \<lparr> fo_published := fo_published out @ [message'] \<rparr> in
            (case sg_try_send sg of
               Inl e \<Rightarrow> (Inl (OtherError e), out1)
             | Inr _ \<Rightarrow>
                 (Inr (Some (next_targets (extra_ctx ctx) lims)),
                  out1 \<lparr> fo_sent := fo_sent out1 @ [new_payload], fo_best_payload := Some new_payload \<rparr>)))"

text \<open>After the sidecar: the builder's bottom transactions, the block, and its publication.\<close>

definition fb_finish ::
  "('db, 'st, 'i) fb_builder \<Rightarrow> ('db, 'st) fb_ctx \<Rightarrow> 'i fb_signal \<Rightarrow> exec_limits \<Rightarrow> ('db, 'i) fb_state
   \<Rightarrow> (payload_error + fb_extra_ctx option) \<times> ('db, 'i) fb_state" where
  "fb_finish b ctx sg lims s =
     (let s1 = snd (add_builder_txs (fb_builder_tx b) ctx False (fs_seq s));
          (build_result, s2) = build_block (fb_block_ops b) ctx
             (\<not> fx_disable_state_root (extra_ctx ctx) \<or> at_no_tx_pool (attributes ctx)) s1 in
      case build_result of
        Inl e \<Rightarrow> (Inl e, s \<lparr> fs_seq := s2 \<rparr>)
      | Inr (new_payload, message) \<Rightarrow>
          let (r, out) = fb_emit ctx sg lims new_payload message (fs_out s) in
          (r, s \<lparr> fs_seq := s2, fs_out := out \<rparr>))"

definition build_next_flashblock ::
  "('db, 'st, 'i) fb_builder \<Rightarrow> ('db, 'st) fb_ctx \<Rightarrow> 'i fb_signal \<Rightarrow> ('db, 'i) fb_state
   \<Rightarrow> ((payload_error + fb_extra_ctx option) \<times> ('db, 'i) fb_state) option" where
  "build_next_flashblock b ctx sg s =
     (let (added, s1) = add_builder_txs (fb_builder_tx b) ctx True (fs_seq s);
          builder_txs = (case added of Inl e \<Rightarrow> [] | Inr txs \<Rightarrow> txs);
          lims = reserved_limits (extra_ctx ctx) (da_footprint_scalar (ss_info s1)) builder_txs;
          gas_before_sidecar = cumulative_gas_used (ss_info s1) in
      case fb_execute_pool b ctx sg lims (s \<lparr> fs_seq := s1 \<rparr>) of
        None \<Rightarrow> None
      | Some (Inl e, s2) \<Rightarrow> Some (Inl e, s2)
      | Some (Inr _, s2) \<Rightarrow>
          if sg_cancelled_after_pool sg then Some (Inr None, s2)
          else
            (case fb_execute_sidecar b ctx sg lims gas_before_sidecar (fs_seq s2) of
               None \<Rightarrow> None
             | Some (Inl e, s3) \<Rightarrow> Some (Inl e, s2 \<lparr> fs_seq := s3 \<rparr>)
             | Some (Inr _, s3) \<Rightarrow> Some (fb_finish b ctx sg lims (s2 \<lparr> fs_seq := s3 \<rparr>))))"

section \<open>Model: the block\<close>

definition execute_pre_steps ::
  "('db, 'st, 'i) fb_builder \<Rightarrow> ('db, 'st) fb_ctx \<Rightarrow> 'db
   \<Rightarrow> payload_error + ('db, fb_execution_info) seq_state" where
  "execute_pre_steps b ctx db =
     and_then (map_err OtherError (and_then (next_block_env (spec ctx) (attributes ctx) (parent ctx))
                 (\<lambda>a. fb_pre_execution b (parent ctx) a db))) (\<lambda>db1.
       case execute_sequencer_transactions ctx \<lparr> last_flashblock_index = 0 \<rparr> db1 of
         (Inl e, _) \<Rightarrow> Inl e
       | (Inr info, db2) \<Rightarrow> Inr \<lparr> ss_info = info, ss_db = db2 \<rparr>)"

text \<open>The arguments of a build: the job and what the environment answers. The end of the list of signals
  is the closed channel.\<close>

record 'i fb_job =
  jb_attributes :: payload_attrs
  jb_parent :: parent_header
  jb_now :: int
  jb_block_cancel :: "nat \<Rightarrow> bool"
  jb_pool :: 'i
  jb_try_send :: "string + unit"
  jb_publish :: "string + nat"
  jb_signals :: "'i fb_signal list"

definition derive_timing :: "fb_config builder_config \<Rightarrow> int \<Rightarrow> u64 \<Rightarrow> string + u64 \<times> duration \<times> duration" where
  "derive_timing cfg now ts =
     (if build_at_interval_end (specific cfg)
      then and_then (calculate_flashblocks_timing cfg now ts) (\<lambda>timing. Inr
             (ft_flashblocks_per_block timing, ft_first_flashblock_offset timing, ft_flashblocks_deadline timing))
      else and_then (calculate_flashblocks cfg now ts) (\<lambda>(n, offset). Inr (n, offset, block_time cfg)))"

text \<open>The first flashblock's targets: the limits of the block divided by the number of flashblocks.\<close>

definition first_targets ::
  "('db, 'st) fb_ctx \<Rightarrow> u64 option \<Rightarrow> bool \<Rightarrow> u16 option \<Rightarrow> u64 \<Rightarrow> payload_error + fb_extra_ctx" where
  "first_targets ctx max_da_block_size no_root scalar n =
     (if n = 0 then Inl (Panic ''attempt to divide by zero'')
      else
        let gas_per_batch = block_gas_limit ctx div n;
            da_per_batch = map_option (\<lambda>da_limit. da_limit div n) max_da_block_size;
            da_footprint_per_batch = map_option (\<lambda>_. block_gas_limit ctx div n) scalar in
        Inr \<lparr> fx_flashblock_index = 1, fx_target_flashblock_count = n, fx_target_gas_for_batch = gas_per_batch,
              fx_target_da_for_batch = da_per_batch, fx_target_da_footprint_for_batch = da_footprint_per_batch,
              fx_gas_per_batch = gas_per_batch, fx_da_per_batch = da_per_batch,
              fx_da_footprint_per_batch = da_footprint_per_batch, fx_disable_state_root = no_root \<rparr>)"

fun build_loop ::
  "('db, 'st, 'i) fb_builder \<Rightarrow> 'i fb_signal list \<Rightarrow> ('db, 'st) fb_ctx \<Rightarrow> ('db, 'i) fb_state
   \<Rightarrow> ((payload_error + unit) \<times> ('db, 'i) fb_state) option" where
  "build_loop b [] ctx s = Some (Inr (), s)"
| "build_loop b (sg # sgs) ctx s =
     (let ctx' = with_cancel ctx (sg_cancel sg) in
      if target_flashblock_count ctx' < flashblock_index ctx' then Some (Inr (), s)
      else case build_next_flashblock b ctx' sg s of
        None \<Rightarrow> None
      | Some (Inl e, s') \<Rightarrow> Some (Inl e, s')
      | Some (Inr None, s') \<Rightarrow> Some (Inr (), s')
      | Some (Inr (Some x), s') \<Rightarrow> build_loop b sgs (with_extra_ctx ctx' x) s')"

text \<open>The fallback block: handed over and stored first, published last.\<close>

definition build_fallback ::
  "('db, 'st, 'i) fb_builder \<Rightarrow> 'i fb_job \<Rightarrow> ('db, 'st) fb_ctx \<Rightarrow> fb_out
   \<Rightarrow> (payload_error + ('db, fb_execution_info) seq_state) \<times> fb_out" where
  "build_fallback b job ctx out =
     (case fb_state_by_block_hash b (ph_hash (parent ctx)) of
        Inl e \<Rightarrow> (Inl (OtherError e), out)
      | Inr db \<Rightarrow>
          let out1 = out \<lparr> fo_limiter := refresh (fo_limiter out) (block_number ctx) \<rparr> in
          case execute_pre_steps b ctx db of
            Inl e \<Rightarrow> (Inl e, out1)
          | Inr s \<Rightarrow>
              let no_tx_pool = at_no_tx_pool (attributes ctx);
                  s1 = (if \<not> no_tx_pool then snd (add_builder_txs (fb_builder_tx b) ctx False s) else s) in
              (case build_block (fb_block_ops b) ctx
                      (\<not> disable_state_root (specific (fb_config_of b)) \<or> no_tx_pool) s1 of
                 (Inl e, _) \<Rightarrow> (Inl e, out1)
               | (Inr (payload, message), s2) \<Rightarrow>
                   (case jb_try_send job of
                      Inl e \<Rightarrow> (Inl (OtherError e), out1)
                    | Inr _ \<Rightarrow>
                        let out2 = out1 \<lparr> fo_sent := fo_sent out1 @ [payload], fo_best_payload := Some payload \<rparr> in
                        if no_tx_pool then (Inr s2, out2)
                        else (case jb_publish job of
                                Inl e \<Rightarrow> (Inl (OtherError e), out2)
                              | Inr _ \<Rightarrow> (Inr s2, out2 \<lparr> fo_published := fo_published out2 @ [message] \<rparr>)))))"

definition build_payload ::
  "('db, 'st, 'i) fb_builder \<Rightarrow> 'i fb_job \<Rightarrow> address_gas_limiter \<Rightarrow> ((payload_error + unit) \<times> fb_out) option" where
  "build_payload b job limiter =
     (let cfg = fb_config_of b;
          no_root = disable_state_root (specific cfg);
          out0 = \<lparr> fo_limiter = limiter, fo_best_payload = None, fo_published = [], fo_sent = [] \<rparr> in
      case and_then (map_err Panic (flashblocks_per_block cfg)) (\<lambda>n.
             get_op_payload_builder_ctx b (jb_attributes job) (jb_parent job) (jb_block_cancel job)
               (fb_extra_ctx_default \<lparr> fx_target_flashblock_count := n, fx_disable_state_root := no_root \<rparr>)) of
        Inl e \<Rightarrow> Some (Inl e, out0)
      | Inr ctx \<Rightarrow>
          (case build_fallback b job ctx out0 of
             (Inl e, out) \<Rightarrow> Some (Inl e, out)
           | (Inr s, out) \<Rightarrow>
               if at_no_tx_pool (attributes ctx) then Some (Inr (), out)
               else
                 (case and_then (map_err Panic (derive_timing cfg (jb_now job) (at_timestamp (jb_attributes job))))
                         (\<lambda>(n, offset, deadline).
                           and_then (first_targets ctx (fb_max_da_block_size b) no_root
                                       (da_footprint_scalar (ss_info s)) n)
                             (get_op_payload_builder_ctx b (jb_attributes job) (jb_parent job) (jb_block_cancel job))) of
                    Inl e \<Rightarrow> Some (Inl e, out)
                  | Inr ctx' \<Rightarrow>
                      map_option (map_prod id fs_out)
                        (build_loop b (jb_signals job) ctx'
                           \<lparr> fs_seq = s, fs_best = best_new (jb_pool job), fs_out = out \<rparr>))))"

section \<open>Model: the timer\<close>

text \<open>The task that sends the signals. Tokens are numbered; a token is cancelled when its number is in the set.
  The channel takes a token unless the build has returned.\<close>

datatype timer_event = Tick | Deadline | BlockCancelled

record timer_state =
  tm_current :: nat
  tm_next :: nat
  tm_cancelled :: "nat list"
  tm_sent :: "nat list"
  tm_running :: bool

definition timer_send :: "bool \<Rightarrow> nat \<Rightarrow> timer_state \<Rightarrow> timer_state" where
  "timer_send receiver_open t s =
     (if receiver_open then s \<lparr> tm_sent := tm_sent s @ [t] \<rparr> else s \<lparr> tm_running := False \<rparr>)"

definition timer_start :: "bool \<Rightarrow> bool \<Rightarrow> timer_state" where
  "timer_start at_interval_end receiver_open =
     (let s = \<lparr> tm_current = 0, tm_next = 1, tm_cancelled = [], tm_sent = [], tm_running = True \<rparr> in
      if \<not> at_interval_end then timer_send receiver_open 0 s else s)"

definition timer_step :: "timer_state \<Rightarrow> timer_event \<times> bool \<Rightarrow> timer_state" where
  "timer_step s ev =
     (if \<not> tm_running s then s
      else case ev of
        (Tick, receiver_open) \<Rightarrow>
          timer_send receiver_open (tm_next s)
            (s \<lparr> tm_cancelled := tm_current s # tm_cancelled s, tm_current := tm_next s, tm_next := tm_next s + 1 \<rparr>)
      | (Deadline, receiver_open) \<Rightarrow>
          (timer_send receiver_open (tm_next s)
             (s \<lparr> tm_cancelled := tm_current s # tm_cancelled s, tm_next := tm_next s + 1 \<rparr>)) \<lparr> tm_running := False \<rparr>
      | (BlockCancelled, _) \<Rightarrow> s \<lparr> tm_running := False \<rparr>)"

definition timer_run :: "bool \<Rightarrow> bool \<Rightarrow> (timer_event \<times> bool) list \<Rightarrow> timer_state" where
  "timer_run at_interval_end receiver_open evs = foldl timer_step (timer_start at_interval_end receiver_open) evs"

end
