(* ===== verification/Fb_Invariant.thy ===== *)
theory Fb_Invariant
  imports Fb_Payload
begin

text \<open>
  What a flashblocks build gives out. The invariant of the build says that the record and the database are the
  result of executing the transactions of the record in order, and that the flashblocks published so far add up to
  the block that was last stored as the best payload. It is kept by every phase of a flashblock.
\<close>

section \<open>Executions\<close>

text \<open>The record holds the transactions that lead from one database to another.\<close>

definition executes :: "('db, 'st) evm_ops \<Rightarrow> 'db \<Rightarrow> 'x execution_info \<Rightarrow> 'db \<Rightarrow> bool" where
  "executes ops db0 info db \<longleftrightarrow>
     (\<exists>es. replay ops db0 (map fst es) = Some (db, map snd es) \<and>
           executed_transactions info = map (inner_tx \<circ> fst) es \<and>
           executed_senders info = map (signer \<circ> fst) es \<and>
           cumulative_gas_used info = (\<Sum>e \<leftarrow> es. gas_used (snd e)) \<and>
           length (receipts info) = length es)"

text \<open>A payload that can be executed: its block holds transactions that run on the database, with its senders,
  receipts and gas.\<close>

definition executable_payload :: "('db, 'st) evm_ops \<Rightarrow> 'db \<Rightarrow> built_payload \<Rightarrow> bool" where
  "executable_payload ops db0 p \<longleftrightarrow>
     (\<exists>es db. replay ops db0 (map fst es) = Some (db, map snd es) \<and>
           sb_transactions (bp_block p) = map (inner_tx \<circ> fst) es \<and>
           bp_senders p = map (signer \<circ> fst) es \<and>
           hd_gas_used (sb_header (bp_block p)) = (\<Sum>e \<leftarrow> es. gas_used (snd e)) \<and>
           length (bp_receipts p) = length es)"

definition any_tx :: "'x execution_info \<Rightarrow> recovered \<Rightarrow> exec_result \<Rightarrow> u64 \<Rightarrow> bool" where
  "any_tx info tx r da = True"

definition grows :: "('db, 'st, 'c) op_ctx \<Rightarrow> ('db, 'x) seq_state \<Rightarrow> ('db, 'x) seq_state \<Rightarrow> bool" where
  "grows ctx s s' \<longleftrightarrow> seq_includes ctx any_tx s s'"

lemma growsI:
  assumes "included ctx guard (ss_info s, ss_db s) es (ss_info s', ss_db s')"
  shows "grows ctx s s'"
  using included_mono [OF assms, of any_tx] by (auto simp: grows_def seq_includes_def any_tx_def)

lemma grows_refl: "grows ctx s s"
  by (simp add: grows_def seq_includes_refl)

lemma grows_trans: "grows ctx s t \<Longrightarrow> grows ctx t u \<Longrightarrow> grows ctx s u"
  unfolding grows_def by (rule seq_includes_trans)

lemma executes_included:
  assumes "executes (evm ctx) db0 info db" "included ctx guard (info, db) es (info', db')"
  shows "executes (evm ctx) db0 info' db'"
proof -
  obtain es0 where es0: "replay (evm ctx) db0 (map fst es0) = Some (db, map snd es0)"
    "executed_transactions info = map (inner_tx \<circ> fst) es0" "executed_senders info = map (signer \<circ> fst) es0"
    "cumulative_gas_used info = (\<Sum>e \<leftarrow> es0. gas_used (snd e))" "length (receipts info) = length es0"
    using assms(1) unfolding executes_def by blast
  have "replay (evm ctx) db0 (map fst (es0 @ es)) = Some (db', map snd (es0 @ es))"
    using es0(1) included_replay [OF assms(2)] by (simp add: replay_append)
  then show ?thesis
    unfolding executes_def using es0 included_lists [OF assms(2)]
    by (intro exI [of _ "es0 @ es"]) (auto simp: add.assoc)
qed

lemma grows_executes:
  "grows ctx s s' \<Longrightarrow> executes (evm ctx) db0 (ss_info s) (ss_db s) \<Longrightarrow> executes (evm ctx) db0 (ss_info s') (ss_db s')"
  by (auto simp: grows_def seq_includes_def intro: executes_included)

lemma grows_extends: "grows ctx s s' \<Longrightarrow> extends (ss_info s) (ss_info s')"
  by (auto simp: grows_def seq_includes_def dest: included_extends)

lemma executes_record:
  "executes ops db0 info db \<Longrightarrow> executes ops db0 (info \<lparr> extra := x \<rparr>) db"
  "executes ops db0 info db \<Longrightarrow> executes ops db0 (info \<lparr> da_footprint_scalar := v \<rparr>) db"
  by (simp_all add: executes_def)

section \<open>The phases of a flashblock only add transactions\<close>

text \<open>Simulating builder transactions reads the record and leaves it as it is.\<close>

definition simulation_pure :: "('db, 'st, 'c, 'x) simulate_builder_txs \<Rightarrow> bool" where
  "simulation_pure sim \<longleftrightarrow> (\<forall>info ctx db atop. snd (sim info ctx db atop) = info)"

lemma add_builder_grows:
  assumes "simulation_pure sim"
  shows "grows ctx s (snd (add_builder_txs sim ctx atop s))"
proof (cases "sim (ss_info s) ctx (ss_db s) atop")
  case (Pair r info)
  then have info: "info = ss_info s" using assms by (metis simulation_pure_def snd_conv)
  show ?thesis
  proof (cases r)
    case (Inl e)
    then show ?thesis using Pair info by (simp add: add_builder_txs_def grows_refl)
  next
    case (Inr btxs)
    then show ?thesis
      using add_builder_includes [of sim s ctx atop btxs info] Pair info by (auto intro: growsI)
  qed
qed

lemma pool_grows:
  assumes "fb_execute_pool b ctx sg lims s = Some (r, s')"
  shows "grows ctx (fs_seq s) (fs_seq s')" "fs_out s' = (fs_out s) \<lparr> fo_limiter := fo_limiter (fs_out s') \<rparr>"
proof -
  let ?i = "\<lparr> es_info = ss_info (fs_seq s), es_db = ss_db (fs_seq s),
      es_iter = refresh_iterator (fs_best s) (sg_pool sg) (flashblock_index ctx),
      es_limiter = fo_limiter (fs_out s), es_cancel_polls = 0, es_counters = zero_counters \<rparr>"
  obtain r' es where run: "execute_best_transactions ctx (best_txs_ops (fb_pool b)) (batch_limits ctx lims) ?i = Some (r', es)"
    using assms by (auto simp: fb_execute_pool_def)
  have seq: "fs_seq s' = \<lparr> ss_info = es_info es, ss_db = es_db es \<rparr>"
    and out: "fs_out s' = (fs_out s) \<lparr> fo_limiter := es_limiter es \<rparr>"
    using assms run by (cases r'; auto simp: fb_execute_pool_def Let_def split: if_splits)+
  show "grows ctx (fs_seq s) (fs_seq s')"
    using best_includes [OF run] seq by (auto intro: growsI)
  show "fs_out s' = (fs_out s) \<lparr> fo_limiter := fo_limiter (fs_out s') \<rparr>" using out by simp
qed

lemma sidecar_outcome:
  assumes "fb_execute_sidecar b ctx sg lims g s = Some (r, s')"
  shows "s' = s \<or> (\<exists>txs. s' = snd (execute_sidecar_transactions ctx (batch_limits ctx lims) txs s))"
proof -
  obtain reply tr where
    "poll_transactions (sg_http sg (fb_poll_request b ctx lims g s)) (sidecar (specific (fb_config_of b))) = Some (reply, tr)"
    using assms by (auto simp: fb_execute_sidecar_def)
  then have "(r, s') = (case reply of
       Inr (Some external_txs) \<Rightarrow>
         if external_txs \<noteq> [] then execute_sidecar_transactions ctx (batch_limits ctx lims) external_txs s
         else (Inr (), s)
     | _ \<Rightarrow> (Inr (), s))"
    using assms by (simp add: fb_execute_sidecar_def)
  then show ?thesis by (auto split: sum.splits option.splits if_splits dest: arg_cong [of _ _ snd])
qed

lemma sidecar_grows:
  assumes "fb_execute_sidecar b ctx sg lims g s = Some (r, s')"
  shows "grows ctx s s'"
  using sidecar_outcome [OF assms] sidecar_includes [of ctx "batch_limits ctx lims" s] by (auto intro: growsI grows_refl)

section \<open>The invariant of the build\<close>

text \<open>What has been given out: the flashblocks add up to the best payload, which is the last one handed over,
  and they are numbered from zero.\<close>

definition stream_ok :: "('db, 'st) evm_ops \<Rightarrow> 'db \<Rightarrow> built_payload \<Rightarrow> fb_out \<Rightarrow> bool" where
  "stream_ok ops db0 p out \<longleftrightarrow>
     fo_best_payload out = Some p \<and> executable_payload ops db0 p \<and>
     concat (map (fbd_transactions \<circ> fb_diff) (fo_published out)) = map encoded_2718 (sb_transactions (bp_block p)) \<and>
     fo_published out \<noteq> [] \<and> fbd_block_hash (fb_diff (last (fo_published out))) = sb_hash (bp_block p) \<and>
     map fb_index (fo_published out) = map of_nat [0..<length (fo_published out)] \<and>
     length (fo_sent out) = length (fo_published out) \<and> last (fo_sent out) = p"

definition fb_inv :: "('db, 'st) evm_ops \<Rightarrow> 'db \<Rightarrow> fb_extra_ctx \<Rightarrow> ('db, 'i) fb_state \<Rightarrow> bool" where
  "fb_inv ops db0 x s \<longleftrightarrow>
     executes ops db0 (ss_info (fs_seq s)) (ss_db (fs_seq s)) \<and>
     (\<exists>p. stream_ok ops db0 p (fs_out s) \<and>
          executed_transactions (ss_info (fs_seq s)) = sb_transactions (bp_block p)) \<and>
     last_flashblock_index (extra (ss_info (fs_seq s))) = length (executed_transactions (ss_info (fs_seq s))) \<and>
     fx_flashblock_index x = of_nat (length (fo_published (fs_out s)))"

lemma stream_ok_limiter:
  "out' = out \<lparr> fo_limiter := v \<rparr> \<Longrightarrow> stream_ok ops db0 p out \<Longrightarrow> stream_ok ops db0 p out'"
  by (simp add: stream_ok_def)

lemma build_block_executes:
  assumes "build_block blk ctx calc s = (Inr (p, m), s')" "restore_law blk"
    and "executes ops db0 (ss_info s) (ss_db s)"
  shows "executes ops db0 (ss_info s') (ss_db s')" "executable_payload ops db0 p"
proof -
  note bb = build_block_ok [OF assms(1)]
  show "executes ops db0 (ss_info s') (ss_db s')"
    using assms(3) executes_record(1) bb(1) bb(2) [OF assms(2)] by simp
  show "executable_payload ops db0 p"
    using assms(3) unfolding executes_def executable_payload_def bb(4-7) by blast
qed

text \<open>The outcome of the last phase.\<close>

lemma fb_finish_built:
  assumes "fb_finish b ctx sg lims s = (Inr (Some x), s')"
  obtains q m where "build_block (fb_block_ops b) ctx (\<not> fx_disable_state_root (extra_ctx ctx) \<or> at_no_tx_pool (attributes ctx))
        (snd (add_builder_txs (fb_builder_tx b) ctx False (fs_seq s))) = (Inr (q, m), fs_seq s')"
    "fs_out s' = (fs_out s) \<lparr> fo_published := fo_published (fs_out s) @
        [m \<lparr> fb_index := flashblock_index ctx, fb_base := None \<rparr>],
        fo_sent := fo_sent (fs_out s) @ [q], fo_best_payload := Some q \<rparr>"
    "x = next_targets (extra_ctx ctx) lims"
  using assms by (auto simp: fb_finish_def fb_emit_def Let_def split: prod.splits sum.splits if_splits)

lemma fb_finish_ok:
  assumes "fb_finish b ctx sg lims s = (Inr (Some x), s')" "simulation_pure (fb_builder_tx b)" "restore_law (fb_block_ops b)"
    and ex: "executes (evm ctx) db0 (ss_info (fs_seq s)) (ss_db (fs_seq s))"
    and st: "stream_ok (evm ctx) db0 p (fs_out s)"
    and pre: "executed_transactions (ss_info (fs_seq s)) = sb_transactions (bp_block p) @ rest"
      "last_flashblock_index (extra (ss_info (fs_seq s))) = length (sb_transactions (bp_block p))"
    and idx: "flashblock_index ctx = of_nat (length (fo_published (fs_out s)))"
  shows "fb_inv (evm ctx) db0 x s'" "x = next_targets (extra_ctx ctx) lims"
proof -
  let ?s1 = "snd (add_builder_txs (fb_builder_tx b) ctx False (fs_seq s))"
  obtain q m where bb: "build_block (fb_block_ops b) ctx
        (\<not> fx_disable_state_root (extra_ctx ctx) \<or> at_no_tx_pool (attributes ctx)) ?s1 = (Inr (q, m), fs_seq s')"
    and out: "fs_out s' = (fs_out s) \<lparr> fo_published := fo_published (fs_out s) @
        [m \<lparr> fb_index := flashblock_index ctx, fb_base := None \<rparr>],
        fo_sent := fo_sent (fs_out s) @ [q], fo_best_payload := Some q \<rparr>"
    and x: "x = next_targets (extra_ctx ctx) lims"
    using assms(1) by (rule fb_finish_built)
  have g: "grows ctx (fs_seq s) ?s1" by (rule add_builder_grows [OF assms(2)])
  note ex1 = grows_executes [OF g ex]
  note b1 = build_block_executes [OF bb assms(3) ex1] and b2 = build_block_ok [OF bb]
  obtain more where more: "executed_transactions (ss_info ?s1) = sb_transactions (bp_block p) @ rest @ more"
    and li: "last_flashblock_index (extra (ss_info ?s1)) = length (sb_transactions (bp_block p))"
    using grows_extends [OF g] pre by (auto simp: extends_def)
  have "fbd_transactions (fb_diff m) = map encoded_2718 (rest @ more)"
    unfolding b2(10) li more by simp
  then have "stream_ok (evm ctx) db0 q (fs_out s')"
    using st b1(2) b2(4,11) idx unfolding stream_ok_def out more by simp
  moreover have "fx_flashblock_index x = of_nat (length (fo_published (fs_out s')))"
    using idx unfolding x out by (simp add: next_targets_def fb_next_def flashblock_index_def Let_def)
  ultimately show "fb_inv (evm ctx) db0 x s'"
    using b1(1) b2(1,4) unfolding fb_inv_def by auto
  show "x = next_targets (extra_ctx ctx) lims" by (rule x)
qed

lemma fb_finish_none:
  assumes "fb_finish b ctx sg lims s = (Inr None, s')"
  shows "fs_out s' = fs_out s"
  using assms by (auto simp: fb_finish_def fb_emit_def Let_def split: prod.splits sum.splits if_splits)

text \<open>One flashblock: either the invariant holds for the next, or nothing was given out.\<close>

lemma build_next_flashblock_cases:
  assumes "build_next_flashblock b ctx sg s = Some (Inr r, s')" "simulation_pure (fb_builder_tx b)"
  obtains (cancelled) "r = None" "fs_out s' = (fs_out s) \<lparr> fo_limiter := fo_limiter (fs_out s') \<rparr>"
  | (finished) t lims btxs scalar where "grows ctx (fs_seq s) (fs_seq t)" "fs_out t = (fs_out s) \<lparr> fo_limiter := fo_limiter (fs_out t) \<rparr>"
      "fb_finish b ctx sg lims t = (Inr r, s')" "lims = reserved_limits (extra_ctx ctx) scalar btxs"
proof -
  let ?add = "add_builder_txs (fb_builder_tx b) ctx True (fs_seq s)"
  let ?btxs = "case fst ?add of Inl e \<Rightarrow> [] | Inr txs \<Rightarrow> txs"
  let ?lims = "reserved_limits (extra_ctx ctx) (da_footprint_scalar (ss_info (snd ?add))) ?btxs"
  have g1: "grows ctx (fs_seq s) (snd ?add)" by (rule add_builder_grows [OF assms(2)])
  obtain rp s2 where pool: "fb_execute_pool b ctx sg ?lims (s \<lparr> fs_seq := snd ?add \<rparr>) = Some (Inr rp, s2)"
    using assms(1) by (auto simp: build_next_flashblock_def Let_def case_prod_unfold split: option.splits sum.splits)
  note g2 = pool_grows [OF pool]
  show ?thesis
  proof (cases "sg_cancelled_after_pool sg")
    case True
    then have "r = None" "s' = s2"
      using assms(1) pool by (auto simp: build_next_flashblock_def Let_def case_prod_unfold)
    then show ?thesis using g2(2) cancelled by simp
  next
    case False
    then obtain rs s3 where side: "fb_execute_sidecar b ctx sg ?lims (cumulative_gas_used (ss_info (snd ?add))) (fs_seq s2) = Some (Inr rs, s3)"
      and fin: "fb_finish b ctx sg ?lims (s2 \<lparr> fs_seq := s3 \<rparr>) = (Inr r, s')"
      using assms(1) pool
      by (auto simp: build_next_flashblock_def Let_def case_prod_unfold split: option.splits sum.splits)
    have "grows ctx (fs_seq s) s3"
      using g1 g2(1) sidecar_grows [OF side] by (auto intro: grows_trans)
    then show ?thesis
      using finished [of "s2 \<lparr> fs_seq := s3 \<rparr>" ?lims] g2(2) fin by simp
  qed
qed

lemma build_next_flashblock_inv:
  assumes "build_next_flashblock b ctx sg s = Some (Inr r, s')" "simulation_pure (fb_builder_tx b)" "restore_law (fb_block_ops b)"
    and "fb_inv (evm ctx) db0 (extra_ctx ctx) s"
  shows "r = Some x \<Longrightarrow> fb_inv (evm ctx) db0 x s' \<and> (\<exists>lims. x = next_targets (extra_ctx ctx) lims)"
    and "r = None \<Longrightarrow> fs_out s' = (fs_out s) \<lparr> fo_limiter := fo_limiter (fs_out s') \<rparr>"
proof -
  obtain p where p: "stream_ok (evm ctx) db0 p (fs_out s)"
      "executed_transactions (ss_info (fs_seq s)) = sb_transactions (bp_block p)"
    and ex: "executes (evm ctx) db0 (ss_info (fs_seq s)) (ss_db (fs_seq s))"
    and li: "last_flashblock_index (extra (ss_info (fs_seq s))) = length (sb_transactions (bp_block p))"
    and idx: "flashblock_index ctx = of_nat (length (fo_published (fs_out s)))"
    using assms(4) by (auto simp: fb_inv_def flashblock_index_def)
  from assms(1,2) show "fs_out s' = (fs_out s) \<lparr> fo_limiter := fo_limiter (fs_out s') \<rparr>" if "r = None"
  proof (cases rule: build_next_flashblock_cases)
    case (finished t lims)
    then show ?thesis using fb_finish_none that by fastforce
  qed
  from assms(1,2) show "fb_inv (evm ctx) db0 x s' \<and> (\<exists>lims. x = next_targets (extra_ctx ctx) lims)" if "r = Some x"
  proof (cases rule: build_next_flashblock_cases)
    case (finished t lims)
    have st: "stream_ok (evm ctx) db0 p (fs_out t)" by (rule stream_ok_limiter [OF finished(2) p(1)])
    obtain rest where rest: "executed_transactions (ss_info (fs_seq t)) = sb_transactions (bp_block p) @ rest"
      "last_flashblock_index (extra (ss_info (fs_seq t))) = length (sb_transactions (bp_block p))"
      using grows_extends [OF finished(1)] p(2) li by (auto simp: extends_def)
    have idx': "flashblock_index ctx = of_nat (length (fo_published (fs_out t)))"
      using idx arg_cong [OF finished(2), of fo_published] by simp
    show ?thesis
      using fb_finish_ok [OF finished(3) [unfolded that] assms(2,3) grows_executes [OF finished(1) ex] st rest idx'] by blast
  qed (simp add: that)
qed

section \<open>The fallback block\<close>

text \<open>The database a build starts from: the state of the parent after the pre-execution changes.\<close>

definition start_db :: "('db, 'st, 'i) fb_builder \<Rightarrow> payload_attrs \<Rightarrow> parent_header \<Rightarrow> 'db option" where
  "start_db b attrs par =
     (case and_then (fb_state_by_block_hash b (ph_hash par)) (\<lambda>db.
             and_then (next_block_env (fb_chain_spec b) attrs par) (\<lambda>a. fb_pre_execution b par a db)) of
        Inl e \<Rightarrow> None
      | Inr db \<Rightarrow> Some db)"

text \<open>The contexts of a build differ only in the cancellation token and the flashblock.\<close>

definition job_ctx :: "('db, 'st, 'i) fb_builder \<Rightarrow> payload_attrs \<Rightarrow> parent_header \<Rightarrow> ('db, 'st) fb_ctx \<Rightarrow> bool" where
  "job_ctx b attrs par ctx \<longleftrightarrow>
     evm ctx = fb_evm b \<and> spec ctx = fb_chain_spec b \<and> attributes ctx = attrs \<and> parent ctx = par \<and>
     gas_limit_config ctx = fb_gas_limit_config b \<and>
     and_then (next_block_env (fb_chain_spec b) attrs par) (fb_next_evm_env b par) = Inr (env ctx)"

lemma get_ctx_job:
  "get_op_payload_builder_ctx b attrs par c x = Inr ctx \<Longrightarrow> job_ctx b attrs par ctx \<and> extra_ctx ctx = x"
  by (auto simp: get_op_payload_builder_ctx_def job_ctx_def and_then_eq_Inr)

lemma get_ctx_gas_limit:
  "get_op_payload_builder_ctx b attrs par c x = Inr ctx \<Longrightarrow> get_op_payload_builder_ctx b attrs par c' x' = Inr ctx' \<Longrightarrow>
   block_gas_limit ctx' = block_gas_limit ctx"
  by (auto simp: get_op_payload_builder_ctx_def block_gas_limit_def and_then_eq_Inr split: option.split)

lemma execute_pre_steps_ok:
  assumes "execute_pre_steps b ctx db = Inr s" "job_ctx b attrs par ctx"
    and "fb_state_by_block_hash b (ph_hash par) = Inr db"
  obtains db0 where "start_db b attrs par = Some db0"
    "execute_sequencer_transactions ctx \<lparr> last_flashblock_index = 0 \<rparr> db0 = (Inr (ss_info s), ss_db s)"
proof -
  obtain a db0 where a: "next_block_env (fb_chain_spec b) attrs par = Inr a" "fb_pre_execution b par a db = Inr db0"
    and run: "(case execute_sequencer_transactions ctx \<lparr> last_flashblock_index = 0 \<rparr> db0 of
         (Inl e, _) \<Rightarrow> Inl e
       | (Inr info, db2) \<Rightarrow> Inr \<lparr> ss_info = info, ss_db = db2 \<rparr>) = Inr s"
    using assms(1,2) by (auto simp: execute_pre_steps_def job_ctx_def and_then_eq_Inr)
  have "execute_sequencer_transactions ctx \<lparr> last_flashblock_index = 0 \<rparr> db0 = (Inr (ss_info s), ss_db s)"
    using run by (auto split: prod.split_asm sum.split_asm)
  then show ?thesis using assms(3) a by (intro that [of db0]) (simp_all add: start_db_def)
qed

lemma sequencer_executes:
  assumes "execute_sequencer_transactions ctx x db0 = (Inr info, db)"
  shows "executes (evm ctx) db0 info db" "extra info = x"
proof -
  obtain es info0 where es: "included ctx (sequencer_guard ctx) (with_capacity x, db0) es (info0, db)"
    and info: "info = info0 \<lparr> da_footprint_scalar := da_footprint_scalar info \<rparr>"
    using sequencer_includes [OF assms] by blast
  have "executes (evm ctx) db0 (with_capacity x) db0"
    by (simp add: executes_def with_capacity_def)
  from executes_included [OF this es] show "executes (evm ctx) db0 info db"
    using executes_record(2) info by metis
  show "extra info = x"
    using included_lists(4) [OF es] arg_cong [OF info, of extra] by (simp add: with_capacity_def)
qed

lemma pre_steps_executes:
  assumes "execute_sequencer_transactions ctx \<lparr> last_flashblock_index = 0 \<rparr> db0 = (Inr info, db)"
  shows "executes (evm ctx) db0 info db" "last_flashblock_index (extra info) = 0"
  using sequencer_executes [OF assms] by simp_all

text \<open>What was handed over: executable payloads, the last of which is the best one.\<close>

definition sent_ok :: "('db, 'st, 'i) fb_builder \<Rightarrow> payload_attrs \<Rightarrow> parent_header \<Rightarrow> fb_out \<Rightarrow> bool" where
  "sent_ok b attrs par out \<longleftrightarrow>
     fo_best_payload out = (if fo_sent out = [] then None else Some (last (fo_sent out))) \<and>
     (\<forall>p \<in> set (fo_sent out). \<exists>db0. start_db b attrs par = Some db0 \<and> executable_payload (fb_evm b) db0 p)"

definition nothing_out :: "fb_out \<Rightarrow> bool" where
  "nothing_out out \<longleftrightarrow> fo_best_payload out = None \<and> fo_published out = [] \<and> fo_sent out = []"

lemma nothing_out_limiter [simp]: "nothing_out (out \<lparr> fo_limiter := l \<rparr>) = nothing_out out"
  by (simp add: nothing_out_def)

text \<open>The outcomes of the fallback phase: nothing given out, a payload that was not published, or a payload
  and the first flashblock.\<close>

lemma build_fallback_cases:
  assumes "build_fallback b job ctx out0 = (r, out)" "job_ctx b attrs par ctx" "nothing_out out0"
  obtains (failed) e where "r = Inl e" "nothing_out out"
  | (built) db0 s s1 p m s2 where "start_db b attrs par = Some db0"
      "execute_sequencer_transactions ctx \<lparr> last_flashblock_index = 0 \<rparr> db0 = (Inr (ss_info s), ss_db s)"
      "s1 = (if at_no_tx_pool attrs then s else snd (add_builder_txs (fb_builder_tx b) ctx False s))"
      "build_block (fb_block_ops b) ctx (\<not> disable_state_root (specific (fb_config_of b)) \<or> at_no_tx_pool attrs) s1 = (Inr (p, m), s2)"
      "fo_best_payload out = Some p" "fo_sent out = [p]"
      "r = Inr s2 \<and> fo_published out = (if at_no_tx_pool attrs then [] else [m]) \<or>
       (\<exists>e. r = Inl e) \<and> fo_published out = [] \<and> \<not> at_no_tx_pool attrs"
proof -
  note defs = build_fallback_def Let_def
  have ctx: "attributes ctx = attrs" "parent ctx = par" using assms(2) by (simp_all add: job_ctx_def)
  show ?thesis
  proof (cases "fb_state_by_block_hash b (ph_hash par)")
    case (Inl e)
    then have "r = Inl (OtherError e)" "out = out0" using assms(1) ctx by (simp_all add: defs)
    then show ?thesis using failed assms(3) by blast
  next
    case (Inr db)
    show ?thesis
    proof (cases "execute_pre_steps b ctx db")
      case (Inl e)
      then have "r = Inl e" "nothing_out out" using Inr assms(1,3) ctx by (auto simp: defs)
      then show ?thesis using failed by blast
    next
      case pre: (Inr s)
      let ?s1 = "if at_no_tx_pool attrs then s else snd (add_builder_txs (fb_builder_tx b) ctx False s)"
      let ?bb = "build_block (fb_block_ops b) ctx (\<not> disable_state_root (specific (fb_config_of b)) \<or> at_no_tx_pool attrs) ?s1"
      obtain db0 where db0: "start_db b attrs par = Some db0"
        "execute_sequencer_transactions ctx \<lparr> last_flashblock_index = 0 \<rparr> db0 = (Inr (ss_info s), ss_db s)"
        using execute_pre_steps_ok [OF pre assms(2) Inr] by blast
      obtain rb s2 where bb: "?bb = (rb, s2)" by fastforce
      show ?thesis
      proof (cases rb)
        case (Inl e)
        then have "r = Inl e" "nothing_out out" using Inr pre bb assms(1,3) ctx by (auto simp: defs split: if_splits)
        then show ?thesis using failed by blast
      next
        case pm: (Inr pm)
        obtain p m where "pm = (p, m)" by fastforce
        then have bb': "?bb = (Inr (p, m), s2)" using bb pm by simp
        show ?thesis
        proof (cases "jb_try_send job")
          case (Inl e)
          then have "r = Inl (OtherError e)" "nothing_out out"
            using Inr pre bb' assms(1,3) ctx by (auto simp: defs split: if_splits)
          then show ?thesis using failed by blast
        next
          case (Inr u)
          have "fo_best_payload out = Some p" "fo_sent out = [p]"
            "r = Inr s2 \<and> fo_published out = (if at_no_tx_pool attrs then [] else [m]) \<or>
             (\<exists>e. r = Inl e) \<and> fo_published out = [] \<and> \<not> at_no_tx_pool attrs"
            using Inr \<open>fb_state_by_block_hash b (ph_hash par) = Inr db\<close> pre bb' assms(1,3) ctx
            by (cases "jb_publish job"; auto simp: defs nothing_out_def split: if_splits)+
          then show ?thesis by (rule built [OF db0 refl bb'])
        qed
      qed
    qed
  qed
qed

lemma fallback_seq_executes:
  assumes "execute_sequencer_transactions ctx \<lparr> last_flashblock_index = 0 \<rparr> db0 = (Inr (ss_info s), ss_db s)"
    and "s1 = (if c then s else snd (add_builder_txs (fb_builder_tx b) ctx False s))"
    and "simulation_pure (fb_builder_tx b)"
  shows "executes (evm ctx) db0 (ss_info s1) (ss_db s1)" "last_flashblock_index (extra (ss_info s1)) = 0"
proof -
  note pre = pre_steps_executes [OF assms(1)]
  have g: "grows ctx s s1" unfolding assms(2) by (simp add: grows_refl add_builder_grows [OF assms(3)])
  show "executes (evm ctx) db0 (ss_info s1) (ss_db s1)" by (rule grows_executes [OF g pre(1)])
  show "last_flashblock_index (extra (ss_info s1)) = 0"
    using grows_extends [OF g] pre(2) by (simp add: extends_def)
qed

lemma fallback_sent:
  assumes "build_fallback b job ctx out0 = (r, out)" "job_ctx b attrs par ctx" "nothing_out out0"
    and "simulation_pure (fb_builder_tx b)" "restore_law (fb_block_ops b)"
  shows "sent_ok b attrs par out"
  using assms(1-3)
proof (cases rule: build_fallback_cases)
  case (built db0 s s1 p m s2)
  have "executable_payload (evm ctx) db0 p"
    using build_block_executes(2) [OF built(4) assms(5)] fallback_seq_executes(1) [OF built(2,3) assms(4)] by blast
  then show ?thesis
    using built(1,5,6) assms(2) by (simp add: sent_ok_def job_ctx_def)
qed (simp add: sent_ok_def nothing_out_def)

lemma fallback_inv:
  assumes "build_fallback b job ctx out0 = (Inr t, out)" "job_ctx b attrs par ctx" "nothing_out out0"
    and "simulation_pure (fb_builder_tx b)" "restore_law (fb_block_ops b)" "\<not> at_no_tx_pool attrs"
  obtains db0 where "start_db b attrs par = Some db0"
    "\<And>x best. fx_flashblock_index x = 1 \<Longrightarrow> fb_inv (fb_evm b) db0 x \<lparr> fs_seq = t, fs_best = best, fs_out = out \<rparr>"
    "length (fo_published out) = 1"
  using assms(1-3)
proof (cases rule: build_fallback_cases)
  case (built db0 s s1 p m s2)
  have t: "t = s2" "fo_published out = [m]" using built(7) assms(6) by auto
  note ex = fallback_seq_executes [OF built(2,3) assms(4)]
  note bb = build_block_executes [OF built(4) assms(5) ex(1)] and bo = build_block_ok [OF built(4)]
  have "stream_ok (evm ctx) db0 p out"
    using bb(2) built(5,6) t(2) bo(4,10,11,13) ex(2) by (simp add: stream_ok_def)
  then have "fb_inv (evm ctx) db0 x \<lparr> fs_seq = t, fs_best = best, fs_out = out \<rparr>" if "fx_flashblock_index x = 1" for x best
    using bb(1) bo(1,4) that t by (auto simp: fb_inv_def)
  moreover have "evm ctx = fb_evm b" using assms(2) by (simp add: job_ctx_def)
  ultimately show ?thesis using t(2) by (intro that [OF built(1)]) simp_all
qed simp

section \<open>The loop\<close>

text \<open>A phase either hands over one more payload and goes on, or hands over nothing.\<close>

definition hands_over :: "payload_error + fb_extra_ctx option \<Rightarrow> fb_out \<Rightarrow> fb_out \<Rightarrow> bool" where
  "hands_over r out out' \<longleftrightarrow>
     (\<exists>x q. r = Inr (Some x) \<and> fo_sent out' = fo_sent out @ [q] \<and> fo_best_payload out' = Some q) \<or>
     (\<nexists>x. r = Inr (Some x)) \<and> fo_sent out' = fo_sent out \<and> fo_best_payload out' = fo_best_payload out"

lemma fb_emit_hands_over: "fb_emit ctx sg lims p m out = (r, out') \<Longrightarrow> hands_over r out out'"
  by (auto simp: hands_over_def fb_emit_def Let_def split: if_splits sum.splits)

lemma fb_finish_hands_over:
  assumes "fb_finish b ctx sg lims s = (r, s')"
  shows "hands_over r (fs_out s) (fs_out s')"
proof -
  obtain rb s2 where bb: "build_block (fb_block_ops b) ctx
      (\<not> fx_disable_state_root (extra_ctx ctx) \<or> at_no_tx_pool (attributes ctx))
      (snd (add_builder_txs (fb_builder_tx b) ctx False (fs_seq s))) = (rb, s2)"
    by fastforce
  show ?thesis
  proof (cases rb)
    case (Inl e)
    then show ?thesis using assms bb by (auto simp: fb_finish_def hands_over_def)
  next
    case (Inr pm)
    obtain p m r' out' where "pm = (p, m)" and em: "fb_emit ctx sg lims p m (fs_out s) = (r', out')"
      by (metis prod.exhaust)
    then have "r = r'" "fs_out s' = out'"
      using assms bb Inr by (auto simp: fb_finish_def)
    then show ?thesis using fb_emit_hands_over [OF em] by simp
  qed
qed

lemma build_next_flashblock_sent:
  assumes "build_next_flashblock b ctx sg s = Some (r, s')"
  shows "hands_over r (fs_out s) (fs_out s')"
proof -
  let ?add = "add_builder_txs (fb_builder_tx b) ctx True (fs_seq s)"
  let ?lims = "reserved_limits (extra_ctx ctx) (da_footprint_scalar (ss_info (snd ?add))) (case fst ?add of Inl e \<Rightarrow> [] | Inr txs \<Rightarrow> txs)"
  obtain rp s2 where pool: "fb_execute_pool b ctx sg ?lims (s \<lparr> fs_seq := snd ?add \<rparr>) = Some (rp, s2)"
    using assms by (auto simp: build_next_flashblock_def Let_def case_prod_unfold split: option.splits)
  have out: "fo_sent (fs_out s2) = fo_sent (fs_out s)" "fo_best_payload (fs_out s2) = fo_best_payload (fs_out s)"
    using arg_cong [OF pool_grows(2) [OF pool], of fo_sent] arg_cong [OF pool_grows(2) [OF pool], of fo_best_payload] by simp_all
  note defs = build_next_flashblock_def Let_def case_prod_unfold
  consider "fs_out s' = fs_out s2" "\<nexists>x. r = Inr (Some x)"
    | s3 where "fb_finish b ctx sg ?lims (s2 \<lparr> fs_seq := s3 \<rparr>) = (r, s')"
  proof (cases rp)
    case (Inl e)
    then show ?thesis using assms pool that(1) by (auto simp: defs)
  next
    case (Inr u)
    show ?thesis
    proof (cases "sg_cancelled_after_pool sg")
      case True
      then show ?thesis using assms pool Inr that(1) by (auto simp: defs)
    next
      case False
      obtain rs s3 where side: "fb_execute_sidecar b ctx sg ?lims (cumulative_gas_used (ss_info (snd ?add))) (fs_seq s2) = Some (rs, s3)"
        using assms pool Inr False by (auto simp: defs split: option.splits)
      show ?thesis
        using assms pool Inr False side that by (cases rs) (auto simp: defs)
    qed
  qed
  then show ?thesis
  proof cases
    case 2
    from fb_finish_hands_over [OF this] show ?thesis using out by (simp add: hands_over_def)
  qed (simp add: out hands_over_def)
qed

lemma next_targets_sel [simp]:
  "fx_target_flashblock_count (next_targets x lims) = fx_target_flashblock_count x"
  "fx_flashblock_index (next_targets x lims) = fx_flashblock_index x + 1"
  "fx_gas_per_batch (next_targets x lims) = fx_gas_per_batch x"
  "fx_disable_state_root (next_targets x lims) = fx_disable_state_root x"
  "fx_target_gas_for_batch (next_targets x lims) = fx_target_gas_for_batch x + fx_gas_per_batch x"
  by (simp_all add: next_targets_def fb_next_def Let_def)

lemma ctx_sel [simp]:
  "evm (with_cancel ctx c) = evm ctx" "extra_ctx (with_cancel ctx c) = extra_ctx ctx"
  "evm (with_extra_ctx ctx x) = evm ctx" "extra_ctx (with_extra_ctx ctx x) = x"
  by (simp_all add: with_cancel_def with_extra_ctx_def)

text \<open>The rule of the loop: an invariant of the flashblock context and the state.\<close>

definition same_job :: "('db, 'st) fb_ctx \<Rightarrow> ('db, 'st) fb_ctx \<Rightarrow> bool" where
  "same_job ctx c \<longleftrightarrow> (\<exists>cc x. c = ctx \<lparr> cancel := cc, extra_ctx := x \<rparr>)"

lemma same_job_evm: "same_job ctx c \<Longrightarrow> evm c = evm ctx"
  by (auto simp: same_job_def)

lemma same_job_gas_limit: "same_job ctx c \<Longrightarrow> block_gas_limit c = block_gas_limit ctx"
  by (auto simp: same_job_def block_gas_limit_def split: option.split)

lemma same_job_next: "same_job ctx c \<Longrightarrow> same_job ctx (with_extra_ctx (with_cancel c cc) x)"
  unfolding same_job_def with_cancel_def with_extra_ctx_def
  by (elim exE, intro exI [of _ cc] exI [of _ x]) simp

lemma same_job_cancel: "same_job ctx c \<Longrightarrow> same_job ctx (with_cancel c cc)"
  unfolding same_job_def with_cancel_def by (elim exE, intro exI [of _ cc] exI [of _ "extra_ctx c"]) simp

lemma same_job_refl: "same_job ctx ctx"
  unfolding same_job_def by (intro exI [of _ "cancel ctx"] exI [of _ "extra_ctx ctx"]) simp

lemma build_loop_rule:
  assumes "build_loop b sgs ctx s = Some (r, s')" "I (extra_ctx ctx) s" "same_job base ctx"
    and stop: "\<And>x s. I x s \<Longrightarrow> Q (Inr ()) s"
    and step: "\<And>c sg s x t. same_job base c \<Longrightarrow> I (extra_ctx c) s \<Longrightarrow>
      fx_flashblock_index (extra_ctx c) \<le> fx_target_flashblock_count (extra_ctx c) \<Longrightarrow>
      build_next_flashblock b c sg s = Some (Inr (Some x), t) \<Longrightarrow> I x t"
    and cancelled: "\<And>c sg s t. same_job base c \<Longrightarrow> I (extra_ctx c) s \<Longrightarrow>
      build_next_flashblock b c sg s = Some (Inr None, t) \<Longrightarrow> Q (Inr ()) t"
    and failed: "\<And>c sg s e t. same_job base c \<Longrightarrow> I (extra_ctx c) s \<Longrightarrow>
      build_next_flashblock b c sg s = Some (Inl e, t) \<Longrightarrow> Q (Inl e) t"
  shows "Q r s'"
  using assms(1-3)
proof (induction sgs arbitrary: ctx s)
  case Nil
  then show ?case using stop by auto
next
  case (Cons sg sgs)
  let ?c = "with_cancel ctx (sg_cancel sg)"
  have I: "I (extra_ctx ?c) s" and c: "same_job base ?c"
    using Cons.prems(2) same_job_cancel [OF Cons.prems(3)] by simp_all
  show ?case
  proof (cases "target_flashblock_count ?c < flashblock_index ?c")
    case True
    then show ?thesis using Cons.prems(1) stop [OF I] by auto
  next
    case False
    then have le: "fx_flashblock_index (extra_ctx ?c) \<le> fx_target_flashblock_count (extra_ctx ?c)"
      by (simp add: target_flashblock_count_def flashblock_index_def not_less)
    obtain rn t where rn: "build_next_flashblock b ?c sg s = Some (rn, t)"
      using Cons.prems(1) False by (auto simp: Let_def split: option.splits)
    consider e where "rn = Inl e" | "rn = Inr None" | x where "rn = Inr (Some x)"
      by (metis sum.exhaust not_Some_eq)
    then show ?thesis
    proof cases
      case 1
      then show ?thesis using Cons.prems(1) False rn failed [OF c I] by (auto simp: Let_def)
    next
      case 2
      then show ?thesis using Cons.prems(1) False rn cancelled [OF c I] by (auto simp: Let_def)
    next
      case (3 x)
      then have run: "build_loop b sgs (with_extra_ctx ?c x) t = Some (r, s')"
        using Cons.prems(1) False rn by (simp add: Let_def)
      have "I (extra_ctx (with_extra_ctx ?c x)) t" using step [OF c I le] rn 3 by simp
      from Cons.IH [OF run this] show ?thesis
        using same_job_next [OF Cons.prems(3)] by blast
    qed
  qed
qed

lemma build_loop_stream:
  assumes "build_loop b sgs ctx s = Some (r, s')" "simulation_pure (fb_builder_tx b)" "restore_law (fb_block_ops b)"
    and "fb_inv (evm ctx) db0 (extra_ctx ctx) s"
  shows "r = Inr () \<longrightarrow> (\<exists>p. stream_ok (evm ctx) db0 p (fs_out s'))"
  using assms(1)
proof (rule build_loop_rule [where base = ctx and I = "fb_inv (evm ctx) db0"])
  show "fb_inv (evm ctx) db0 x t"
    if "same_job ctx c" "fb_inv (evm ctx) db0 (extra_ctx c) s" "build_next_flashblock b c sg s = Some (Inr (Some x), t)" for c sg s x t
    using build_next_flashblock_inv(1) [OF that(3) assms(2,3)] that(2) same_job_evm [OF that(1)] by auto
  show "Inr () = Inr () \<longrightarrow> (\<exists>p. stream_ok (evm ctx) db0 p (fs_out t))"
    if "same_job ctx c" "fb_inv (evm ctx) db0 (extra_ctx c) s" "build_next_flashblock b c sg s = Some (Inr None, t)" for c sg s t
    using build_next_flashblock_inv(2) [OF that(3) assms(2,3)] that(2) same_job_evm [OF that(1)] stream_ok_limiter
    unfolding fb_inv_def by metis
qed (use assms(4) in \<open>auto simp: fb_inv_def same_job_refl\<close>)

lemma build_loop_sent:
  assumes "build_loop b sgs ctx s = Some (r, s')" "simulation_pure (fb_builder_tx b)" "restore_law (fb_block_ops b)"
    and "fb_inv (evm ctx) db0 (extra_ctx ctx) s" "evm ctx = fb_evm b" "start_db b attrs par = Some db0"
    and "sent_ok b attrs par (fs_out s)"
  shows "sent_ok b attrs par (fs_out s')"
  using assms(1)
proof (rule build_loop_rule [where base = ctx and I = "\<lambda>x s. fb_inv (evm ctx) db0 x s \<and> sent_ok b attrs par (fs_out s)"])
  have keep: "sent_ok b attrs par (fs_out t)"
    if "build_next_flashblock b c sg s = Some (r, t)" "\<nexists>x. r = Inr (Some x)" "sent_ok b attrs par (fs_out s)" for c sg s r t
    using build_next_flashblock_sent [OF that(1)] that(2,3) by (auto simp: hands_over_def sent_ok_def)
  show "sent_ok b attrs par (fs_out t)"
    if "fb_inv (evm ctx) db0 (extra_ctx c) s \<and> sent_ok b attrs par (fs_out s)"
      "build_next_flashblock b c sg s = Some (Inr None, t)" for c sg s t
    using keep [OF that(2)] that(1) by simp
  show "sent_ok b attrs par (fs_out t)"
    if "fb_inv (evm ctx) db0 (extra_ctx c) s \<and> sent_ok b attrs par (fs_out s)"
      "build_next_flashblock b c sg s = Some (Inl e, t)" for c sg s e t
    using keep [OF that(2)] that(1) by simp
  show "fb_inv (evm ctx) db0 x t \<and> sent_ok b attrs par (fs_out t)"
    if same: "same_job ctx c" and I: "fb_inv (evm ctx) db0 (extra_ctx c) s \<and> sent_ok b attrs par (fs_out s)"
      and run: "build_next_flashblock b c sg s = Some (Inr (Some x), t)" for c sg s x t
  proof -
    have inv: "fb_inv (evm ctx) db0 x t"
      using build_next_flashblock_inv(1) [OF run assms(2,3)] I same_job_evm [OF same] by auto
    obtain q where q: "fo_sent (fs_out t) = fo_sent (fs_out s) @ [q]" "fo_best_payload (fs_out t) = Some q"
      using build_next_flashblock_sent [OF run] by (auto simp: hands_over_def)
    then have "executable_payload (fb_evm b) db0 q"
      using inv assms(5) by (auto simp: fb_inv_def stream_ok_def)
    then show ?thesis using inv q I assms(6) by (auto simp: sent_ok_def)
  qed
qed (use assms(4,7) in \<open>auto simp: same_job_refl\<close>)

section \<open>The cases of a build\<close>

lemma build_payload_cases:
  assumes "build_payload b job limiter = Some (r, out)"
  defines "attrs \<equiv> jb_attributes job" and "par \<equiv> jb_parent job"
    and "out0 \<equiv> \<lparr> fo_limiter = limiter, fo_best_payload = None, fo_published = [], fo_sent = [] \<rparr>"
  obtains (no_context) e where "r = Inl e" "out = out0"
  | (fallback) ctx r0 where "job_ctx b attrs par ctx" "build_fallback b job ctx out0 = (r0, out)"
      "r = Inr () \<longrightarrow> at_no_tx_pool attrs \<and> (\<exists>s. r0 = Inr s)"
  | (flashblocks) ctx s out1 n off dl x0 ctx' s' where "job_ctx b attrs par ctx"
      "build_fallback b job ctx out0 = (Inr s, out1)" "\<not> at_no_tx_pool attrs"
      "derive_timing (fb_config_of b) (jb_now job) (at_timestamp attrs) = Inr (n, off, dl)"
      "first_targets ctx (fb_max_da_block_size b) (disable_state_root (specific (fb_config_of b))) (da_footprint_scalar (ss_info s)) n = Inr x0"
      "job_ctx b attrs par ctx'" "extra_ctx ctx' = x0"
      "build_loop b (jb_signals job) ctx' \<lparr> fs_seq = s, fs_best = best_new (jb_pool job), fs_out = out1 \<rparr> = Some (r, s')"
      "out = fs_out s'" "block_gas_limit ctx' = block_gas_limit ctx"
proof -
  let ?cfg = "fb_config_of b"
  let ?ctx = "and_then (map_err Panic (flashblocks_per_block ?cfg)) (\<lambda>n.
      get_op_payload_builder_ctx b attrs par (jb_block_cancel job)
        (fb_extra_ctx_default \<lparr> fx_target_flashblock_count := n, fx_disable_state_root := disable_state_root (specific ?cfg) \<rparr>))"
  note defs = build_payload_def Let_def attrs_def par_def out0_def
  show ?thesis
  proof (cases ?ctx)
    case (Inl e)
    then show ?thesis using assms(1) no_context by (auto simp: defs)
  next
    case (Inr ctx)
    then obtain n where get: "get_op_payload_builder_ctx b attrs par (jb_block_cancel job)
        (fb_extra_ctx_default \<lparr> fx_target_flashblock_count := n, fx_disable_state_root := disable_state_root (specific ?cfg) \<rparr>) = Inr ctx"
      by (auto simp: and_then_eq_Inr)
    then have ctx: "job_ctx b attrs par ctx" using get_ctx_job by blast
    obtain r0 out1 where fb: "build_fallback b job ctx out0 = (r0, out1)" by fastforce
    have attrs: "attributes ctx = attrs" using ctx by (simp add: job_ctx_def)
    show ?thesis
    proof (cases r0)
      case (Inl e)
      then show ?thesis using assms(1) Inr fb fallback [OF ctx] by (auto simp: defs)
    next
      case s: (Inr s)
      let ?t = "and_then (map_err Panic (derive_timing ?cfg (jb_now job) (at_timestamp attrs))) (\<lambda>(n, offset, deadline).
          and_then (first_targets ctx (fb_max_da_block_size b) (disable_state_root (specific ?cfg)) (da_footprint_scalar (ss_info s)) n)
            (get_op_payload_builder_ctx b attrs par (jb_block_cancel job)))"
      show ?thesis
      proof (cases "at_no_tx_pool attrs")
        case True
        then show ?thesis using assms(1) Inr fb s attrs fallback [OF ctx] by (auto simp: defs)
      next
        case pool: False
        show ?thesis
        proof (cases ?t)
          case (Inl e)
          then show ?thesis using assms(1) \<open>?ctx = Inr ctx\<close> fb s attrs pool fallback [OF ctx] by (auto simp: defs)
        next
          case t: (Inr ctx')
          then obtain n off dl x0 where "derive_timing ?cfg (jb_now job) (at_timestamp attrs) = Inr (n, off, dl)"
            "first_targets ctx (fb_max_da_block_size b) (disable_state_root (specific ?cfg)) (da_footprint_scalar (ss_info s)) n = Inr x0"
            "get_op_payload_builder_ctx b attrs par (jb_block_cancel job) x0 = Inr ctx'"
            by (auto simp: and_then_eq_Inr)
          moreover obtain s' where "build_loop b (jb_signals job) ctx' \<lparr> fs_seq = s, fs_best = best_new (jb_pool job), fs_out = out1 \<rparr> = Some (r, s')"
            "out = fs_out s'"
            using assms(1) \<open>?ctx = Inr ctx\<close> fb s attrs pool t by (auto simp: defs)
          ultimately show ?thesis
            using flashblocks [OF ctx] fb s pool get_ctx_job get_ctx_gas_limit [OF get] by blast
        qed
      qed
    qed
  qed
qed

end
