(* ===== verification/Fb_Gas.thy ===== *)
theory Fb_Gas
  imports Fb_Invariant
begin

text \<open>
  How a flashblocks build spends the block: the targets each flashblock gets, the gas the published flashblocks
  have used, how many there are, and that every build returns.
\<close>

section \<open>The targets of the flashblocks\<close>

text \<open>The contexts of the flashblocks of a block.\<close>

inductive flashblock_ctx :: "fb_extra_ctx \<Rightarrow> fb_extra_ctx \<Rightarrow> bool" for first where
  first: "flashblock_ctx first first"
| follow: "flashblock_ctx first x \<Longrightarrow> fx_flashblock_index x \<le> fx_target_flashblock_count x \<Longrightarrow>
    flashblock_ctx first (next_targets x (reserved_limits x scalar btxs))"

lemma finish_next_targets:
  assumes "fb_finish b ctx sg lims s = (Inr (Some x), s')"
  shows "x = next_targets (extra_ctx ctx) lims"
  using assms by (auto simp: fb_finish_def fb_emit_def Let_def split: prod.splits sum.splits if_splits)

lemma build_next_flashblock_follows:
  assumes "build_next_flashblock b ctx sg s = Some (Inr (Some x), s')" "simulation_pure (fb_builder_tx b)"
    and "flashblock_ctx first (extra_ctx ctx)" "fx_flashblock_index (extra_ctx ctx) \<le> fx_target_flashblock_count (extra_ctx ctx)"
  shows "flashblock_ctx first x"
  using assms(1,2)
proof (cases rule: build_next_flashblock_cases)
  case (finished t lims btxs scalar)
  then show ?thesis
    using finish_next_targets [OF finished(3)] flashblock_ctx.follow [OF assms(3,4)] by simp
qed simp

text \<open>The k-th flashblock may use k shares of the gas of the block. The product does not overflow while the
  flashblock is one of the block.\<close>

lemma flashblock_ctx_gas:
  assumes "flashblock_ctx first x" "first_targets ctx mx nr sc n = Inr first"
  shows "fx_target_flashblock_count x = n" "fx_gas_per_batch x = block_gas_limit ctx div n"
    "fx_target_gas_for_batch x = fx_flashblock_index x * (block_gas_limit ctx div n)"
proof -
  have "fx_target_flashblock_count x = n \<and> fx_gas_per_batch x = block_gas_limit ctx div n \<and>
      fx_target_gas_for_batch x = fx_flashblock_index x * (block_gas_limit ctx div n)"
    using assms
    by (induction rule: flashblock_ctx.induct) (auto simp: first_targets_def Let_def algebra_simps split: if_splits)
  then show "fx_target_flashblock_count x = n" "fx_gas_per_batch x = block_gas_limit ctx div n"
    "fx_target_gas_for_batch x = fx_flashblock_index x * (block_gas_limit ctx div n)" by auto
qed

lemma share_no_overflow:
  fixes k l n :: u64
  assumes "k \<le> n"
  shows "unat (k * (l div n)) = unat k * (unat l div unat n)" "unat k * (unat l div unat n) \<le> unat l"
proof -
  have "unat k * (unat l div unat n) \<le> unat n * (unat l div unat n)"
    using assms by (simp add: word_le_nat_alt)
  also have "\<dots> \<le> unat l" by simp
  finally show le: "unat k * (unat l div unat n) \<le> unat l" .
  then have "unat k * unat (l div n) < 2 ^ LENGTH(64)"
    using unsigned_less [of l, where 'a = nat] by (simp add: unat_div)
  then show "unat (k * (l div n)) = unat k * (unat l div unat n)"
    by (simp add: unat_mult_lem [THEN iffD1] unat_div)
qed

section \<open>Gas\<close>

lemma included_gas_within:
  assumes "included ctx guard p es q" "evm_gas_law (evm ctx) el"
    and fits: "\<And>info tx r da. guard info tx r da \<Longrightarrow>
      over_limits ctx (batch_limits ctx lims) info da (tx_gas_limit (inner_tx tx)) = Inr ()"
    and "min (lim_gas lims) (block_gas_limit ctx) \<le> m"
    and "cumulative_gas_used (fst p) \<le> m" "unat m + unat el < 2 ^ 64"
  shows "cumulative_gas_used (fst q) \<le> m"
proof -
  have "cumulative_gas_used info + tx_gas_limit (inner_tx tx) \<le> m" if "guard info tx r da" for info tx r da
  proof -
    have "lim_gas (batch_limits ctx lims) \<le> m" using assms(4) by (simp add: batch_limits_def)
    then show ?thesis by (rule order_trans [OF over_limits_gas [OF fits [OF that]]])
  qed
  from included_gas_bound [OF assms(1,2) this] show ?thesis
    using assms(5,6) by (simp add: max_absorb2)
qed

lemma pool_gas:
  assumes "fb_execute_pool b ctx sg lims s = Some (r, s')" "evm_gas_law (evm ctx) el"
    and "cumulative_gas_used (ss_info (fs_seq s)) \<le> m" "min (lim_gas lims) (block_gas_limit ctx) \<le> m" "unat m + unat el < 2 ^ 64"
  shows "cumulative_gas_used (ss_info (fs_seq s')) \<le> m"
proof -
  let ?i = "\<lparr> es_info = ss_info (fs_seq s), es_db = ss_db (fs_seq s),
      es_iter = refresh_iterator (fs_best s) (sg_pool sg) (flashblock_index ctx),
      es_limiter = fo_limiter (fs_out s), es_cancel_polls = 0, es_counters = zero_counters \<rparr>"
  obtain r' es where run: "execute_best_transactions ctx (best_txs_ops (fb_pool b)) (batch_limits ctx lims) ?i = Some (r', es)"
    using assms(1) by (auto simp: fb_execute_pool_def)
  have seq: "fs_seq s' = \<lparr> ss_info = es_info es, ss_db = es_db es \<rparr>"
    using assms(1) run by (cases r'; auto simp: fb_execute_pool_def Let_def split: if_splits)
  obtain tr where "included ctx (best_guard ctx (best_txs_ops (fb_pool b)) (batch_limits ctx lims)) (es_info ?i, es_db ?i) tr (es_info es, es_db es)"
    using best_includes [OF run] by blast
  from included_gas_within [OF this assms(2) best_guard_fits assms(4)] show ?thesis
    using assms(3,5) seq by simp
qed

lemma sidecar_gas:
  assumes "fb_execute_sidecar b ctx sg lims g s = Some (r, s')" "evm_gas_law (evm ctx) el"
    and "cumulative_gas_used (ss_info s) \<le> m" "min (lim_gas lims) (block_gas_limit ctx) \<le> m" "unat m + unat el < 2 ^ 64"
  shows "cumulative_gas_used (ss_info s') \<le> m"
proof -
  have "s' = s \<or> (\<exists>txs. s' = snd (execute_sidecar_transactions ctx (batch_limits ctx lims) txs s))"
    by (rule sidecar_outcome [OF assms(1)])
  moreover have "cumulative_gas_used (ss_info (snd (execute_sidecar_transactions ctx (batch_limits ctx lims) txs s))) \<le> m" for txs
  proof -
    obtain tr where "included ctx (sidecar_guard ctx (batch_limits ctx lims)) (ss_info s, ss_db s) tr
        (ss_info (snd (execute_sidecar_transactions ctx (batch_limits ctx lims) txs s)),
         ss_db (snd (execute_sidecar_transactions ctx (batch_limits ctx lims) txs s)))"
      using sidecar_includes by blast
    from included_gas_within [OF this assms(2) sidecar_guard_fits assms(4)] show ?thesis
      using assms(3,5) by simp
  qed
  ultimately show ?thesis using assms(3) by auto
qed

text \<open>A builder without transactions of its own.\<close>

definition no_builder_txs :: "('db, 'st, 'c, 'x) simulate_builder_txs \<Rightarrow> bool" where
  "no_builder_txs sim \<longleftrightarrow> (\<forall>info ctx db atop. sim info ctx db atop = (Inr [], info))"

lemma no_builder_txs_pure: "no_builder_txs sim \<Longrightarrow> simulation_pure sim"
  by (simp add: no_builder_txs_def simulation_pure_def)

lemma add_no_builder_txs: "no_builder_txs sim \<Longrightarrow> add_builder_txs sim ctx atop s = (Inr [], s)"
  by (simp add: no_builder_txs_def add_builder_txs_def)

lemma reserve_nothing: "lim_gas (reserved_limits x scalar []) = fx_target_gas_for_batch x"
  by (simp add: reserved_limits_def saturating_sub_def)

text \<open>A finished flashblock is published with the gas of the record.\<close>

lemma fb_finish_published:
  assumes "fb_finish b ctx sg lims s = (Inr (Some x), s')" "no_builder_txs (fb_builder_tx b)"
  obtains m where "fo_published (fs_out s') = fo_published (fs_out s) @ [m]"
    "fbd_gas_used (fb_diff m) = cumulative_gas_used (ss_info (fs_seq s'))"
    "cumulative_gas_used (ss_info (fs_seq s')) = cumulative_gas_used (ss_info (fs_seq s))"
proof -
  obtain q m s2 where bb: "build_block (fb_block_ops b) ctx
        (\<not> fx_disable_state_root (extra_ctx ctx) \<or> at_no_tx_pool (attributes ctx)) (fs_seq s) = (Inr (q, m), s2)"
    and em: "fb_emit ctx sg lims q m (fs_out s) = (Inr (Some x), fs_out s')" and seq: "fs_seq s' = s2"
    using assms(1) add_no_builder_txs [OF assms(2)] by (auto simp: fb_finish_def Let_def split: prod.splits sum.splits)
  have "fs_out s' = (fs_out s) \<lparr> fo_published := fo_published (fs_out s) @
      [m \<lparr> fb_index := flashblock_index ctx, fb_base := None \<rparr>],
      fo_sent := fo_sent (fs_out s) @ [q], fo_best_payload := Some q \<rparr>"
    using em by (auto simp: fb_emit_def Let_def split: if_splits sum.splits)
  then have pub: "fo_published (fs_out s') = fo_published (fs_out s) @ [m \<lparr> fb_index := flashblock_index ctx, fb_base := None \<rparr>]"
    by simp
  show ?thesis
    by (rule that [OF pub]) (simp_all add: build_block_ok(1,12) [OF bb] seq)
qed

lemma build_next_flashblock_gas:
  assumes run: "build_next_flashblock b ctx sg s = Some (Inr (Some x), s')" and none: "no_builder_txs (fb_builder_tx b)"
    and law: "evm_gas_law (evm ctx) el" and "cumulative_gas_used (ss_info (fs_seq s)) \<le> m"
    and target: "fx_target_gas_for_batch (extra_ctx ctx) \<le> m" and "unat m + unat el < 2 ^ 64"
  obtains msg where "fo_published (fs_out s') = fo_published (fs_out s) @ [msg]"
    "fbd_gas_used (fb_diff msg) = cumulative_gas_used (ss_info (fs_seq s'))"
    "cumulative_gas_used (ss_info (fs_seq s')) \<le> m"
proof -
  let ?lims = "reserved_limits (extra_ctx ctx) (da_footprint_scalar (ss_info (fs_seq s))) []"
  have lim: "min (lim_gas ?lims) (block_gas_limit ctx) \<le> m"
    unfolding reserve_nothing using target by (rule min.coboundedI1)
  note defs = build_next_flashblock_def Let_def add_no_builder_txs [OF none]
  obtain rp s2 where pool: "fb_execute_pool b ctx sg ?lims s = Some (Inr rp, s2)"
    using run by (auto simp: defs split: option.splits sum.splits)
  have nc: "\<not> sg_cancelled_after_pool sg" using run pool by (auto simp: defs)
  obtain rs s3 where side: "fb_execute_sidecar b ctx sg ?lims (cumulative_gas_used (ss_info (fs_seq s))) (fs_seq s2) = Some (Inr rs, s3)"
    and fin: "fb_finish b ctx sg ?lims (s2 \<lparr> fs_seq := s3 \<rparr>) = (Inr (Some x), s')"
    using run pool nc by (auto simp: defs split: option.splits sum.splits)
  have "cumulative_gas_used (ss_info s3) \<le> m"
    using sidecar_gas [OF side law _ lim assms(6)] pool_gas [OF pool law assms(4) lim assms(6)] by blast
  moreover have "fo_published (fs_out s2) = fo_published (fs_out s)"
    using arg_cong [OF pool_grows(2) [OF pool], of fo_published] by simp
  ultimately show ?thesis
    using fb_finish_published [OF fin none] that by (metis fb_state.select_convs(1,3) fb_state.surjective fb_state.update_convs(1))
qed

section \<open>Pacing\<close>

text \<open>What holds between two flashblocks: the number published is the index of the next, and the gas of each is
  within its share, unless the fallback block was above it already.\<close>

definition paced :: "('db, 'st) fb_ctx \<Rightarrow> u64 \<Rightarrow> u64 \<Rightarrow> fb_payload list \<Rightarrow> bool" where
  "paced ctx n g0 msgs \<longleftrightarrow>
     (\<forall>k < length msgs. unat (fbd_gas_used (fb_diff (msgs ! k)))
        \<le> max (unat g0) (k * (unat (block_gas_limit ctx) div unat n)))"

definition pacing_inv :: "('db, 'st) fb_ctx \<Rightarrow> fb_extra_ctx \<Rightarrow> u64 \<Rightarrow> fb_payload \<Rightarrow> fb_extra_ctx \<Rightarrow> ('db, 'i) fb_state \<Rightarrow> bool" where
  "pacing_inv ctx first n m0 x s \<longleftrightarrow>
     (let msgs = fo_published (fs_out s); g0 = fbd_gas_used (fb_diff m0) in
      flashblock_ctx first x \<and> fx_flashblock_index x = of_nat (length msgs) \<and> 0 < length msgs \<and> hd msgs = m0 \<and>
      length msgs \<le> unat n + 1 \<and> paced ctx n g0 msgs \<and>
      unat (cumulative_gas_used (ss_info (fs_seq s)))
        \<le> max (unat g0) ((length msgs - 1) * (unat (block_gas_limit ctx) div unat n)))"

lemma paced_append:
  "paced ctx n g0 (msgs @ [m]) \<longleftrightarrow>
     paced ctx n g0 msgs \<and>
     unat (fbd_gas_used (fb_diff m)) \<le> max (unat g0) (length msgs * (unat (block_gas_limit ctx) div unat n))"
  by (auto simp: paced_def nth_append less_Suc_eq)

lemma pacing_step:
  assumes inv: "pacing_inv ctx first n m0 (extra_ctx c) s" and same: "same_job ctx c"
    and first: "first_targets ctx mx nr sc n = Inr first" and n: "unat n + 1 < 2 ^ 64"
    and g0: "g0 = fbd_gas_used (fb_diff m0)"
    and law: "evm_gas_law (evm ctx) el" and room: "unat (max g0 (block_gas_limit ctx)) + unat el < 2 ^ 64"
    and none: "no_builder_txs (fb_builder_tx b)"
    and le: "fx_flashblock_index (extra_ctx c) \<le> fx_target_flashblock_count (extra_ctx c)"
    and run: "build_next_flashblock b c sg s = Some (Inr (Some x), t)"
  shows "pacing_inv ctx first n m0 x t"
proof -
  let ?k = "length (fo_published (fs_out s))" and ?share = "unat (block_gas_limit ctx) div unat n"
  have I: "flashblock_ctx first (extra_ctx c)" "fx_flashblock_index (extra_ctx c) = of_nat ?k" "0 < ?k" "hd (fo_published (fs_out s)) = m0" "?k \<le> unat n + 1"
    "paced ctx n g0 (fo_published (fs_out s))" "unat (cumulative_gas_used (ss_info (fs_seq s))) \<le> max (unat g0) ((?k - 1) * ?share)"
    using inv by (simp_all add: pacing_inv_def Let_def g0)
  note gas = flashblock_ctx_gas [OF I(1) first]
  have k: "unat (of_nat ?k :: u64) = ?k" using I(5) n by (simp add: unat_of_nat_small)
  have kn: "fx_flashblock_index (extra_ctx c) \<le> n" using le gas(1) by simp
  have target: "unat (fx_target_gas_for_batch (extra_ctx c)) = ?k * ?share" "?k * ?share \<le> unat (block_gas_limit ctx)"
    using share_no_overflow [OF kn, of "block_gas_limit ctx"] gas(3) I(2) k by simp_all
  let ?m = "max g0 (fx_target_gas_for_batch (extra_ctx c))"
  have m: "unat ?m = max (unat g0) (?k * ?share)"
    using target(1) by (simp add: max_def word_le_nat_alt)
  have room': "unat ?m + unat el < 2 ^ 64"
  proof -
    have "unat ?m \<le> unat (max g0 (block_gas_limit ctx))"
      unfolding m using target(2) by (simp add: max_def word_le_nat_alt)
    then show ?thesis using room by linarith
  qed
  have "(?k - 1) * ?share \<le> ?k * ?share" by (rule mult_le_mono1) simp
  then have cum: "cumulative_gas_used (ss_info (fs_seq s)) \<le> ?m"
    using I(7) unfolding word_le_nat_alt m by linarith
  have law': "evm_gas_law (evm c) el" using law same_job_evm [OF same] by simp
  obtain msg where msg: "fo_published (fs_out t) = fo_published (fs_out s) @ [msg]"
    "fbd_gas_used (fb_diff msg) = cumulative_gas_used (ss_info (fs_seq t))" "cumulative_gas_used (ss_info (fs_seq t)) \<le> ?m"
    by (rule build_next_flashblock_gas [OF run none law' cum _ room']) simp_all
  have bound: "unat (cumulative_gas_used (ss_info (fs_seq t))) \<le> max (unat g0) (?k * ?share)"
    using msg(3) unfolding word_le_nat_alt m .
  obtain lims where x: "x = next_targets (extra_ctx c) lims"
    using run no_builder_txs_pure [OF none]
    by (cases rule: build_next_flashblock_cases) (auto dest: finish_next_targets)
  have "?k \<le> unat n" using kn I(2) k by (simp add: word_le_nat_alt)
  then show ?thesis
    using build_next_flashblock_follows [OF run no_builder_txs_pure [OF none] I(1) le] msg(1,2) bound x I(2-4,6)
    by (simp add: pacing_inv_def paced_append g0)
qed

lemma build_next_flashblock_unpublished:
  assumes "build_next_flashblock b ctx sg s = Some (Inr None, t)" "simulation_pure (fb_builder_tx b)"
  shows "fo_published (fs_out t) = fo_published (fs_out s)"
  using assms
proof (cases rule: build_next_flashblock_cases)
  case cancelled
  show ?thesis using arg_cong [OF cancelled(2), of fo_published] by simp
next
  case (finished u)
  show ?thesis using arg_cong [OF finished(2), of fo_published] fb_finish_none [OF finished(3)] by simp
qed

lemma build_loop_pacing:
  assumes "build_loop b sgs ctx s = Some (r, s')" "pacing_inv ctx first n m0 (extra_ctx ctx) s"
    and "first_targets ctx mx nr sc n = Inr first" "unat n + 1 < 2 ^ 64"
    and "g0 = fbd_gas_used (fb_diff m0)" "evm_gas_law (evm ctx) el" "unat (max g0 (block_gas_limit ctx)) + unat el < 2 ^ 64"
    and none: "no_builder_txs (fb_builder_tx b)"
  shows "r = Inr () \<longrightarrow> paced ctx n g0 (fo_published (fs_out s')) \<and> hd (fo_published (fs_out s')) = m0"
  using assms(1,2) same_job_refl
proof (rule build_loop_rule)
  show "Inr () = Inr () \<longrightarrow> paced ctx n g0 (fo_published (fs_out t)) \<and> hd (fo_published (fs_out t)) = m0"
    if "pacing_inv ctx first n m0 (extra_ctx c) u" "build_next_flashblock b c sg u = Some (Inr None, t)" for c sg u t
    using that(1) build_next_flashblock_unpublished [OF that(2) no_builder_txs_pure [OF none]]
    by (simp add: pacing_inv_def Let_def assms(5))
  show "pacing_inv ctx first n m0 x t"
    if "same_job ctx c" "pacing_inv ctx first n m0 (extra_ctx c) u"
      "fx_flashblock_index (extra_ctx c) \<le> fx_target_flashblock_count (extra_ctx c)"
      "build_next_flashblock b c sg u = Some (Inr (Some x), t)" for c sg u x t
    by (rule pacing_step [OF that(2,1) assms(3-8) that(3,4)])
qed (simp_all add: pacing_inv_def Let_def assms(5))

text \<open>The first flashblock stays the first.\<close>

lemma build_loop_keeps_first:
  assumes "build_loop b sgs ctx s = Some (r, s')" "no_builder_txs (fb_builder_tx b)" "fo_published (fs_out s) = [m]"
  shows "r = Inr () \<longrightarrow> hd (fo_published (fs_out s')) = m"
proof -
  let ?I = "\<lambda>(x :: fb_extra_ctx) s. fo_published (fs_out s) \<noteq> [] \<and> hd (fo_published (fs_out s)) = m"
  note pure = no_builder_txs_pure [OF assms(2)]
  have I: "?I (extra_ctx ctx) s" using assms(3) by simp
  show ?thesis
    using assms(1) I same_job_refl
  proof (rule build_loop_rule)
    show "?I x t" if "?I (extra_ctx c) u" "build_next_flashblock b c sg u = Some (Inr (Some x), t)" for c sg u x t
      using that(2) pure
    proof (cases rule: build_next_flashblock_cases)
      case (finished v lims)
      have "fo_published (fs_out v) = fo_published (fs_out u)" using arg_cong [OF finished(2), of fo_published] by simp
      then show ?thesis
        using fb_finish_published [OF finished(3) assms(2)] that(1) by (metis append_is_Nil_conv hd_append2)
    qed simp
    show "Inr () = Inr () \<longrightarrow> hd (fo_published (fs_out t)) = m"
      if "?I (extra_ctx c) u" "build_next_flashblock b c sg u = Some (Inr None, t)" for c sg u t
      using build_next_flashblock_unpublished [OF that(2) pure] that(1) by simp
  qed simp_all
qed

text \<open>The number of flashblocks, with or without builder transactions.\<close>

lemma build_loop_count:
  assumes "build_loop b sgs ctx s = Some (r, s')" "simulation_pure (fb_builder_tx b)" "restore_law (fb_block_ops b)"
    and "fb_inv (evm ctx) db0 (extra_ctx ctx) s" "flashblock_ctx first (extra_ctx ctx)"
    and "fx_target_flashblock_count first = n" "unat n + 1 < 2 ^ 64" "length (fo_published (fs_out s)) \<le> unat n + 1"
  shows "r = Inr () \<longrightarrow> length (fo_published (fs_out s')) \<le> unat n + 1"
proof -
  let ?I = "\<lambda>x s. fb_inv (evm ctx) db0 x s \<and> flashblock_ctx first x \<and> length (fo_published (fs_out s)) \<le> unat n + 1"
  have I: "?I (extra_ctx ctx) s" using assms by simp
  have count: "fx_target_flashblock_count x = n" if "flashblock_ctx first x" for x
    using that assms(6) by (induction rule: flashblock_ctx.induct) simp_all
  show ?thesis
    using assms(1) I same_job_refl
  proof (rule build_loop_rule)
    show "?I x t" if same: "same_job ctx c" and I: "?I (extra_ctx c) u"
      and le: "fx_flashblock_index (extra_ctx c) \<le> fx_target_flashblock_count (extra_ctx c)"
      and run: "build_next_flashblock b c sg u = Some (Inr (Some x), t)" for c sg u x t
    proof -
      have inv: "fb_inv (evm ctx) db0 x t"
        using build_next_flashblock_inv(1) [OF run assms(2,3)] I same_job_evm [OF same] by auto
      have "unat (of_nat (length (fo_published (fs_out u))) :: u64) = length (fo_published (fs_out u))"
        by (rule unat_of_nat_small, rule le_less_trans [OF _ assms(7)]) (use I in blast)
      then have lt: "length (fo_published (fs_out u)) \<le> unat n"
        using I le count by (simp add: fb_inv_def word_le_nat_alt)
      have "length (fo_published (fs_out t)) = length (fo_sent (fs_out t))"
        "length (fo_published (fs_out u)) = length (fo_sent (fs_out u))"
        using inv I by (auto simp: fb_inv_def stream_ok_def)
      moreover have "length (fo_sent (fs_out t)) = length (fo_sent (fs_out u)) + 1"
        using build_next_flashblock_sent [OF run] by (auto simp: hands_over_def)
      ultimately show ?thesis
        using inv lt build_next_flashblock_follows [OF run assms(2)] I le by simp
    qed
    show "Inr () = Inr () \<longrightarrow> length (fo_published (fs_out t)) \<le> unat n + 1"
      if "same_job ctx c" "?I (extra_ctx c) u" "build_next_flashblock b c sg u = Some (Inr None, t)" for c sg u t
      using build_next_flashblock_unpublished [OF that(3) assms(2)] that(2) by simp
  qed auto
qed

text \<open>The state the loop starts from.\<close>

lemma first_targets_sel:
  assumes "first_targets ctx mx nr sc n = Inr x"
  shows "fx_flashblock_index x = 1" "fx_target_flashblock_count x = n" "n \<noteq> 0"
  using assms by (auto simp: first_targets_def Let_def split: if_splits)

lemma nothing_out_start [simp]:
  "nothing_out \<lparr> fo_limiter = l, fo_best_payload = None, fo_published = [], fo_sent = [] \<rparr>"
  by (simp add: nothing_out_def)

lemma flashblocks_start:
  fixes best :: "'j best_flashblocks_txs"
  assumes "job_ctx b attrs par ctx" "build_fallback b job ctx out0 = (Inr s, out1)" "\<not> at_no_tx_pool attrs"
    and "first_targets ctx mx nr sc n = Inr x0" "job_ctx b attrs par ctx'" "extra_ctx ctx' = x0"
    and "simulation_pure (fb_builder_tx b)" "restore_law (fb_block_ops b)" "nothing_out out0"
  obtains db0 where "start_db b attrs par = Some db0" "evm ctx' = fb_evm b"
    "fb_inv (evm ctx') db0 (extra_ctx ctx') \<lparr> fs_seq = s, fs_best = best, fs_out = out1 \<rparr>"
    "length (fo_published out1) = 1" "sent_ok b attrs par out1"
proof -
  have evm: "evm ctx' = fb_evm b" using assms(5) by (simp add: job_ctx_def)
  have sent: "sent_ok b attrs par out1" by (rule fallback_sent [OF assms(2,1,9,7,8)])
  show ?thesis
  proof (rule fallback_inv [OF assms(2,1,9,7,8,3)])
    fix db0
    assume start: "start_db b attrs par = Some db0" and len: "length (fo_published out1) = 1"
      and inv: "\<And>x (best :: 'j best_flashblocks_txs). fx_flashblock_index x = 1 \<Longrightarrow> fb_inv (fb_evm b) db0 x \<lparr> fs_seq = s, fs_best = best, fs_out = out1 \<rparr>"
    have "fb_inv (evm ctx') db0 (extra_ctx ctx') \<lparr> fs_seq = s, fs_best = best, fs_out = out1 \<rparr>"
      unfolding evm assms(6) by (rule inv [OF first_targets_sel(1) [OF assms(4)]])
    then show ?thesis by (rule that [OF start evm _ len sent])
  qed
qed

lemma fallback_published:
  assumes "build_fallback b job ctx out0 = (Inr t, out)" "job_ctx b attrs par ctx" "nothing_out out0" "\<not> at_no_tx_pool attrs"
  obtains m base where "fo_published out = [m]" "fbd_gas_used (fb_diff m) = cumulative_gas_used (ss_info t)"
    "fb_base m = Some base" "fbb_gas_limit base = block_gas_limit ctx"
  using assms(1-3)
proof (cases rule: build_fallback_cases)
  case (built db0 s s1 p m s2)
  have t: "t = s2" "fo_published out = [m]" using built(7) assms(4) by auto
  note bo = build_block_ok [OF built(4)]
  have "\<exists>base. fb_base m = Some base \<and> fbb_gas_limit base = block_gas_limit ctx"
    using built(4) by (auto simp: build_block_def fb_message_def Let_def and_then_eq_Inr split: sum.splits if_splits prod.splits)
  then show ?thesis using that t bo(1,12) by auto
qed simp

lemma first_targets_cong:
  "block_gas_limit ctx' = block_gas_limit ctx \<Longrightarrow> first_targets ctx' mx nr sc n = first_targets ctx mx nr sc n"
  by (simp add: first_targets_def)

section \<open>The data target\<close>

text \<open>The data the builder's pending transactions reserve, and the contexts of flashblocks that all reserve the same.\<close>

definition reserved_da :: "builder_tx_ctx list \<Rightarrow> u64" where
  "reserved_da btxs = fold (\<lambda>tx acc. acc + bt_da_size tx) (filter (\<lambda>tx. \<not> bt_is_top_of_block tx) btxs) 0"

definition after_flashblocks :: "u16 option \<Rightarrow> builder_tx_ctx list \<Rightarrow> nat \<Rightarrow> fb_extra_ctx \<Rightarrow> fb_extra_ctx" where
  "after_flashblocks scalar btxs k = (\<lambda>x. next_targets x (reserved_limits x scalar btxs)) ^^ k"

lemma next_da_target:
  assumes "fx_da_per_batch x = Some d" "fx_target_da_for_batch x = Some t"
  shows "fx_da_per_batch (next_targets x (reserved_limits x scalar btxs)) = Some d"
    "fx_target_da_for_batch (next_targets x (reserved_limits x scalar btxs)) = Some (saturating_sub t (reserved_da btxs) + d)"
  using assms by (simp_all add: next_targets_def fb_next_def reserved_limits_def reserved_da_def Let_def)

lemma after_flashblocks_da:
  assumes "fx_da_per_batch x = Some d" "fx_target_da_for_batch x = Some d" "reserved_da btxs \<le> d"
    and "(k + 1) * unat d < 2 ^ 64"
  shows "\<exists>t. fx_da_per_batch (after_flashblocks scalar btxs k x) = Some d \<and>
    fx_target_da_for_batch (after_flashblocks scalar btxs k x) = Some t \<and>
    unat t + k * unat (reserved_da btxs) = (k + 1) * unat d"
  using assms(4)
proof (induction k)
  case 0
  then show ?case using assms by (simp add: after_flashblocks_def)
next
  case (Suc k)
  let ?r = "reserved_da btxs" and ?y = "after_flashblocks scalar btxs k x"
  have "(k + 1) * unat d < 2 ^ 64" using Suc.prems by (rule le_less_trans [rotated]) simp
  from Suc.IH [OF this] obtain t where y: "fx_da_per_batch ?y = Some d" "fx_target_da_for_batch ?y = Some t"
    and t: "unat t + k * unat ?r = (k + 1) * unat d"
    by blast
  have r: "unat ?r \<le> unat d" using assms(3) by (simp add: word_le_nat_alt)
  then have "k * unat ?r \<le> k * unat d" by simp
  moreover have t': "unat t + k * unat ?r = k * unat d + unat d" using t by simp
  ultimately have rt: "unat ?r \<le> unat t" using r by linarith
  have "k * unat d + unat d + unat d < 2 ^ 64" using Suc.prems by (simp add: algebra_simps)
  then have "unat t - unat ?r + unat d < 2 ^ 64" using t' by linarith
  then have "unat (saturating_sub t ?r + d) = unat t - unat ?r + unat d"
    using rt by (subst unat_add_no_wrap) (simp_all add: unat_saturating_sub)
  moreover have "after_flashblocks scalar btxs (Suc k) x = next_targets ?y (reserved_limits ?y scalar btxs)"
    by (simp add: after_flashblocks_def)
  ultimately show ?case
    using next_da_target [OF y, of scalar btxs] t' rt by auto
qed

section \<open>The timer\<close>

definition timer_inv :: "timer_state \<Rightarrow> bool" where
  "timer_inv s \<longleftrightarrow> set (butlast (tm_sent s)) \<subseteq> set (tm_cancelled s) \<and>
     (tm_running s \<longrightarrow> tm_sent s \<noteq> [] \<longrightarrow> last (tm_sent s) = tm_current s)"

lemma timer_step_inv:
  assumes "timer_inv s"
  shows "timer_inv (timer_step s ev)"
proof (cases "tm_running s")
  case True
  then have "set (tm_sent s) \<subseteq> insert (tm_current s) (set (tm_cancelled s))"
    using assms by (cases "tm_sent s" rule: rev_cases) (auto simp: timer_inv_def)
  then show ?thesis
    using True assms by (cases ev; cases "fst ev") (auto simp: timer_inv_def timer_step_def timer_send_def dest: in_set_butlastD)
qed (use assms in \<open>simp add: timer_step_def\<close>)

lemma timer_run_inv: "timer_inv (timer_run at_end receiver evs)"
proof -
  have "timer_inv (foldl timer_step s evs)" if "timer_inv s" for s
    using that by (induction evs arbitrary: s) (simp_all add: timer_step_inv)
  moreover have "timer_inv (timer_start at_end receiver)"
    by (simp add: timer_inv_def timer_start_def timer_send_def Let_def)
  ultimately show ?thesis by (simp add: timer_run_def)
qed

section \<open>Every build returns\<close>

lemma poll_transactions_total:
  assumes "unat (max_retries cfg) < 2 ^ 32 - 1"
  shows "\<exists>r. poll_transactions http cfg = Some r"
  using poll_loop_steps [OF assms, of 0 "\<lparr> requests = 0, delays = [] \<rparr>" http]
  by (auto simp: poll_transactions_def)

context pool_supply
begin

lemma build_next_flashblock_returns:
  assumes "fb_pool b = ops" "unat (max_retries (sidecar (specific (fb_config_of b)))) < 2 ^ 32 - 1"
  shows "\<exists>r. build_next_flashblock b ctx sg s = Some r"
proof -
  have pool: "\<exists>r. fb_execute_pool b ctx sg lims s = Some r" for lims and s
    using finite_payload_txs.execute_best_returns [OF best_finite] assms(1)
    by (fastforce simp: fb_execute_pool_def)
  have side: "\<exists>r. fb_execute_sidecar b ctx sg lims g s = Some r" for lims g s
    using poll_transactions_total [OF assms(2)] by (fastforce simp: fb_execute_sidecar_def)
  obtain added s1 where add: "add_builder_txs (fb_builder_tx b) ctx True (fs_seq s) = (added, s1)" by fastforce
  let ?lims = "reserved_limits (extra_ctx ctx) (da_footprint_scalar (ss_info s1)) (case added of Inl e \<Rightarrow> [] | Inr txs \<Rightarrow> txs)"
  obtain rp s2 where p: "fb_execute_pool b ctx sg ?lims (s \<lparr> fs_seq := s1 \<rparr>) = Some (rp, s2)"
    using pool by fastforce
  obtain rs s3 where q: "fb_execute_sidecar b ctx sg ?lims (cumulative_gas_used (ss_info s1)) (fs_seq s2) = Some (rs, s3)"
    using side by fastforce
  have "build_next_flashblock b ctx sg s \<noteq> None"
    using add p q by (simp add: build_next_flashblock_def Let_def split: sum.split)
  then show ?thesis by blast
qed

lemma build_loop_returns:
  assumes "fb_pool b = ops" "unat (max_retries (sidecar (specific (fb_config_of b)))) < 2 ^ 32 - 1"
  shows "\<exists>r. build_loop b sgs ctx s = Some r"
proof (induction sgs arbitrary: ctx s)
  case (Cons sg sgs)
  obtain rn t where rn: "build_next_flashblock b (with_cancel ctx (sg_cancel sg)) sg s = Some (rn, t)"
    using build_next_flashblock_returns [OF assms] by fastforce
  consider e where "rn = Inl e" | "rn = Inr None" | x where "rn = Inr (Some x)"
    by (metis sum.exhaust not_Some_eq)
  then show ?case by cases (use rn Cons.IH in \<open>auto simp: Let_def\<close>)
qed simp

lemma build_payload_returns:
  assumes "fb_pool b = ops" "unat (max_retries (sidecar (specific (fb_config_of b)))) < 2 ^ 32 - 1"
  shows "\<exists>r. build_payload b job limiter = Some r"
  using build_loop_returns [OF assms]
  by (auto simp: build_payload_def Let_def split: sum.split prod.split)

end

end
