(* ===== verification/Fb_Samples.thy ===== *)
theory Fb_Samples
  imports Fb_Gas
begin

text \<open>
  A flashblocks builder on the small environment of \<open>Samples\<close>: eight flashblocks a block, no builder
  transactions, no sidecar, a pool that is a list. One build of it is evaluated: a sequencer transaction in the
  fallback block, then one flashblock with a transaction of the pool.
\<close>

definition demo_block_ops :: "nat block_ops" where
  "demo_block_ops = \<lparr> merge_transitions = (\<lambda>db. db), restore_transitions = (\<lambda>db merged. db),
     receipts_root_of = (\<lambda>db rs n. Some (of_nat (length rs))), logs_bloom_of = (\<lambda>db rs n. Some []),
     state_root_with_updates = (\<lambda>db. Inr (of_nat db)), isthmus_withdrawals_root = (\<lambda>db. Inr 0),
     calculate_transaction_root = (\<lambda>txs. of_nat (length txs)),
     hash_slow = (\<lambda>h. ucast (hd_gas_used h)), bundle_balances = (\<lambda>db. []),
     empty_requests_hash = 1, empty_withdrawals = 2 \<rparr>"

definition demo_cfg :: "fb_config builder_config" where
  "demo_cfg = builder_config_default (fb_config_default \<lparr> fixed := True \<rparr>)
     \<lparr> gas_limiter_enabled = False, max_gas_per_address = 0, refill_rate_per_block = 0, cleanup_interval = 0 \<rparr>"

definition demo_builder :: "(nat, nat, pool) fb_builder" where
  "demo_builder = \<lparr>
     fb_config_of = demo_cfg,
     fb_evm = demo_ops, fb_block_ops = demo_block_ops, fb_chain_spec = demo_spec False,
     fb_max_da_tx_size = None, fb_max_da_block_size = Some 80000, fb_gas_limit_config = None,
     fb_builder_signer = None, fb_feature_interop = False,
     fb_builder_tx = (\<lambda>info ctx db atop. (Inr [], info)), fb_pool = snapshot_ops,
     fb_next_evm_env = (\<lambda>par a. Inr \<lparr> be_number = 42, be_gas_limit = nb_gas_limit a, be_basefee = 7,
        be_blob_gasprice = None, be_beneficiary = nb_suggested_fee_recipient a, be_difficulty = 0 \<rparr>),
     fb_state_by_block_hash = (\<lambda>h. Inr 0), fb_pre_execution = (\<lambda>par a db. Inr db),
     fb_transition_state = (\<lambda>db. None), fb_address_to_string = (\<lambda>a. hex_digits (unat a)) \<rparr>"

definition demo_signal :: "fb_pooled_tx list \<Rightarrow> pool fb_signal" where
  "demo_signal txs = \<lparr> sg_cancel = (\<lambda>n. False), sg_pool = (txs, []), sg_http = (\<lambda>rq n. Inl ''''),
     sg_cancelled_after_pool = False, sg_cancelled_after_build = False, sg_publish = Inr 0, sg_try_send = Inr () \<rparr>"

definition demo_job :: "bool \<Rightarrow> pool fb_signal list \<Rightarrow> pool fb_job" where
  "demo_job no_pool sgs = \<lparr>
     jb_attributes = (demo_attrs [demo_tx 1 0]) \<lparr> at_no_tx_pool := no_pool \<rparr>,
     jb_parent = \<lparr> ph_hash = 5, ph_number = 41, ph_state_root = 6, ph_timestamp = 998, ph_gas_limit = 30000000 \<rparr>,
     jb_now = 0, jb_block_cancel = (\<lambda>n. False), jb_pool = ([], []), jb_try_send = Inr (), jb_publish = Inr 0,
     jb_signals = sgs \<rparr>"

lemmas demo_fb_defs = demo_block_ops_def demo_builder_def demo_signal_def demo_job_def

lemma demo_builder_laws:
  "simulation_pure (fb_builder_tx demo_builder)" "no_builder_txs (fb_builder_tx demo_builder)"
  "restore_law (fb_block_ops demo_builder)" "evm_gas_law (fb_evm demo_builder) 30000000"
  using demo_gas_law [of False "[]" "()"]
  by (simp_all add: simulation_pure_def no_builder_txs_def restore_law_def demo_builder_def demo_block_ops_def demo_ctx_def)

lemma demo_cfg_sel:
  "flashblocks_per_block demo_cfg = Inr 8"
  "derive_timing demo_cfg now ts = Inr (8, 250000000, 2000000000)"
  "disable_state_root (specific demo_cfg) = False" "cfg_max_gas_per_txn demo_cfg = None"
  "poll_transactions http (sidecar (specific demo_cfg)) = Some (Inr None, \<lparr> requests = 0, delays = [] \<rparr>)"
  "unat (max_retries (sidecar (specific demo_cfg))) = 5"
  by (simp_all add: demo_cfg_def builder_config_default_def fb_config_default_def flashblocks_per_block_def
      derive_timing_def calculate_flashblocks_def from_millis_def from_secs_def as_millis_def dur_sub_def
      poll_transactions_def is_enabled_def sidecar_config_default_def)

lemmas fb_simps = build_payload_def build_fallback_def execute_pre_steps_def next_block_env_def
  get_op_payload_builder_ctx_def build_block_def block_roots_def block_header_def fb_message_def seal_block_def
  blob_fields_def extra_data_def withdrawals_def block_gas_limit_def is_jovian_active_def is_ecotone_active_def
  is_holocene_active_def is_regolith_active_def execute_sequencer_transactions_def sequencer_step_def
  depositor_nonce_def add_builder_txs_def fb_extra_ctx_default_def convert_receipt_def as_u64_saturated_def

text \<open>The fallback block of the build.\<close>

lemma demo_fallback:
  "\<exists>out. build_payload demo_builder (demo_job np []) None = Some (Inr (), out) \<and>
     (\<exists>p. fo_best_payload out = Some p \<and> sb_transactions (bp_block p) = [demo_tx 1 0]) \<and>
     length (fo_published out) = (if np then 0 else 1)"
  by (cases np) (simp_all add: fb_simps exec_simps demo_defs demo_fb_defs demo_cfg_sel Let_def first_targets_def)

lemmas fb_step_simps = build_next_flashblock_def fb_execute_pool_def fb_execute_sidecar_def fb_finish_def fb_emit_def
  reserved_limits_def batch_limits_def next_targets_def fb_next_def flashblock_index_def target_flashblock_count_def
  with_cancel_def with_extra_ctx_def first_targets_def refresh_iterator_def mark_commited_def best_new_def
  best_txs_ops_def best_next_def best_mark_invalid_def best_draw_def best_filter_def saturating_sub_def

text \<open>A flashblock with a transaction of the pool.\<close>

lemma demo_build:
  "\<exists>out. build_payload demo_builder (demo_job False [demo_signal [demo_pool_tx 2 0 None]]) None = Some (Inr (), out) \<and>
     (\<exists>p. fo_best_payload out = Some p \<and> sb_transactions (bp_block p) = [demo_tx 1 0, demo_tx 2 0]) \<and>
     map (fbd_transactions \<circ> fb_diff) (fo_published out) = [[[1]], [[2]]] \<and>
     map (fbd_gas_used \<circ> fb_diff) (fo_published out) = [21000, 42000] \<and> map fb_index (fo_published out) = [0, 1] \<and>
     map_option fbb_gas_limit (fb_base (hd (fo_published out))) = Some 30000000"
  by (simp add: fb_simps fb_step_simps exec_simps demo_defs demo_fb_defs demo_cfg_sel)

end
