(* ===== verification/Sync.thy ===== *)
theory Sync
  imports Fb_Samples "HOL-Library.Multiset"
begin

text \<open>
  \<^verbatim>\<open>builders/flashblocks/payload_handler.rs\<close>, \<^verbatim>\<open>builders/flashblocks/ctx.rs\<close> and
  \<^verbatim>\<open>builders/flashblocks/p2p.rs\<close>: what a builder does with payloads of its own and of its peers. Own payloads are
  announced to the node and sent to the peers. A payload of a peer is executed again from its parent, and
  announced only if the block comes out with the same hash. The node's client, its consensus rules and the encoders
  of the extra data are the record \<open>sync_env\<close>.
\<close>

section \<open>Model: messages\<close>

record p2p_payload =
  pp_id :: u64
  pp_block :: sealed_block
  pp_fees :: u256

datatype p2p_message = MsgBuiltPayload p2p_payload

text \<open>A payload received from a peer comes without its execution.\<close>

definition payload_of_p2p :: "p2p_payload \<Rightarrow> built_payload" where
  "payload_of_p2p m = \<lparr> bp_id = pp_id m, bp_block = pp_block m, bp_fees = pp_fees m, bp_senders = [], bp_receipts = [] \<rparr>"

definition p2p_of_payload :: "built_payload \<Rightarrow> p2p_payload" where
  "p2p_of_payload p = \<lparr> pp_id = bp_id p, pp_block = bp_block p, pp_fees = bp_fees p \<rparr>"

definition message_of_payload :: "built_payload \<Rightarrow> p2p_message" where
  "message_of_payload p = MsgBuiltPayload (p2p_of_payload p)"

section \<open>Model: context\<close>

record ('db, 'st) syncer_ctx =
  sy_evm :: "('db, 'st) evm_ops"
  sy_max_da_tx_size :: "u64 option"
  sy_chain_spec :: chain_spec
  sy_max_gas_per_txn :: "u64 option"

definition syncer_ctx_new ::
  "chain_spec \<Rightarrow> u64 option \<Rightarrow> 's builder_config \<Rightarrow> ('db, 'st) evm_ops \<Rightarrow> ('db, 'st) syncer_ctx" where
  "syncer_ctx_new client_spec da_tx_size cfg ops =
     \<lparr> sy_evm = ops, sy_max_da_tx_size = da_tx_size, sy_chain_spec = client_spec,
       sy_max_gas_per_txn = cfg_max_gas_per_txn cfg \<rparr>"

definition sync_regolith_active :: "('db, 'st) syncer_ctx \<Rightarrow> u64 \<Rightarrow> bool" where
  "sync_regolith_active ctx ts = regolith_at (sy_chain_spec ctx) ts"

definition sync_canyon_active :: "('db, 'st) syncer_ctx \<Rightarrow> u64 \<Rightarrow> bool" where
  "sync_canyon_active ctx ts = canyon_at (sy_chain_spec ctx) ts"

definition into_op_payload_builder_ctx ::
  "('db, 'st) syncer_ctx \<Rightarrow> payload_attrs \<Rightarrow> parent_header \<Rightarrow> block_env \<Rightarrow> (nat \<Rightarrow> bool) \<Rightarrow> ('db, 'st, unit) op_ctx" where
  "into_op_payload_builder_ctx ctx attrs par evm_env cancelled =
     \<lparr> evm = sy_evm ctx, max_da_tx_size = sy_max_da_tx_size ctx, gas_limit_config = None, spec = sy_chain_spec ctx,
       attributes = attrs, parent = par, env = evm_env, cancel = cancelled, builder_signer = None, extra_ctx = (),
       max_gas_per_txn = sy_max_gas_per_txn ctx, feature_interop = False \<rparr>"

record 'db sync_env =
  se_header_by_id :: "b256 \<Rightarrow> string + parent_header option"
  se_chain_spec :: chain_spec
  se_validate_header :: "sealed_block \<Rightarrow> string + unit"
  se_validate_against_parent :: "sealed_block \<Rightarrow> parent_header \<Rightarrow> string + unit"
  se_state_by_block_hash :: "b256 \<Rightarrow> string + 'db"
  se_next_evm_env :: "parent_header \<Rightarrow> next_block_env_attrs \<Rightarrow> string + block_env"
  se_pre_execution :: "parent_header \<Rightarrow> next_block_env_attrs \<Rightarrow> 'db \<Rightarrow> string + 'db"
  se_jovian_extra_data :: "bytes option \<Rightarrow> u64 option \<Rightarrow> base_fee_params \<Rightarrow> string + bytes"
  se_holocene_extra_data :: "bytes option \<Rightarrow> base_fee_params \<Rightarrow> string + bytes"
  se_block_ops :: "'db block_ops"

section \<open>Model: executing a received flashblock\<close>

definition validate_pre_execution :: "'db sync_env \<Rightarrow> sealed_block \<Rightarrow> parent_header \<Rightarrow> string + unit" where
  "validate_pre_execution se block par =
     and_then (se_validate_header se block) (\<lambda>_. se_validate_against_parent se block par)"

text \<open>The fee parameters in the extra data of the header: 17 bytes after Jovian, 9 after Holocene, none before.\<close>

definition parse_extra_data :: "chain_spec \<Rightarrow> u64 \<Rightarrow> bytes \<Rightarrow> string + bytes option \<times> u64 option" where
  "parse_extra_data cspec ts ed =
     (if jovian_at cspec ts then
        if length ed \<noteq> 17 then Inl ''extra data length should be 17 bytes''
        else Inr (Some (take 8 (drop 1 ed)), Some (from_be_bytes (take 8 (drop 9 ed))))
      else if holocene_at cspec ts then
        if length ed \<noteq> 9 then Inl ''extra data length should be 9 bytes''
        else Inr (Some (take 8 (drop 1 ed)), None)
      else if ed \<noteq> [] then Inl ''extra data length should be 0 bytes''
      else Inr (None, None))"

definition sync_build_receipt ::
  "('db, 'st) syncer_ctx \<Rightarrow> op_tx \<Rightarrow> exec_result \<Rightarrow> u64 option \<Rightarrow> u64 \<Rightarrow> u64 \<Rightarrow> op_receipt" where
  "sync_build_receipt ctx tx result deposit_nonce ts cum =
     (case rb_build_receipt (sy_evm ctx) tx result cum of
        Some rc \<Rightarrow> rc
      | None \<Rightarrow>
          rb_build_deposit_receipt (sy_evm ctx)
            \<lparr> dr_inner = \<lparr> rc_status = is_success result, rc_cumulative_gas_used = cum, rc_logs = into_logs result \<rparr>,
              dr_deposit_nonce = deposit_nonce,
              dr_deposit_receipt_version = (if sync_canyon_active ctx ts then Some 1 else None) \<rparr>)"

definition sync_depositor_nonce :: "('db, 'st) syncer_ctx \<Rightarrow> u64 \<Rightarrow> 'db \<Rightarrow> op_tx \<Rightarrow> address \<Rightarrow> string + u64 option" where
  "sync_depositor_nonce ctx ts db tx sender =
     (if sync_regolith_active ctx ts \<and> is_deposit tx
      then (case load_cache_account (sy_evm ctx) db sender of
              Inl _ \<Rightarrow> Inl ''failed to get depositor nonce''
            | Inr nonce \<Rightarrow> Inr (Some (unwrap_or 0 nonce)))
      else Inr None)"

definition sync_step ::
  "('db, 'st) syncer_ctx \<Rightarrow> u64 \<Rightarrow> u64 \<Rightarrow> ('db, fb_execution_info) seq_state \<Rightarrow> op_tx
   \<Rightarrow> string flow \<times> ('db, fb_execution_info) seq_state" where
  "sync_step ctx gas_limit ts s tx =
     (case try_recover (sy_evm ctx) tx of
        None \<Rightarrow> (Return ''failed to recover tx'', s)
      | Some sender \<Rightarrow>
          (case sync_depositor_nonce ctx ts (ss_db s) tx sender of
             Inl e \<Rightarrow> (Return e, s)
           | Inr nonce \<Rightarrow>
               (case transact (sy_evm ctx) (ss_db s) (Recovered tx sender) of
                  Inl _ \<Rightarrow> (Return ''failed to execute transaction'', s)
                | Inr (result, state) \<Rightarrow>
                    if is_some_and (sy_max_gas_per_txn ctx) (\<lambda>m. m < gas_used result)
                    then (Return ''transaction exceeded max gas per txn limit in flashblock'', s)
                    else (case checked_add (cumulative_gas_used (ss_info s)) (gas_used result) of
                            None \<Rightarrow> (Return ''total gas used overflowed when executing flashblock transactions'', s)
                          | Some cum \<Rightarrow>
                              if gas_limit < cum
                              then (Return ''flashblock exceeded gas limit when executing transactions'',
                                    s \<lparr> ss_info := (ss_info s) \<lparr> cumulative_gas_used := cum \<rparr> \<rparr>)
                              else
                                (Continue,
                                 s \<lparr> ss_info := push_executed (ss_info s) (Recovered tx sender) (gas_used result) 0
                                                 (sync_build_receipt ctx tx result nonce ts),
                                     ss_db := commit (sy_evm ctx) (ss_db s) state \<rparr>)))))"

definition execute_transactions ::
  "('db, 'st) syncer_ctx \<Rightarrow> chain_spec \<Rightarrow> op_tx list \<Rightarrow> u64 \<Rightarrow> u64 \<Rightarrow> ('db, fb_execution_info) seq_state
   \<Rightarrow> string + ('db, fb_execution_info) seq_state" where
  "execute_transactions ctx cspec txs gas_limit ts s =
     (case for_in (sync_step ctx gas_limit ts) txs s of
        (Return e, _) \<Rightarrow> Inl e
      | (Continue, t) \<Rightarrow>
          if jovian_at cspec ts
          then (case fetch_da_footprint_gas_scalar (sy_evm ctx) (ss_db t) of
                  None \<Rightarrow> Inl ''DA footprint should always be available from the database post jovian''
                | Some scalar \<Rightarrow> Inr (t \<lparr> ss_info := (ss_info t) \<lparr> da_footprint_scalar := Some scalar \<rparr> \<rparr>))
          else Inr (t \<lparr> ss_info := (ss_info t) \<lparr> da_footprint_scalar := None \<rparr> \<rparr>))"

definition sync_env_attributes :: "header \<Rightarrow> next_block_env_attrs" where
  "sync_env_attributes h =
     \<lparr> nb_timestamp = hd_timestamp h, nb_suggested_fee_recipient = hd_beneficiary h, nb_prev_randao = hd_mix_hash h,
       nb_gas_limit = hd_gas_limit h, nb_parent_beacon_block_root = hd_parent_beacon_block_root h,
       nb_extra_data = hd_extra_data h \<rparr>"

definition sync_attributes :: "'db sync_env \<Rightarrow> built_payload \<Rightarrow> bytes option \<Rightarrow> u64 option \<Rightarrow> payload_attrs" where
  "sync_attributes se p eip_1559_params min_base_fee =
     (let h = sb_header (bp_block p) in
      \<lparr> at_timestamp = hd_timestamp h, at_transactions = [], at_no_tx_pool = False, at_gas_limit = None,
        at_withdrawals = unwrap_or [] (sb_withdrawals (bp_block p)),
        at_parent_beacon_root = hd_parent_beacon_block_root h, at_prev_randao = hd_mix_hash h,
        at_fee_recipient = hd_beneficiary h, at_payload_id = bp_id p,
        get_jovian_extra_data = se_jovian_extra_data se eip_1559_params min_base_fee,
        get_holocene_extra_data = se_holocene_extra_data se eip_1559_params \<rparr>)"

definition payload_error_text :: "payload_error \<Rightarrow> string" where
  "payload_error_text e = (case e of OtherError m \<Rightarrow> m | Panic m \<Rightarrow> m | _ \<Rightarrow> ''failed to build flashblock'')"

definition execute_flashblock ::
  "'db sync_env \<Rightarrow> ('db, 'st) syncer_ctx \<Rightarrow> (nat \<Rightarrow> bool) \<Rightarrow> built_payload \<Rightarrow> string + built_payload \<times> fb_payload" where
  "execute_flashblock se ctx cancelled p =
     (let block = bp_block p;
          h = sb_header block;
          parent_hash = hd_parent_hash h;
          attrs = sync_env_attributes h in
      and_then (and_then (se_header_by_id se parent_hash) (ok_or ''parent header not found'')) (\<lambda>par.
      and_then (validate_pre_execution se block par) (\<lambda>_.
      and_then (se_state_by_block_hash se parent_hash) (\<lambda>db.
      and_then (se_next_evm_env se par attrs) (\<lambda>evm_env.
      and_then (se_pre_execution se par attrs db) (\<lambda>db1.
      and_then (parse_extra_data (se_chain_spec se) (hd_timestamp h) (hd_extra_data h)) (\<lambda>(eip_1559_params, min_base_fee).
      and_then (execute_transactions ctx (se_chain_spec se) (sb_transactions block) (hd_gas_used h) (hd_timestamp h)
                  \<lparr> ss_info = (with_capacity \<lparr> last_flashblock_index = 0 \<rparr>)
                      \<lparr> optional_blob_fields := Some (hd_excess_blob_gas h, hd_blob_gas_used h) \<rparr>,
                    ss_db = db1 \<rparr>) (\<lambda>s.
      (case build_block (se_block_ops se)
              (into_op_payload_builder_ctx ctx (sync_attributes se p eip_1559_params min_base_fee) (par \<lparr> ph_hash := parent_hash \<rparr>)
                 evm_env cancelled) True s of
         (Inl e, _) \<Rightarrow> Inl (payload_error_text e)
       | (Inr (built, message), _) \<Rightarrow>
           if sb_hash (bp_block built) \<noteq> sb_hash block then Inl ''flashblock hash mismatch after execution''
           else Inr (built, message))))))))))"

section \<open>Model: the handler\<close>

text \<open>What the handler has given out, events to the node and messages to the peers, and the received payloads whose
  execution is under way on another thread.\<close>

record handler_state =
  ho_events :: "built_payload list"
  ho_p2p :: "p2p_message list"
  ho_running :: "built_payload list"

text \<open>The handler receives; an execution it has started runs against the client as it is when its turn comes.\<close>

datatype 'db handler_event = BuiltRx built_payload | P2pRx p2p_message | TaskDone "'db sync_env" nat

definition handler_task_done ::
  "('db, 'st) syncer_ctx \<Rightarrow> (nat \<Rightarrow> bool) \<Rightarrow> 'db sync_env \<Rightarrow> nat \<Rightarrow> handler_state \<Rightarrow> handler_state" where
  "handler_task_done ctx cancelled se i s =
     (if i < length (ho_running s) then
        let s' = s \<lparr> ho_running := take i (ho_running s) @ drop (Suc i) (ho_running s) \<rparr> in
        case execute_flashblock se ctx cancelled (ho_running s ! i) of
          Inl e \<Rightarrow> s'
        | Inr (p, _) \<Rightarrow> s' \<lparr> ho_events := ho_events s @ [p] \<rparr>
      else s)"

definition handler_step ::
  "('db, 'st) syncer_ctx \<Rightarrow> (nat \<Rightarrow> bool) \<Rightarrow> bool \<Rightarrow> handler_state \<Rightarrow> 'db handler_event \<Rightarrow> handler_state" where
  "handler_step ctx cancelled p2p_open s ev =
     (case ev of
        BuiltRx p \<Rightarrow>
          s \<lparr> ho_events := ho_events s @ [p],
              ho_p2p := ho_p2p s @ (if p2p_open then [message_of_payload p] else []) \<rparr>
      | P2pRx (MsgBuiltPayload m) \<Rightarrow> s \<lparr> ho_running := ho_running s @ [payload_of_p2p m] \<rparr>
      | TaskDone se i \<Rightarrow> handler_task_done ctx cancelled se i s)"

definition handler_run ::
  "('db, 'st) syncer_ctx \<Rightarrow> (nat \<Rightarrow> bool) \<Rightarrow> bool \<Rightarrow> 'db handler_event list \<Rightarrow> handler_state" where
  "handler_run ctx cancelled p2p_open evs =
     foldl (handler_step ctx cancelled p2p_open) \<lparr> ho_events = [], ho_p2p = [], ho_running = [] \<rparr> evs"

section \<open>A received flashblock is executed like a built one\<close>

text \<open>A builder context for the same chain and time.\<close>

definition syncs_with :: "('db, 'st) syncer_ctx \<Rightarrow> u64 \<Rightarrow> ('db, 'st, 'c) op_ctx \<Rightarrow> bool" where
  "syncs_with ctx ts c \<longleftrightarrow>
     evm c = sy_evm ctx \<and> spec c = sy_chain_spec ctx \<and> at_timestamp (attributes c) = ts"

lemma sync_receipt_eq: "syncs_with ctx ts c \<Longrightarrow> sync_build_receipt ctx tx r n ts = build_receipt c tx r n"
  by (auto simp: fun_eq_iff sync_build_receipt_def build_receipt_def syncs_with_def sync_canyon_active_def
      is_canyon_active_def split: option.split)

lemma sync_nonce_eq:
  "syncs_with ctx ts c \<Longrightarrow>
   sync_depositor_nonce ctx ts db tx sender = Inr n \<longleftrightarrow> depositor_nonce c db (Recovered tx sender) = Inr n"
  by (simp add: sync_depositor_nonce_def depositor_nonce_def syncs_with_def sync_regolith_active_def is_regolith_active_def
      split: sum.split)

lemma syncs_with_into:
  "syncs_with ctx (at_timestamp attrs) (into_op_payload_builder_ctx ctx attrs par e cancelled)"
  by (simp add: syncs_with_def into_op_payload_builder_ctx_def)

definition sync_guard ::
  "('db, 'st) syncer_ctx \<Rightarrow> u64 \<Rightarrow> 'x execution_info \<Rightarrow> recovered \<Rightarrow> exec_result \<Rightarrow> u64 \<Rightarrow> bool" where
  "sync_guard ctx gas_limit info tx r da \<longleftrightarrow>
     try_recover (sy_evm ctx) (inner_tx tx) = Some (signer tx) \<and>
     (\<forall>m. sy_max_gas_per_txn ctx = Some m \<longrightarrow> gas_used r \<le> m) \<and>
     unat (cumulative_gas_used info) + unat (gas_used r) \<le> unat gas_limit"

lemma sync_step_continue:
  assumes "sync_step ctx gas_limit ts s tx = (Continue, t)" "syncs_with ctx ts c"
  obtains sender r where "included c (sync_guard ctx gas_limit) (ss_info s, ss_db s) [(Recovered tx sender, r)] (ss_info t, ss_db t)"
proof -
  obtain sender nonce r st cum where
      rec: "try_recover (sy_evm ctx) tx = Some sender"
    and nonce: "sync_depositor_nonce ctx ts (ss_db s) tx sender = Inr nonce"
    and run: "transact (sy_evm ctx) (ss_db s) (Recovered tx sender) = Inr (r, st)"
    and max: "\<not> is_some_and (sy_max_gas_per_txn ctx) (\<lambda>m. m < gas_used r)"
    and cum: "checked_add (cumulative_gas_used (ss_info s)) (gas_used r) = Some cum" "\<not> gas_limit < cum"
    and t: "t = s \<lparr> ss_info := push_executed (ss_info s) (Recovered tx sender) (gas_used r) 0 (sync_build_receipt ctx tx r nonce ts),
                     ss_db := commit (sy_evm ctx) (ss_db s) st \<rparr>"
    using assms(1) by (auto simp: sync_step_def split: option.split_asm sum.split_asm if_split_asm)
  have "unat cum = unat (cumulative_gas_used (ss_info s)) + unat (gas_used r)"
    using cum(1) by (simp add: checked_add_Some)
  moreover have "\<forall>m. sy_max_gas_per_txn ctx = Some m \<longrightarrow> gas_used r \<le> m"
    using max by (auto simp: is_some_and_iff not_less)
  moreover have "unat cum \<le> unat gas_limit" using cum(2) by (simp add: not_less word_le_nat_alt)
  ultimately have "sync_guard ctx gas_limit (ss_info s) (Recovered tx sender) r 0"
    using rec by (simp add: sync_guard_def)
  with run have "included c (sync_guard ctx gas_limit) (ss_info s, ss_db s) [(Recovered tx sender, r)]
      (push_executed (ss_info s) (Recovered tx sender) (gas_used r) 0 (build_receipt c tx r nonce), commit (evm c) (ss_db s) st)"
    using assms(2) included_push [of c "ss_db s" "Recovered tx sender" r st "sync_guard ctx gas_limit" "ss_info s" 0 nonce tx]
      sync_nonce_eq [OF assms(2)] nonce
    by (simp add: syncs_with_def)
  then show ?thesis
    using that t assms(2) sync_receipt_eq [OF assms(2)] by (simp add: syncs_with_def)
qed

lemma sync_loop_included:
  assumes "for_in (sync_step ctx gas_limit ts) txs s = (Continue, t)" "syncs_with ctx ts c"
  shows "\<exists>es. included c (sync_guard ctx gas_limit) (ss_info s, ss_db s) es (ss_info t, ss_db t) \<and>
    map (inner_tx \<circ> fst) es = txs"
  using assms(1)
proof (induction txs arbitrary: s)
  case Nil
  then show ?case by (auto intro: included.none)
next
  case (Cons tx txs)
  obtain u where u: "sync_step ctx gas_limit ts s tx = (Continue, u)" "for_in (sync_step ctx gas_limit ts) txs u = (Continue, t)"
    using Cons.prems by (auto split: prod.splits flow.splits)
  obtain sender r where one: "included c (sync_guard ctx gas_limit) (ss_info s, ss_db s) [(Recovered tx sender, r)] (ss_info u, ss_db u)"
    using sync_step_continue [OF u(1) assms(2)] by blast
  obtain es where es: "included c (sync_guard ctx gas_limit) (ss_info u, ss_db u) es (ss_info t, ss_db t)"
    "map (inner_tx \<circ> fst) es = txs"
    using Cons.IH [OF u(2)] by blast
  show ?case
    using included_trans [OF es(1) one] es(2) by (intro exI [of _ "[(Recovered tx sender, r)] @ es"]) (simp add: comp_def)
qed

lemma sync_gas_exact:
  assumes "included c (sync_guard ctx gas_limit) p es q"
  shows "unat (cumulative_gas_used (fst q)) = unat (cumulative_gas_used (fst p)) + (\<Sum>e \<leftarrow> es. unat (gas_used (snd e)))"
    "es \<noteq> [] \<Longrightarrow> unat (cumulative_gas_used (fst q)) \<le> unat gas_limit"
proof -
  have "unat (cumulative_gas_used (fst q)) = unat (cumulative_gas_used (fst p)) + (\<Sum>e \<leftarrow> es. unat (gas_used (snd e))) \<and>
      (es \<noteq> [] \<longrightarrow> unat (cumulative_gas_used (fst q)) \<le> unat gas_limit)"
    using assms
  proof (induction rule: included.induct)
    case (snoc p es info db tx r st da nonce fees)
    have le: "unat (cumulative_gas_used info) + unat (gas_used r) \<le> unat gas_limit"
      using snoc.hyps(3) by (simp add: sync_guard_def)
    then have "unat (cumulative_gas_used info + gas_used r) = unat (cumulative_gas_used info) + unat (gas_used r)"
      using unat_le_max [of gas_limit] by (intro unat_add_no_wrap) simp
    then show ?case using snoc.IH le by (simp add: push_executed_def Let_def)
  qed simp
  then show "unat (cumulative_gas_used (fst q)) = unat (cumulative_gas_used (fst p)) + (\<Sum>e \<leftarrow> es. unat (gas_used (snd e)))"
    "es \<noteq> [] \<Longrightarrow> unat (cumulative_gas_used (fst q)) \<le> unat gas_limit" by auto
qed

text \<open>The database a received block is executed on.\<close>

definition sync_start_db :: "'db sync_env \<Rightarrow> header \<Rightarrow> 'db option" where
  "sync_start_db se h =
     (case and_then (and_then (se_header_by_id se (hd_parent_hash h)) (ok_or ''parent header not found'')) (\<lambda>par.
             and_then (se_state_by_block_hash se (hd_parent_hash h)) (\<lambda>db.
               se_pre_execution se par (sync_env_attributes h) db)) of
        Inl e \<Rightarrow> None
      | Inr db \<Rightarrow> Some db)"

lemma execute_flashblock_ok:
  assumes "execute_flashblock se ctx cancelled p = Inr (q, m)"
  obtains par db1 e params fee s s' where
    "sync_start_db se (sb_header (bp_block p)) = Some db1"
    "execute_transactions ctx (se_chain_spec se) (sb_transactions (bp_block p)) (hd_gas_used (sb_header (bp_block p)))
       (hd_timestamp (sb_header (bp_block p)))
       \<lparr> ss_info = (with_capacity \<lparr> last_flashblock_index = 0 \<rparr>) \<lparr> optional_blob_fields :=
           Some (hd_excess_blob_gas (sb_header (bp_block p)), hd_blob_gas_used (sb_header (bp_block p))) \<rparr>,
         ss_db = db1 \<rparr> = Inr s"
    "build_block (se_block_ops se) (into_op_payload_builder_ctx ctx (sync_attributes se p params fee)
       (par \<lparr> ph_hash := hd_parent_hash (sb_header (bp_block p)) \<rparr>) e cancelled) True s = (Inr (q, m), s')"
    "sb_hash (bp_block q) = sb_hash (bp_block p)"
proof -
  let ?h = "sb_header (bp_block p)"
  obtain par db e db1 params fee s where steps:
    "and_then (se_header_by_id se (hd_parent_hash ?h)) (ok_or ''parent header not found'') = Inr par"
    "se_state_by_block_hash se (hd_parent_hash ?h) = Inr db"
    "se_pre_execution se par (sync_env_attributes ?h) db = Inr db1"
    "execute_transactions ctx (se_chain_spec se) (sb_transactions (bp_block p)) (hd_gas_used ?h) (hd_timestamp ?h)
       \<lparr> ss_info = (with_capacity \<lparr> last_flashblock_index = 0 \<rparr>) \<lparr> optional_blob_fields :=
           Some (hd_excess_blob_gas ?h, hd_blob_gas_used ?h) \<rparr>, ss_db = db1 \<rparr> = Inr s"
    and last: "(case build_block (se_block_ops se) (into_op_payload_builder_ctx ctx (sync_attributes se p params fee)
              (par \<lparr> ph_hash := hd_parent_hash ?h \<rparr>) e cancelled) True s of
         (Inl e, _) \<Rightarrow> Inl (payload_error_text e)
       | (Inr (built, message), _) \<Rightarrow>
           if sb_hash (bp_block built) \<noteq> sb_hash (bp_block p) then Inl ''flashblock hash mismatch after execution''
           else Inr (built, message)) = Inr (q, m)"
    using assms by (auto simp: execute_flashblock_def Let_def and_then_eq_Inr)
  have start: "sync_start_db se ?h = Some db1"
    using steps(1-3) by (simp add: sync_start_db_def)
  obtain s' where "build_block (se_block_ops se) (into_op_payload_builder_ctx ctx (sync_attributes se p params fee)
       (par \<lparr> ph_hash := hd_parent_hash ?h \<rparr>) e cancelled) True s = (Inr (q, m), s')" "sb_hash (bp_block q) = sb_hash (bp_block p)"
    using last by (auto split: prod.split_asm sum.split_asm if_split_asm)
  then show ?thesis using that [OF start steps(4)] by blast
qed

lemma execute_transactions_ok:
  assumes "execute_transactions ctx cspec txs gas_limit ts s = Inr t" "syncs_with ctx ts c"
  obtains es info where "included c (sync_guard ctx gas_limit) (ss_info s, ss_db s) es (info, ss_db t)"
    "map (inner_tx \<circ> fst) es = txs" "ss_info t = info \<lparr> da_footprint_scalar := da_footprint_scalar (ss_info t) \<rparr>"
proof -
  obtain u where u: "for_in (sync_step ctx gas_limit ts) txs s = (Continue, u)"
    "ss_info t = (ss_info u) \<lparr> da_footprint_scalar := da_footprint_scalar (ss_info t) \<rparr>" "ss_db t = ss_db u"
    using assms(1) by (auto simp: execute_transactions_def split: prod.split_asm flow.split_asm if_split_asm option.split_asm)
  show ?thesis using sync_loop_included [OF u(1) assms(2)] that u(2,3) by auto
qed

section \<open>Properties\<close>

text \<open>C20: A flashblock of a peer is announced only after it has been checked completely: the block that is announced has the
  hash of the received one, exactly its transactions, each of which was accepted by the EVM, in order, from the
  state of the parent, with the sender its signature gives; none of them, deposits included, used more gas than the
  configured maximum per transaction; and the gas, summed without overflow, stays within the gas of the received
  header. If no other header has the hash of the received one, the headers are equal.\<close>

theorem accepted_flashblock_sound:
  assumes "execute_flashblock se ctx cancelled p = Inr (q, m)"
    and "sb_hash (bp_block p) = hash_slow (se_block_ops se) (sb_header (bp_block p))"
    and "\<And>h. hash_slow (se_block_ops se) h = hash_slow (se_block_ops se) (sb_header (bp_block p)) \<Longrightarrow> h = sb_header (bp_block p)"
  shows "sb_hash (bp_block q) = sb_hash (bp_block p) \<and> sb_transactions (bp_block q) = sb_transactions (bp_block p) \<and>
    sb_header (bp_block q) = sb_header (bp_block p) \<and>
    fbd_transactions (fb_diff m) = map encoded_2718 (sb_transactions (bp_block p)) \<and>
    (\<exists>db0 db txs rs. sync_start_db se (sb_header (bp_block p)) = Some db0 \<and> replay (sy_evm ctx) db0 txs = Some (db, rs) \<and>
       map inner_tx txs = sb_transactions (bp_block p) \<and> map signer txs = bp_senders q \<and>
       (\<forall>tx \<in> set txs. try_recover (sy_evm ctx) (inner_tx tx) = Some (signer tx)) \<and>
       (\<forall>r \<in> set rs. \<forall>g. sy_max_gas_per_txn ctx = Some g \<longrightarrow> gas_used r \<le> g) \<and>
       (\<Sum>r \<leftarrow> rs. unat (gas_used r)) = unat (hd_gas_used (sb_header (bp_block p))))"
  using assms(1)
proof (rule execute_flashblock_ok)
  let ?h = "sb_header (bp_block p)"
  fix par db1 e params fee s s'
  assume start: "sync_start_db se ?h = Some db1"
    and run: "execute_transactions ctx (se_chain_spec se) (sb_transactions (bp_block p)) (hd_gas_used ?h) (hd_timestamp ?h)
       \<lparr> ss_info = (with_capacity \<lparr> last_flashblock_index = 0 \<rparr>) \<lparr> optional_blob_fields :=
           Some (hd_excess_blob_gas ?h, hd_blob_gas_used ?h) \<rparr>, ss_db = db1 \<rparr> = Inr s"
    and bb: "build_block (se_block_ops se) (into_op_payload_builder_ctx ctx (sync_attributes se p params fee)
       (par \<lparr> ph_hash := hd_parent_hash ?h \<rparr>) e cancelled) True s = (Inr (q, m), s')"
    and hash: "sb_hash (bp_block q) = sb_hash (bp_block p)"
  let ?c = "into_op_payload_builder_ctx ctx (sync_attributes se p params fee) (par \<lparr> ph_hash := hd_parent_hash ?h \<rparr>) e cancelled"
  have sw: "syncs_with ctx (hd_timestamp ?h) ?c"
    using syncs_with_into [of ctx "sync_attributes se p params fee"] by (simp add: sync_attributes_def Let_def)
  obtain es info where es: "included ?c (sync_guard ctx (hd_gas_used ?h))
      ((with_capacity \<lparr> last_flashblock_index = 0 \<rparr>) \<lparr> optional_blob_fields := Some (hd_excess_blob_gas ?h, hd_blob_gas_used ?h) \<rparr>, db1)
      es (info, ss_db s)"
    and txs: "map (inner_tx \<circ> fst) es = sb_transactions (bp_block p)"
    and info: "ss_info s = info \<lparr> da_footprint_scalar := da_footprint_scalar (ss_info s) \<rparr>"
    using execute_transactions_ok [OF run sw] by auto
  have ex: "executed_transactions (ss_info s) = sb_transactions (bp_block p)" "executed_senders (ss_info s) = map (signer \<circ> fst) es"
    "unat (cumulative_gas_used (ss_info s)) = (\<Sum>e \<leftarrow> es. unat (gas_used (snd e)))"
    "last_flashblock_index (extra (ss_info s)) = 0"
    using included_lists(1,2,4) [OF es] sync_gas_exact(1) [OF es] txs by (subst info; simp add: with_capacity_def)+
  note bo = build_block_ok [OF bb]
  have header: "sb_header (bp_block q) = ?h" using assms(2,3) bo(9) hash by simp
  have all: "\<forall>(tx, r) \<in> set es. try_recover (sy_evm ctx) (inner_tx tx) = Some (signer tx) \<and>
      (\<forall>g. sy_max_gas_per_txn ctx = Some g \<longrightarrow> gas_used r \<le> g)"
    by (rule included_all [OF es]) (auto simp: sync_guard_def)
  have evm: "evm ?c = sy_evm ctx" using sw by (simp add: syncs_with_def)
  have "\<exists>db0 db txs rs. sync_start_db se ?h = Some db0 \<and> replay (sy_evm ctx) db0 txs = Some (db, rs) \<and>
       map inner_tx txs = sb_transactions (bp_block p) \<and> map signer txs = bp_senders q \<and>
       (\<forall>tx \<in> set txs. try_recover (sy_evm ctx) (inner_tx tx) = Some (signer tx)) \<and>
       (\<forall>r \<in> set rs. \<forall>g. sy_max_gas_per_txn ctx = Some g \<longrightarrow> gas_used r \<le> g) \<and>
       (\<Sum>r \<leftarrow> rs. unat (gas_used r)) = unat (hd_gas_used ?h)"
  proof (intro exI conjI)
    show "sync_start_db se ?h = Some db1" by (rule start)
    show "replay (sy_evm ctx) db1 (map fst es) = Some (ss_db s, map snd es)" using included_replay [OF es] evm by simp
    show "(\<Sum>r \<leftarrow> map snd es. unat (gas_used r)) = unat (hd_gas_used ?h)"
      using ex(3) bo(7) header by (simp add: comp_def)
  qed (use all txs ex(2) bo(5) in \<open>auto simp: comp_def\<close>)
  then show ?thesis using hash header bo(4,10) ex(1,4) by simp
qed

text \<open>A peer with the chain of the samples, and the block of one sequencer transaction.\<close>

definition demo_header :: header where
  "demo_header = \<lparr> hd_parent_hash = 5, hd_beneficiary = 0, hd_state_root = 1, hd_transactions_root = 1,
     hd_receipts_root = 1, hd_withdrawals_root = Some 2, hd_logs_bloom = [], hd_timestamp = 1000, hd_mix_hash = 0,
     hd_base_fee_per_gas = Some 7, hd_number = 42, hd_gas_limit = 30000000, hd_gas_used = 21000, hd_extra_data = [],
     hd_parent_beacon_block_root = Some 3, hd_blob_gas_used = Some 0, hd_excess_blob_gas = Some 0, hd_requests_hash = None \<rparr>"

definition demo_sync_env :: "(header \<Rightarrow> b256) \<Rightarrow> nat sync_env" where
  "demo_sync_env hash = \<lparr>
     se_header_by_id = (\<lambda>h. Inr (Some \<lparr> ph_hash = 5, ph_number = 41, ph_state_root = 6, ph_timestamp = 998, ph_gas_limit = 30000000 \<rparr>)),
     se_chain_spec = demo_spec False, se_validate_header = (\<lambda>b. Inr ()), se_validate_against_parent = (\<lambda>b par. Inr ()),
     se_state_by_block_hash = (\<lambda>h. Inr 0),
     se_next_evm_env = (\<lambda>par a. Inr \<lparr> be_number = 42, be_gas_limit = nb_gas_limit a, be_basefee = 7,
        be_blob_gasprice = None, be_beneficiary = nb_suggested_fee_recipient a, be_difficulty = 0 \<rparr>),
     se_pre_execution = (\<lambda>par a db. Inr db), se_jovian_extra_data = (\<lambda>p f b. Inr []), se_holocene_extra_data = (\<lambda>p b. Inr []),
     se_block_ops = demo_block_ops \<lparr> hash_slow := hash \<rparr> \<rparr>"

definition demo_syncer :: "u64 option \<Rightarrow> (nat, nat) syncer_ctx" where
  "demo_syncer max_gas = \<lparr> sy_evm = demo_ops, sy_max_da_tx_size = None, sy_chain_spec = demo_spec False, sy_max_gas_per_txn = max_gas \<rparr>"

definition demo_received :: "b256 \<Rightarrow> b256 \<Rightarrow> built_payload" where
  "demo_received hash root = \<lparr> bp_id = 1, bp_block = \<lparr> sb_hash = hash, sb_header = demo_header \<lparr> hd_state_root := root \<rparr>,
     sb_transactions = [demo_tx 1 0], sb_withdrawals = Some [] \<rparr>, bp_fees = 0, bp_senders = [], bp_receipts = [] \<rparr>"

lemmas sync_simps = execute_flashblock_def validate_pre_execution_def parse_extra_data_def execute_transactions_def
  sync_step_def sync_depositor_nonce_def checked_add_def sync_build_receipt_def sync_regolith_active_def sync_canyon_active_def
  into_op_payload_builder_ctx_def sync_attributes_def sync_env_attributes_def
  demo_sync_env_def demo_syncer_def demo_received_def demo_header_def

lemma demo_sync:
  "\<exists>q m. execute_flashblock (demo_sync_env (\<lambda>h. if h = demo_header then 1 else 0)) (demo_syncer None) (\<lambda>n. False)
     (demo_received 1 1) = Inr (q, m)"
  by (simp add: sync_simps fb_simps exec_simps demo_defs demo_fb_defs)

theorem accepted_flashblock_sound_witness:
  "\<exists>q m. execute_flashblock (demo_sync_env (\<lambda>h. if h = demo_header then 1 else 0)) (demo_syncer None) (\<lambda>n. False)
     (demo_received 1 1) = Inr (q, m) \<and> sb_header (bp_block q) = demo_header"
proof -
  let ?se = "demo_sync_env (\<lambda>h. if h = demo_header then 1 else 0)"
  obtain q m where run: "execute_flashblock ?se (demo_syncer None) (\<lambda>n. False) (demo_received 1 1) = Inr (q, m)"
    using demo_sync by blast
  have h: "sb_header (bp_block (demo_received 1 1)) = demo_header" by (simp add: demo_received_def demo_header_def)
  have hash: "hash_slow (se_block_ops ?se) h = (if h = demo_header then 1 else 0)" for h by (simp add: demo_sync_env_def)
  have "sb_hash (bp_block (demo_received 1 1)) = hash_slow (se_block_ops ?se) (sb_header (bp_block (demo_received 1 1)))"
    unfolding h hash by (simp add: demo_received_def)
  moreover have "h = sb_header (bp_block (demo_received 1 1))"
    if "hash_slow (se_block_ops ?se) h = hash_slow (se_block_ops ?se) (sb_header (bp_block (demo_received 1 1)))" for h
    using that unfolding hash h by (simp split: if_split_asm)
  ultimately have "sb_header (bp_block q) = sb_header (bp_block (demo_received 1 1))"
    using accepted_flashblock_sound [OF run] by blast
  then show ?thesis using run h by (intro exI conjI) simp_all
qed

text \<open>Parsing the extra data of a Jovian block gives back what was put into it: a version byte, eight bytes of fee
  parameters and the minimum base fee in big-endian order.\<close>

theorem extra_data_roundtrip:
  assumes "jovian_at cspec ts" and "length params = 8"
  shows "parse_extra_data cspec ts (version # params @ to_be_bytes fee) = Inr (Some params, Some fee)"
  using assms from_to_be_bytes [of fee] by (simp add: parse_extra_data_def)

theorem extra_data_roundtrip_witness:
  "parse_extra_data (demo_spec True) 1000 (1 # [0, 0, 0, 250, 0, 0, 0, 6] @ to_be_bytes (1000000 :: u64)) =
     Inr (Some [0, 0, 0, 250, 0, 0, 0, 6], Some 1000000)"
  by (rule extra_data_roundtrip) (simp_all add: demo_spec_def)

text \<open>A builder that skips the state root cannot be followed: the header of the blocks it builds has state root
  zero, and a peer, which always computes the root, rejects every one of them, unless a state has root zero or headers with different state roots
  collide.\<close>

theorem skipped_state_root_is_rejected:
  assumes "build_block (se_block_ops se) c False s = (Inr (p, m), s')"
    and "\<And>db. state_root_with_updates (se_block_ops se) db \<noteq> Inr 0"
    and "\<And>h h'. hash_slow (se_block_ops se) h = hash_slow (se_block_ops se) h' \<Longrightarrow> hd_state_root h = hd_state_root h'"
  shows "\<exists>e. execute_flashblock se ctx cancelled (payload_of_p2p (p2p_of_payload p)) = Inl e"
proof (rule ccontr)
  let ?p = "payload_of_p2p (p2p_of_payload p)"
  assume "\<nexists>e. execute_flashblock se ctx cancelled ?p = Inl e"
  then obtain q msg where ok: "execute_flashblock se ctx cancelled ?p = Inr (q, msg)"
    by (metis sum.exhaust prod.exhaust)
  from ok show False
  proof (rule execute_flashblock_ok)
    fix par db1 e params fee t t'
    let ?c = "into_op_payload_builder_ctx ctx (sync_attributes se ?p params fee)
       (par \<lparr> ph_hash := hd_parent_hash (sb_header (bp_block ?p)) \<rparr>) e cancelled"
    assume bb: "build_block (se_block_ops se) ?c True t = (Inr (q, msg), t')" and hash: "sb_hash (bp_block q) = sb_hash (bp_block ?p)"
    have "\<exists>db. state_root_with_updates (se_block_ops se) db = Inr (hd_state_root (sb_header (bp_block q)))"
      using bb by (auto simp: build_block_def block_roots_def block_header_def seal_block_def Let_def and_then_eq_Inr
          split: sum.split_asm if_split_asm prod.split_asm)
    then have "hd_state_root (sb_header (bp_block q)) \<noteq> 0" using assms(2) by auto
    moreover have "hd_state_root (sb_header (bp_block p)) = 0"
      using assms(1) by (auto simp: build_block_def block_roots_def block_header_def seal_block_def Let_def and_then_eq_Inr
          split: sum.split_asm if_split_asm prod.split_asm)
    moreover have "hash_slow (se_block_ops se) (sb_header (bp_block q)) = hash_slow (se_block_ops se) (sb_header (bp_block p))"
      using build_block_ok(9) [OF bb] build_block_ok(9) [OF assms(1)] hash
      by (simp add: payload_of_p2p_def p2p_of_payload_def)
    from assms(3) [OF this] have "hd_state_root (sb_header (bp_block q)) = hd_state_root (sb_header (bp_block p))" .
    ultimately show False by simp
  qed
qed

theorem skipped_state_root_is_rejected_witness:
  "\<exists>p m s' e. build_block (se_block_ops (demo_sync_env (\<lambda>h. hd_state_root h)) \<lparr> state_root_with_updates := \<lambda>db. Inr 9 \<rparr>)
       (demo_ctx False [] ()) False \<lparr> ss_info = with_capacity \<lparr> last_flashblock_index = 0 \<rparr>, ss_db = 0 \<rparr> = (Inr (p, m), s') \<and>
     execute_flashblock ((demo_sync_env (\<lambda>h. hd_state_root h))
         \<lparr> se_block_ops := se_block_ops (demo_sync_env (\<lambda>h. hd_state_root h)) \<lparr> state_root_with_updates := \<lambda>db. Inr 9 \<rparr> \<rparr>)
       (demo_syncer None) (\<lambda>n. False) (payload_of_p2p (p2p_of_payload p)) = Inl e"
proof -
  let ?ops = "se_block_ops (demo_sync_env (\<lambda>h. hd_state_root h)) \<lparr> state_root_with_updates := \<lambda>db. Inr 9 \<rparr>"
  let ?se = "(demo_sync_env (\<lambda>h. hd_state_root h)) \<lparr> se_block_ops := ?ops \<rparr>"
  let ?s = "\<lparr> ss_info = with_capacity \<lparr> last_flashblock_index = 0 \<rparr>, ss_db = 0 :: nat \<rparr>"
  have "\<exists>p m s'. build_block ?ops (demo_ctx False [] ()) False ?s = (Inr (p, m), s')"
    by (simp add: fb_simps exec_simps demo_defs demo_fb_defs demo_sync_env_def)
  then obtain p m s' where run: "build_block (se_block_ops ?se) (demo_ctx False [] ()) False ?s = (Inr (p, m), s')" by auto
  have "\<exists>e. execute_flashblock ?se (demo_syncer None) (\<lambda>n. False) (payload_of_p2p (p2p_of_payload p)) = Inl e"
    by (rule skipped_state_root_is_rejected [OF run]) (simp_all add: demo_sync_env_def)
  then show ?thesis using run by auto
qed

section \<open>The handler\<close>

definition own_payloads :: "'db handler_event list \<Rightarrow> built_payload list" where
  "own_payloads evs = concat (map (\<lambda>e. case e of BuiltRx p \<Rightarrow> [p] | _ \<Rightarrow> []) evs)"

definition received_payloads :: "'db handler_event list \<Rightarrow> built_payload list" where
  "received_payloads evs = concat (map (\<lambda>e. case e of P2pRx (MsgBuiltPayload m) \<Rightarrow> [payload_of_p2p m] | _ \<Rightarrow> []) evs)"

text \<open>
  The history as an observer sees it: own payloads as they come in, and executions of received blocks as they end, each with
  the client it ran against. The blocks that wait are passed along.
\<close>

datatype 'db handled = OwnPayload built_payload | Execution built_payload "'db sync_env"

fun timeline :: "built_payload list \<Rightarrow> 'db handler_event list \<Rightarrow> 'db handled list" where
  "timeline waiting [] = []"
| "timeline waiting (BuiltRx p # evs) = OwnPayload p # timeline waiting evs"
| "timeline waiting (P2pRx (MsgBuiltPayload m) # evs) = timeline (waiting @ [payload_of_p2p m]) evs"
| "timeline waiting (TaskDone se i # evs) =
     (if i < length waiting
      then Execution (waiting ! i) se # timeline (take i waiting @ drop (Suc i) waiting) evs
      else timeline waiting evs)"

text \<open>What is announced of it: every own payload, and of an execution the payload it results in, if it accepts the block.\<close>

definition announcement :: "('db, 'st) syncer_ctx \<Rightarrow> (nat \<Rightarrow> bool) \<Rightarrow> 'db handled \<Rightarrow> built_payload list" where
  "announcement ctx cancelled x =
     (case x of
        OwnPayload p \<Rightarrow> [p]
      | Execution q se \<Rightarrow> (case execute_flashblock se ctx cancelled q of Inl _ \<Rightarrow> [] | Inr (p, _) \<Rightarrow> [p]))"

definition executed_blocks :: "'db handled list \<Rightarrow> built_payload list" where
  "executed_blocks xs = concat (map (\<lambda>x. case x of Execution q _ \<Rightarrow> [q] | _ \<Rightarrow> []) xs)"

definition own_handled :: "'db handled list \<Rightarrow> built_payload list" where
  "own_handled xs = concat (map (\<lambda>x. case x of OwnPayload p \<Rightarrow> [p] | _ \<Rightarrow> []) xs)"

lemmas handled_defs = executed_blocks_def own_handled_def own_payloads_def received_payloads_def

text \<open>Every received block is executed once or still waits; nothing is made up or lost.\<close>

lemma mset_remove_nth: "i < length xs \<Longrightarrow> add_mset (xs ! i) (mset (take i xs @ drop (Suc i) xs)) = mset xs"
  by (metis id_take_nth_drop mset_append mset.simps(2) union_mset_add_mset_right)

lemma handler_foldl:
  shows "ho_events (foldl (handler_step ctx cancelled p2p_open) s evs) =
      ho_events s @ concat (map (announcement ctx cancelled) (timeline (ho_running s) evs))"
    and "ho_p2p (foldl (handler_step ctx cancelled p2p_open) s evs) = ho_p2p s @ (if p2p_open then map message_of_payload (own_payloads evs) else [])"
    and "mset (executed_blocks (timeline (ho_running s) evs)) + mset (ho_running (foldl (handler_step ctx cancelled p2p_open) s evs)) =
      mset (ho_running s) + mset (received_payloads evs)"
    and "own_handled (timeline (ho_running s) evs) = own_payloads evs"
proof -
  have "ho_events (foldl (handler_step ctx cancelled p2p_open) s evs) = ho_events s @ concat (map (announcement ctx cancelled) (timeline (ho_running s) evs)) \<and>
    ho_p2p (foldl (handler_step ctx cancelled p2p_open) s evs) = ho_p2p s @ (if p2p_open then map message_of_payload (own_payloads evs) else []) \<and>
    mset (executed_blocks (timeline (ho_running s) evs)) + mset (ho_running (foldl (handler_step ctx cancelled p2p_open) s evs)) =
      mset (ho_running s) + mset (received_payloads evs) \<and>
    own_handled (timeline (ho_running s) evs) = own_payloads evs"
  proof (induction evs arbitrary: s)
    case (Cons e evs)
    define t where "t = handler_step ctx cancelled p2p_open s e"
    note IH = Cons.IH [of t] and unroll = foldl_Cons [of "handler_step ctx cancelled p2p_open" s e evs, folded t_def]
    show ?case
    proof (cases e)
      case (BuiltRx p)
      then have "ho_running t = ho_running s" "ho_events t = ho_events s @ [p]"
        "ho_p2p t = ho_p2p s @ (if p2p_open then [message_of_payload p] else [])" by (simp_all add: t_def handler_step_def)
      then show ?thesis using IH BuiltRx unfolding unroll by (simp add: announcement_def handled_defs)
    next
      case (P2pRx msg)
      obtain m where m: "msg = MsgBuiltPayload m" by (cases msg)
      have "ho_running t = ho_running s @ [payload_of_p2p m]" "ho_events t = ho_events s" "ho_p2p t = ho_p2p s"
        using P2pRx m by (simp_all add: t_def handler_step_def)
      then show ?thesis using IH P2pRx m unfolding unroll by (simp add: handled_defs)
    next
      case (TaskDone se i)
      show ?thesis
      proof (cases "i < length (ho_running s)")
        case True
        define w where "w = take i (ho_running s) @ drop (Suc i) (ho_running s)"
        have step: "ho_running t = w" "ho_p2p t = ho_p2p s"
          "ho_events t = ho_events s @ announcement ctx cancelled (Execution (ho_running s ! i) se)"
          using TaskDone True
          by (auto simp: t_def handler_step_def handler_task_done_def announcement_def w_def Let_def split: sum.split)
        have "mset (ho_running s) = add_mset (ho_running s ! i) (mset w)" using mset_remove_nth [OF True] by (simp add: w_def)
        then show ?thesis using IH TaskDone True step
          unfolding unroll by (simp add: w_def [symmetric] handled_defs)
      next
        case False
        then have "t = s" using TaskDone by (simp add: t_def handler_step_def handler_task_done_def)
        then show ?thesis using IH TaskDone False unfolding unroll by (simp add: handled_defs)
      qed
    qed
  qed (simp add: handled_defs)
  then show "ho_events (foldl (handler_step ctx cancelled p2p_open) s evs) = ho_events s @ concat (map (announcement ctx cancelled) (timeline (ho_running s) evs))"
    and "ho_p2p (foldl (handler_step ctx cancelled p2p_open) s evs) = ho_p2p s @ (if p2p_open then map message_of_payload (own_payloads evs) else [])"
    and "mset (executed_blocks (timeline (ho_running s) evs)) + mset (ho_running (foldl (handler_step ctx cancelled p2p_open) s evs)) =
      mset (ho_running s) + mset (received_payloads evs)"
    and "own_handled (timeline (ho_running s) evs) = own_payloads evs"
    by blast+
qed

lemma handler_run_exact:
  "ho_events (handler_run ctx cancelled p2p_open evs) = concat (map (announcement ctx cancelled) (timeline [] evs))"
  "ho_p2p (handler_run ctx cancelled p2p_open evs) = (if p2p_open then map message_of_payload (own_payloads evs) else [])"
  "mset (executed_blocks (timeline [] evs)) + mset (ho_running (handler_run ctx cancelled p2p_open evs)) = mset (received_payloads evs)"
  "own_handled (timeline [] evs) = own_payloads evs"
  using handler_foldl(1) [of ctx cancelled p2p_open "\<lparr> ho_events = [], ho_p2p = [], ho_running = [] \<rparr>" evs]
    handler_foldl(2) [of ctx cancelled p2p_open "\<lparr> ho_events = [], ho_p2p = [], ho_running = [] \<rparr>" evs]
    handler_foldl(3) [of "\<lparr> ho_events = [], ho_p2p = [], ho_running = [] \<rparr>" evs ctx cancelled p2p_open]
    handler_foldl(4) [of "\<lparr> ho_events = [], ho_p2p = [], ho_running = [] \<rparr>" evs]
  by (simp_all add: handler_run_def)

lemma accepted_keeps_hash:
  assumes "execute_flashblock se ctx cancelled q = Inr (p, msg)"
  shows "sb_hash (bp_block p) = sb_hash (bp_block q)"
  using execute_flashblock_ok [OF assms] by auto

text \<open>C21: The announcements of the handler are exactly those of its history, in order, however the executions of received
  blocks interleave with the payloads that come in: each payload of its own when it comes in, and for each execution of a received block, when it ends,
  the payload it results in, if the block is accepted. The own payloads are all there, in order; every received block is executed
  exactly once or its execution has not ended; and a payload that is announced for a received block has the hash of that block. The
  own payloads, and only those, are broadcast while the peer-to-peer channel is open: a payload of a peer is never relayed.\<close>

theorem handler_announces:
  "let out = handler_run ctx cancelled p2p_open evs; history = timeline [] evs in
   ho_events out = concat (map (announcement ctx cancelled) history) \<and>
   own_handled history = own_payloads evs \<and>
   mset (executed_blocks history) + mset (ho_running out) = mset (received_payloads evs) \<and>
   list_all (\<lambda>x. case x of
       OwnPayload p \<Rightarrow> True
     | Execution q se \<Rightarrow> list_all (\<lambda>p. sb_hash (bp_block p) = sb_hash (bp_block q)) (announcement ctx cancelled x)) history \<and>
   ho_p2p out = (if p2p_open then map message_of_payload (own_payloads evs) else [])"
proof -
  have "list_all (\<lambda>x. case x of
       OwnPayload p \<Rightarrow> True
     | Execution q se \<Rightarrow> list_all (\<lambda>p. sb_hash (bp_block p) = sb_hash (bp_block q)) (announcement ctx cancelled x)) (timeline [] evs)"
    by (auto simp: list_all_iff announcement_def dest: accepted_keeps_hash [OF sym] split: handled.split sum.split)
  then show ?thesis using handler_run_exact(1,2) [of ctx cancelled p2p_open evs]
      handler_run_exact(3) [of evs ctx cancelled p2p_open] handler_run_exact(4) [of evs] by (simp add: Let_def)
qed

text \<open>Sending a payload to a peer and reading it there loses only the execution.\<close>

lemma p2p_roundtrip: "p2p_of_payload (payload_of_p2p m) = m"
  by (simp add: p2p_of_payload_def payload_of_p2p_def)

end
