(* ===== verification/Generator.thy ===== *)
theory Generator
  imports Fb_Payload
begin

text \<open>
  \<^verbatim>\<open>builders/generator.rs\<close>: payload jobs. The node asks for a job with every forkchoice update that carries
  attributes, polls it, and resolves it when the payload is wanted. A job has a cancellation token, a deadline and a cell
  for the payload, which it shares with the build it starts and with the future it is resolved to. Cells live in a store, and jobs, builds and
  futures refer to them by their number; tokens and jobs are numbered in the order of their creation as well. A build runs concurrently and
  appears as the events that store a payload into the cell it was given.
\<close>

section \<open>Model: the cell\<close>

record 'p block_cell =
  cell_inner :: "'p option"

definition cell_new :: "'p block_cell" where
  "cell_new = \<lparr> cell_inner = None \<rparr>"

definition cell_set :: "'p block_cell \<Rightarrow> 'p \<Rightarrow> 'p block_cell" where
  "cell_set c v = c \<lparr> cell_inner := Some v \<rparr>"

definition cell_get :: "'p block_cell \<Rightarrow> 'p option" where
  "cell_get c = cell_inner c"

text \<open>The future that waits for a value holds the cell. Polling it, pending is \<^const>\<open>None\<close>. The future of a resolved
  job wraps the value into a success.\<close>

type_synonym cell_ref = nat

record value_future =
  wv_cell :: cell_ref

definition wait_for_value :: "cell_ref \<Rightarrow> value_future" where
  "wait_for_value c = \<lparr> wv_cell = c \<rparr>"

definition wait_for_value_poll :: "'p block_cell list \<Rightarrow> value_future \<Rightarrow> 'p option" where
  "wait_for_value_poll cells w = cell_get (cells ! wv_cell w)"

record resolve_future =
  rp_future :: value_future

definition resolve_payload_new :: "value_future \<Rightarrow> resolve_future" where
  "resolve_payload_new w = \<lparr> rp_future = w \<rparr>"

definition resolve_payload_poll :: "'p block_cell list \<Rightarrow> resolve_future \<Rightarrow> (payload_error + 'p) option" where
  "resolve_payload_poll cells r = map_option Inr (wait_for_value_poll cells (rp_future r))"

section \<open>Model: jobs and the generator\<close>

record gen_attrs =
  ga_parent :: b256
  ga_timestamp :: u64

record ('h, 'c) payload_job =
  pj_parent :: 'h
  pj_attributes :: gen_attrs
  pj_cell :: cell_ref
  pj_cancel :: nat
  pj_deadline :: int
  pj_cached_reads :: "'c list option"

text \<open>The arguments of a build. Cached reads are a list of account entries, the default being the empty one.\<close>

record ('h, 'c) build_arguments =
  ba_cached_reads :: "'c list"
  ba_parent :: 'h
  ba_attributes :: gen_attrs
  ba_cancel :: nat

record 'c precached_state =
  pc_block :: b256
  pc_cached :: "'c list"

record ('h, 'c, 'p) generator =
  gn_ensure_only_one_payload :: bool
  gn_last_payload :: nat
  gn_extra_block_deadline :: duration
  gn_pre_cached :: "'c precached_state option"
  gn_next_token :: nat
  gn_cancelled :: "nat list"
  gn_cells :: "'p block_cell list"
  gn_jobs :: "('h, 'c) payload_job list"
  gn_builds :: "(('h, 'c) build_arguments \<times> cell_ref) list"

datatype gen_error = ProviderError string | MissingParentBlock b256 | DurationOverflow

text \<open>The node's client.\<close>

record 'h gen_client =
  gc_latest_header :: "string + 'h option"
  gc_sealed_header_by_hash :: "b256 \<Rightarrow> string + 'h option"
  gc_hash :: "'h \<Rightarrow> b256"

definition with_builder :: "bool \<Rightarrow> duration \<Rightarrow> ('h, 'c, 'p) generator" where
  "with_builder only_one extra_deadline =
     \<lparr> gn_ensure_only_one_payload = only_one, gn_last_payload = 0, gn_extra_block_deadline = extra_deadline,
       gn_pre_cached = None, gn_next_token = 1, gn_cancelled = [], gn_cells = [], gn_jobs = [], gn_builds = [] \<rparr>"

definition maybe_pre_cached :: "('h, 'c, 'p) generator \<Rightarrow> b256 \<Rightarrow> 'c list option" where
  "maybe_pre_cached g par =
     (case gn_pre_cached g of
        None \<Rightarrow> None
      | Some pc \<Rightarrow> if pc_block pc = par then Some (pc_cached pc) else None)"

definition job_deadline :: "u64 \<Rightarrow> u64 \<Rightarrow> duration" where
  "job_deadline unix_timestamp_secs unix_now =
     (let duration_until = saturating_sub unix_timestamp_secs unix_now in
      if duration_until = 0 then from_secs 1 else from_secs duration_until)"

text \<open>The cached state of a new block: its changed accounts that still exist, with their changed slots.\<close>

definition on_new_state ::
  "('h, address \<times> 'i \<times> ('k \<times> 'v) list, 'p) generator \<Rightarrow> b256 \<Rightarrow> (address \<times> 'i option \<times> ('k \<times> 'v) list) list
   \<Rightarrow> ('h, address \<times> 'i \<times> ('k \<times> 'v) list, 'p) generator" where
  "on_new_state g tip accounts =
     (let cached = fold (\<lambda>(addr, info, storage) m. case info of None \<Rightarrow> m | Some i \<Rightarrow> AList.update addr (i, storage) m) accounts [] in
      g \<lparr> gn_pre_cached := Some \<lparr> pc_block = tip, pc_cached = cached \<rparr> \<rparr>)"

text \<open>A new job. The token of the previous job is cancelled before anything can fail.\<close>

definition take_token :: "('h, 'c, 'p) generator \<Rightarrow> nat \<times> ('h, 'c, 'p) generator" where
  "take_token g =
     (let t = gn_next_token g; g' = g \<lparr> gn_next_token := t + 1 \<rparr> in
      if gn_ensure_only_one_payload g
      then (t, g' \<lparr> gn_cancelled := gn_last_payload g # gn_cancelled g, gn_last_payload := t \<rparr>)
      else (t, g'))"

definition parent_of :: "'h gen_client \<Rightarrow> gen_attrs \<Rightarrow> gen_error + 'h" where
  "parent_of cl attrs =
     and_then (map_err ProviderError (if ga_parent attrs = 0 then gc_latest_header cl else gc_sealed_header_by_hash cl (ga_parent attrs)))
       (ok_or (MissingParentBlock (ga_parent attrs)))"

text \<open>Starting the build of a job hands it the job's cell, and the cached reads, which the job gives away.\<close>

definition spawn_build_job :: "('h, 'c) payload_job \<Rightarrow> (('h, 'c) build_arguments \<times> cell_ref) \<times> ('h, 'c) payload_job" where
  "spawn_build_job job =
     ((\<lparr> ba_cached_reads = (case pj_cached_reads job of None \<Rightarrow> [] | Some c \<Rightarrow> c), ba_parent = pj_parent job,
         ba_attributes = pj_attributes job, ba_cancel = pj_cancel job \<rparr>, pj_cell job),
      job \<lparr> pj_cached_reads := None \<rparr>)"

text \<open>The wall clock in seconds and the instant of the request are arguments. The sum of two durations panics on overflow.\<close>

definition new_payload_job ::
  "'h gen_client \<Rightarrow> gen_attrs \<Rightarrow> u64 \<Rightarrow> int \<Rightarrow> ('h, 'c, 'p) generator \<Rightarrow> (gen_error + nat) \<times> ('h, 'c, 'p) generator" where
  "new_payload_job cl attrs unix_now inst g =
     (let (cancel_token, g1) = take_token g in
      case parent_of cl attrs of
        Inl e \<Rightarrow> (Inl e, g1)
      | Inr par \<Rightarrow>
          let deadline = job_deadline (ga_timestamp attrs) unix_now + gn_extra_block_deadline g1 in
          if dur_max < deadline then (Inl DurationOverflow, g1)
          else
            let job = \<lparr> pj_parent = par, pj_attributes = attrs, pj_cell = length (gn_cells g1), pj_cancel = cancel_token,
                        pj_deadline = inst + int deadline,
                        pj_cached_reads = maybe_pre_cached g1 (gc_hash cl par) \<rparr>;
                (build, job') = spawn_build_job job in
            (Inr (length (gn_jobs g1)),
             g1 \<lparr> gn_cells := gn_cells g1 @ [cell_new], gn_jobs := gn_jobs g1 @ [job'], gn_builds := gn_builds g1 @ [build] \<rparr>))"

section \<open>Model: polling and resolving\<close>

definition is_cancelled :: "('h, 'c, 'p) generator \<Rightarrow> nat \<Rightarrow> bool" where
  "is_cancelled g t = List.member (gn_cancelled g) t"

text \<open>Polling a job: ready at the deadline, which cancels it, or when it has been cancelled.\<close>

definition job_poll :: "nat \<Rightarrow> int \<Rightarrow> ('h, 'c, 'p) generator \<Rightarrow> (payload_error + unit) option \<times> ('h, 'c, 'p) generator" where
  "job_poll i now g =
     (let job = gn_jobs g ! i in
      if pj_deadline job \<le> now
      then (Some (Inr ()), g \<lparr> gn_cancelled := pj_cancel job # gn_cancelled g \<rparr>)
      else if is_cancelled g (pj_cancel job) then (Some (Inr ()), g)
      else (None, g))"

text \<open>Resolving cancels the job and gives the future that waits for its payload; the flag says that the node need not keep the job alive.\<close>

definition resolve_kind :: "nat \<Rightarrow> ('h, 'c, 'p) generator \<Rightarrow> (resolve_future \<times> bool) \<times> ('h, 'c, 'p) generator" where
  "resolve_kind i g =
     (let job = gn_jobs g ! i;
          g' = g \<lparr> gn_cancelled := pj_cancel job # gn_cancelled g \<rparr>;
          future = resolve_payload_new (wait_for_value (pj_cell job)) in
      ((future, False), g'))"

text \<open>The task of a build stores a payload into the cell it was started with.\<close>

definition store_payload :: "nat \<Rightarrow> 'p \<Rightarrow> ('h, 'c, 'p) generator \<Rightarrow> ('h, 'c, 'p) generator" where
  "store_payload b v g =
     (let (args, cell) = gn_builds g ! b in
      g \<lparr> gn_cells := (gn_cells g)[cell := cell_set (gn_cells g ! cell) v] \<rparr>)"

section \<open>Histories\<close>

inductive gen_step :: "'h gen_client \<Rightarrow> ('h, 'c, 'p) generator \<Rightarrow> ('h, 'c, 'p) generator \<Rightarrow> bool" for cl where
  new_job: "gen_step cl g (snd (new_payload_job cl attrs now inst g))"
| poll: "i < length (gn_jobs g) \<Longrightarrow> gen_step cl g (snd (job_poll i now' g))"
| resolve: "i < length (gn_jobs g) \<Longrightarrow> gen_step cl g (snd (resolve_kind i g))"
| store: "b < length (gn_builds g) \<Longrightarrow> gen_step cl g (store_payload b v g)"
| new_state: "gen_step cl g (g \<lparr> gn_pre_cached := Some pc \<rparr>)"

inductive reachable_gen :: "'h gen_client \<Rightarrow> ('h, 'c, 'p) generator \<Rightarrow> ('h, 'c, 'p) generator \<Rightarrow> bool" for cl g0 where
  start: "reachable_gen cl g0 g0"
| step: "reachable_gen cl g0 g \<Longrightarrow> gen_step cl g g' \<Longrightarrow> reachable_gen cl g0 g'"

text \<open>The jobs that are still running.\<close>

definition live_jobs :: "('h, 'c, 'p) generator \<Rightarrow> ('h, 'c) payload_job list" where
  "live_jobs g = filter (\<lambda>j. \<not> is_cancelled g (pj_cancel j)) (gn_jobs g)"

definition gen_inv :: "('h, 'c, 'p) generator \<Rightarrow> bool" where
  "gen_inv g \<longleftrightarrow> gn_ensure_only_one_payload g \<and> gn_last_payload g < gn_next_token g \<and>
     (\<forall>j \<in> set (gn_jobs g). pj_cancel j < gn_next_token g \<and>
        (pj_cancel j = gn_last_payload g \<or> pj_cancel j \<in> set (gn_cancelled g))) \<and>
     distinct (map pj_cancel (gn_jobs g))"

text \<open>Every job has a cell of its own, and its build has the same one.\<close>

definition cells_inv :: "('h, 'c, 'p) generator \<Rightarrow> bool" where
  "cells_inv g \<longleftrightarrow> map pj_cell (gn_jobs g) = [0..<length (gn_cells g)] \<and> map snd (gn_builds g) = [0..<length (gn_cells g)]"

section \<open>At most one job runs\<close>

lemma take_token_fst: "take_token g = (gn_next_token g, snd (take_token g))"
  by (simp add: take_token_def Let_def)

lemma new_payload_job_cases:
  obtains (failed) e where "new_payload_job cl attrs now inst g = (Inl e, snd (take_token g))"
  | (created) job args where "new_payload_job cl attrs now inst g =
      (Inr (length (gn_jobs (snd (take_token g)))),
       (snd (take_token g)) \<lparr> gn_cells := gn_cells (snd (take_token g)) @ [cell_new], gn_jobs := gn_jobs (snd (take_token g)) @ [job],
         gn_builds := gn_builds (snd (take_token g)) @ [(args, pj_cell job)] \<rparr>)"
      "pj_cancel job = gn_next_token g" "pj_cell job = length (gn_cells (snd (take_token g)))"
proof (cases "parent_of cl attrs")
  case (Inl e)
  then show ?thesis by (intro failed [of e], subst new_payload_job_def, subst take_token_fst) simp
next
  case (Inr par)
  define g1 where "g1 = snd (take_token g)"
  have eq: "take_token g = (gn_next_token g, g1)" unfolding g1_def by (rule take_token_fst)
  show ?thesis
  proof (cases "dur_max < job_deadline (ga_timestamp attrs) now + gn_extra_block_deadline g1")
    case True
    then show ?thesis using Inr eq by (intro failed [of DurationOverflow]) (simp add: new_payload_job_def g1_def [symmetric])
  next
    case False
    let ?job = "\<lparr> pj_parent = par, pj_attributes = attrs, pj_cell = length (gn_cells g1), pj_cancel = gn_next_token g,
        pj_deadline = inst + int (job_deadline (ga_timestamp attrs) now + gn_extra_block_deadline g1),
        pj_cached_reads = maybe_pre_cached g1 (gc_hash cl par) \<rparr>"
    show ?thesis
      by (rule created [where job = "snd (spawn_build_job ?job)" and args = "fst (fst (spawn_build_job ?job))"], unfold g1_def [symmetric])
        (use Inr eq False in \<open>simp_all add: new_payload_job_def spawn_build_job_def Let_def\<close>)
  qed
qed

lemma take_token_inv:
  assumes "gen_inv g"
  shows "gen_inv (snd (take_token g))" "gn_jobs (snd (take_token g)) = gn_jobs g"
    "gn_last_payload (snd (take_token g)) = gn_next_token g" "gn_next_token (snd (take_token g)) = gn_next_token g + 1"
    "\<forall>j \<in> set (gn_jobs g). is_cancelled (snd (take_token g)) (pj_cancel j)"
  using assms by (auto simp: gen_inv_def take_token_def Let_def is_cancelled_def less_Suc_eq)

lemma new_payload_job_inv:
  assumes "gen_inv g"
  shows "gen_inv (snd (new_payload_job cl attrs now inst g))"
proof (cases rule: new_payload_job_cases [of cl attrs now inst g])
  case (failed e)
  then show ?thesis using take_token_inv(1) [OF assms] by simp
next
  case (created job args)
  define g1 where "g1 = snd (take_token g)"
  note tok = take_token_inv [OF assms, folded g1_def]
  have "pj_cancel job \<notin> pj_cancel ` set (gn_jobs g1)" using created(2) tok(2) assms by (auto simp: gen_inv_def)
  moreover have "pj_cancel job = gn_last_payload g1" "gn_last_payload g1 < gn_next_token g1" using created(2) tok(3,4) by simp_all
  ultimately have "gen_inv (g1 \<lparr> gn_cells := gn_cells g1 @ [cell_new], gn_jobs := gn_jobs g1 @ [job], gn_builds := gn_builds g1 @ [(args, pj_cell job)] \<rparr>)"
    using tok(1) by (simp add: gen_inv_def ball_Un)
  then show ?thesis using created(1) by (simp add: g1_def)
qed

lemma store_payload_sel:
  "gn_ensure_only_one_payload (store_payload b v g) = gn_ensure_only_one_payload g" "gn_last_payload (store_payload b v g) = gn_last_payload g"
  "gn_next_token (store_payload b v g) = gn_next_token g" "gn_cancelled (store_payload b v g) = gn_cancelled g"
  "gn_jobs (store_payload b v g) = gn_jobs g" "gn_builds (store_payload b v g) = gn_builds g"
  "length (gn_cells (store_payload b v g)) = length (gn_cells g)"
  by (simp_all add: store_payload_def case_prod_unfold Let_def)

lemma gen_step_inv: "gen_step cl g g' \<Longrightarrow> gen_inv g \<Longrightarrow> gen_inv g'"
proof (induction rule: gen_step.induct)
  case new_job
  then show ?case by (rule new_payload_job_inv)
qed (auto simp: gen_inv_def job_poll_def resolve_kind_def store_payload_sel Let_def)

lemma take_token_cells:
  "gn_cells (snd (take_token g)) = gn_cells g" "gn_jobs (snd (take_token g)) = gn_jobs g" "gn_builds (snd (take_token g)) = gn_builds g"
  by (simp_all add: take_token_def Let_def)

lemma gen_step_cells: "gen_step cl g g' \<Longrightarrow> cells_inv g \<Longrightarrow> cells_inv g'"
proof (induction rule: gen_step.induct)
  case (new_job g attrs now inst)
  then show ?case
    by (cases rule: new_payload_job_cases [of cl attrs now inst g]) (simp_all add: cells_inv_def take_token_cells)
qed (simp_all add: cells_inv_def job_poll_def resolve_kind_def store_payload_sel Let_def)

lemma reachable_gen_cells: "reachable_gen cl (with_builder only_one d) g \<Longrightarrow> cells_inv g"
proof (induction rule: reachable_gen.induct)
  case start
  then show ?case by (simp add: cells_inv_def with_builder_def)
qed (simp add: gen_step_cells)

text \<open>What the builds store: each cell ends up with the last value its own build has stored.\<close>

lemma stored_in_cell:
  assumes "cells_inv g" "i < length (gn_cells g)" "\<forall>(b, v) \<in> set stores. b < length (gn_builds g)"
  shows "cell_inner (gn_cells (fold (\<lambda>(b, v). store_payload b v) stores g) ! i) =
    (let vs = map snd (filter (\<lambda>x. fst x = i) stores) in if vs = [] then cell_inner (gn_cells g ! i) else Some (last vs))"
  using assms
proof (induction stores arbitrary: g)
  case (Cons x stores)
  obtain b v where x: "x = (b, v)" by fastforce
  let ?g = "store_payload b v g"
  have b: "b < length (gn_builds g)" using Cons.prems(3) x by simp
  have len: "length (gn_builds g) = length (gn_cells g)" using Cons.prems(1) unfolding cells_inv_def by (metis length_map diff_zero length_upt)
  have "snd (gn_builds g ! b) = map snd (gn_builds g) ! b" using b by simp
  also have "\<dots> = b" using Cons.prems(1) b len by (simp add: cells_inv_def)
  finally have cell: "snd (gn_builds g ! b) = b" .
  have inner: "cell_inner (gn_cells ?g ! i) = (if b = i then Some v else cell_inner (gn_cells g ! i))"
    using Cons.prems(2) cell by (simp add: store_payload_def case_prod_unfold Let_def cell_set_def)
  have "cells_inv ?g" using Cons.prems(1) by (simp add: cells_inv_def store_payload_sel)
  from Cons.IH [OF this] show ?case
    using Cons.prems inner x by (auto simp: store_payload_sel Let_def)
qed simp

lemma reachable_gen_inv: "reachable_gen cl (with_builder True d) g \<Longrightarrow> gen_inv g"
proof (induction rule: reachable_gen.induct)
  case start
  then show ?case by (simp add: gen_inv_def with_builder_def)
qed (simp add: gen_step_inv)

lemma one_token:
  assumes "distinct (map f xs)" "\<And>x. x \<in> set xs \<Longrightarrow> P x \<Longrightarrow> f x = t"
  shows "length (filter P xs) \<le> 1"
proof (rule ccontr)
  assume "\<not> length (filter P xs) \<le> 1"
  then obtain x y zs where f: "filter P xs = x # y # zs" by (cases "filter P xs"; cases "tl (filter P xs)") auto
  then have "{x, y} \<subseteq> set (filter P xs)" by simp
  then have "x \<in> set xs" "P x" "y \<in> set xs" "P y" by auto
  moreover have "distinct (map f (filter P xs))" using assms(1) by (simp add: distinct_map_filter)
  ultimately show False using f assms(2) by auto
qed

section \<open>Properties\<close>

text \<open>C22: With the option to keep only one payload, at most one job is running after any history of requests, polls, resolutions
  and stored payloads, and it is the job of the last request. A request that fails, because its parent is unknown, still stops
  the job that was running.\<close>

theorem one_live_job:
  assumes "reachable_gen cl (with_builder True d) g"
  shows "length (live_jobs g) \<le> 1 \<and> (\<forall>j \<in> set (live_jobs g). pj_cancel j = gn_last_payload g) \<and>
    (\<forall>attrs now inst e g'. new_payload_job cl attrs now inst g = (Inl e, g') \<longrightarrow> live_jobs g' = [])"
proof -
  have inv: "gen_inv g" by (rule reachable_gen_inv [OF assms])
  have last: "pj_cancel j = gn_last_payload g" if "j \<in> set (gn_jobs g)" "\<not> is_cancelled g (pj_cancel j)" for j
    using inv that by (auto simp: gen_inv_def is_cancelled_def)
  have "live_jobs g' = []" if "new_payload_job cl attrs now inst g = (Inl e, g')" for attrs now inst e g'
    using that take_token_inv(2,5) [OF inv]
    by (cases rule: new_payload_job_cases [of cl attrs now inst g]) (auto simp: live_jobs_def filter_empty_conv)
  moreover have "length (live_jobs g) \<le> 1"
    unfolding live_jobs_def using inv last by (intro one_token [where f = pj_cancel and t = "gn_last_payload g"]) (auto simp: gen_inv_def)
  ultimately show ?thesis using last by (auto simp: live_jobs_def)
qed

definition demo_client :: "nat gen_client" where
  "demo_client = \<lparr> gc_latest_header = Inr (Some 0), gc_sealed_header_by_hash = (\<lambda>h. if h = 9 then Inr None else Inr (Some (unat h))),
     gc_hash = of_nat \<rparr>"

lemmas demo_job_simps = new_payload_job_def take_token_def parent_of_def demo_client_def with_builder_def job_deadline_def
  spawn_build_job_def saturating_sub_def from_secs_def dur_max_def Let_def

theorem one_live_job_witness:
  "\<exists>g g' :: (nat, unit, nat) generator. reachable_gen demo_client (with_builder True 0) g \<and> length (gn_jobs g) = 2 \<and> length (live_jobs g) \<le> 1 \<and>
     new_payload_job demo_client \<lparr> ga_parent = 9, ga_timestamp = 0 \<rparr> 0 0 g = (Inl (MissingParentBlock 9), g') \<and> live_jobs g' = []"
proof -
  let ?new = "\<lambda>g :: (nat, unit, nat) generator. snd (new_payload_job demo_client \<lparr> ga_parent = 1, ga_timestamp = 10 \<rparr> 5 0 g)"
  let ?g = "?new (?new (with_builder True 0))"
  have r: "reachable_gen demo_client (with_builder True 0) ?g"
    by (intro reachable_gen.step [OF _ gen_step.new_job] reachable_gen.start)
  have "length (gn_jobs ?g) = 2"
    by (simp add: demo_job_simps)
  moreover obtain g' where "new_payload_job demo_client \<lparr> ga_parent = 9, ga_timestamp = 0 \<rparr> 0 0 ?g = (Inl (MissingParentBlock 9), g')"
    by (simp add: new_payload_job_def [of _ "\<lparr> ga_parent = 9, ga_timestamp = 0 \<rparr>"] parent_of_def demo_client_def case_prod_unfold)
  ultimately show ?thesis using r one_live_job [OF r] by blast
qed

text \<open>C23: Resolving a job of any history stops it and gives the node a future for its payload. Whatever the builds of the generator store
  afterwards, in any order, the future yields the payload that the build of this very job stored last, even one stored after the resolution;
  it waits exactly as long as that build has stored nothing, and what the builds of other jobs store never shows.\<close>

theorem resolved_job_returns_last_payload:
  assumes "reachable_gen cl (with_builder only_one d) g" and "i < length (gn_jobs g)"
    and "resolve_kind i g = ((future, alive), g')" and "\<forall>(b, v) \<in> set stores. b < length (gn_builds g')"
  shows "\<not> alive \<and> job_poll i now g' = (Some (Inr ()), snd (job_poll i now g')) \<and>
    resolve_payload_poll (gn_cells (fold (\<lambda>(b, v). store_payload b v) stores g')) future =
      (let vs = map snd (filter (\<lambda>x. fst x = i) stores) in
       if vs = [] then map_option Inr (cell_inner (gn_cells g ! pj_cell (gn_jobs g ! i))) else Some (Inr (last vs)))"
proof -
  have g': "\<not> alive" "g' = g \<lparr> gn_cancelled := pj_cancel (gn_jobs g ! i) # gn_cancelled g \<rparr>"
    and future: "wv_cell (rp_future future) = pj_cell (gn_jobs g ! i)"
    using assms(3) by (auto simp: resolve_kind_def resolve_payload_new_def wait_for_value_def Let_def)
  have inv: "cells_inv g" using assms(1) by (rule reachable_gen_cells)
  then have len: "length (gn_jobs g) = length (gn_cells g)" unfolding cells_inv_def by (metis length_map diff_zero length_upt)
  have "pj_cell (gn_jobs g ! i) = map pj_cell (gn_jobs g) ! i" using assms(2) by simp
  also have "\<dots> = i" using inv assms(2) len by (simp add: cells_inv_def)
  finally have cell: "pj_cell (gn_jobs g ! i) = i" .
  have "cells_inv g'" using inv g'(2) by (simp add: cells_inv_def)
  from stored_in_cell [OF this _ assms(4), of i] show ?thesis
    using assms(2) g' future cell len
    by (auto simp: job_poll_def is_cancelled_def Let_def resolve_payload_poll_def wait_for_value_poll_def cell_get_def)
qed

theorem resolved_job_returns_last_payload_witness:
  "let new = \<lambda>n. snd \<circ> new_payload_job demo_client \<lparr> ga_parent = n, ga_timestamp = 10 \<rparr> 5 0;
       g = new 2 (new 1 (with_builder True 0 :: (nat, unit, nat) generator));
       ((future, alive), g') = resolve_kind 0 g in
     length (gn_jobs g) = 2 \<and> resolve_payload_poll (gn_cells g') future = None \<and>
     resolve_payload_poll (gn_cells (store_payload 1 8 (store_payload 0 4 (store_payload 0 3 g')))) future = Some (Inr 4)"
proof -
  let ?new = "\<lambda>n g :: (nat, unit, nat) generator. snd (new_payload_job demo_client \<lparr> ga_parent = n, ga_timestamp = 10 \<rparr> 5 0 g)"
  let ?g = "?new 2 (?new 1 (with_builder True 0))"
  have r: "reachable_gen demo_client (with_builder True 0) ?g"
    by (intro reachable_gen.step [OF _ gen_step.new_job] reachable_gen.start)
  have sel: "length (gn_jobs ?g) = 2" "length (gn_builds ?g) = 2" "cell_inner (gn_cells ?g ! pj_cell (gn_jobs ?g ! 0)) = None"
    by (simp_all add: demo_job_simps cell_new_def)
  obtain future alive g' where res: "resolve_kind 0 ?g = ((future, alive), g')" by (metis prod.exhaust)
  then have builds: "length (gn_builds g') = 2" using sel(2) by (auto simp: resolve_kind_def Let_def)
  have "resolve_payload_poll (gn_cells g') future = None"
    using resolved_job_returns_last_payload [OF r _ res, of "[]"] sel by simp
  moreover have "resolve_payload_poll (gn_cells (store_payload 1 8 (store_payload 0 4 (store_payload 0 3 g')))) future = Some (Inr 4)"
    using resolved_job_returns_last_payload [OF r _ res, of "[(0, 3), (0, 4), (1, 8)]"] sel(1) builds by simp
  ultimately show ?thesis using res sel(1) by (simp add: Let_def comp_def)
qed

end
