(* ===== verification/Flashtestations.thy ===== *)
theory Flashtestations
  imports Builder_Tx
begin

text \<open>
  \<^verbatim>\<open>flashtestations/builder_tx.rs\<close>: the builder transactions that register the builder's attestation
  with a registry contract and prove the content of a block to a policy contract. The calls are those of the contracts'
  interfaces; their encoding, the decoding of results and the hash function are library functions. Contract calls are
  simulated with the functions of \<open>builder_tx.rs\<close>.
\<close>

section \<open>Model: data\<close>

record ft_builder_tx =
  ft_attestation :: bytes
  ft_extra_registration_data :: bytes
  ft_tee_service_signer :: signer
  ft_registry_address :: address
  ft_builder_policy_address :: address
  ft_builder_proof_version :: u8
  ft_registered :: bool
  ft_enable_block_proofs :: bool
  ft_builder_signer :: signer

datatype ft_call =
    GetRegistrationStatus address
  | Nonces address
  | RegistryComputeStructHash bytes bytes u256 u256
  | RegistryHashTypedDataV4 b256
  | PermitRegisterTEEService bytes bytes u256 u256 bytes
  | PolicyComputeStructHash u8 b256 u256
  | PolicyGetHashedTypeDataV4 b256
  | PermitVerifyBlockBuilderProof u8 b256 u256 bytes

record ft_abi =
  ft_abi_encode :: "ft_call \<Rightarrow> bytes"
  decode_registration_valid :: "bytes \<Rightarrow> bool option"
  decode_uint256 :: "bytes \<Rightarrow> u256 option"
  decode_bytes32 :: "bytes \<Rightarrow> b256 option"
  decode_unit :: "bytes \<Rightarrow> unit option"
  signature_as_bytes :: "signature \<Rightarrow> bytes"
  abi_encode_block_data :: "b256 \<Rightarrow> u256 \<Rightarrow> u256 \<Rightarrow> b256 list \<Rightarrow> bytes"
  tee_service_registered_topic :: b256
  block_builder_proof_verified_topic :: b256

section \<open>Model: contract calls\<close>

definition compute_block_content_hash :: "signer_ops \<Rightarrow> ft_abi \<Rightarrow> op_tx list \<Rightarrow> b256 \<Rightarrow> u64 \<Rightarrow> u64 \<Rightarrow> b256" where
  "compute_block_content_hash so abi txs parent_hash number ts =
     (let transaction_hashes = map (\<lambda>tx. keccak_256 so (encoded_2718 tx)) txs in
      keccak_256 so (abi_encode_block_data abi parent_hash (ucast number) (ucast ts) transaction_hashes))"

text \<open>The source has a branch for each of the two contracts, which differ in the errors a revert is decoded to.\<close>

definition flashtestations_call ::
  "('db, 'st) builder_ops \<Rightarrow> ft_abi \<Rightarrow> ft_builder_tx \<Rightarrow> evm_cfg \<Rightarrow> (bytes \<Rightarrow> 'o option) \<Rightarrow> address \<Rightarrow> ft_call \<Rightarrow> b256 list
   \<Rightarrow> ('db, 'st, 'c) op_ctx \<Rightarrow> 'db \<Rightarrow> builder_tx_error + ('o, 'st) simulation_success" where
  "flashtestations_call bops abi ft cfg dec contract_address calldata expected_topics ctx db =
     and_then (get_nonce bops db (sn_address (ft_builder_signer ft))) (\<lambda>nonce.
       let tx_req = \<lparr> cr_from = sn_address (ft_builder_signer ft), cr_to = Some contract_address, cr_nonce = nonce,
                      cr_gas_limit = block_gas_limit ctx, cr_max_fee_per_gas = ucast (base_fee ctx),
                      cr_input = ft_abi_encode abi calldata \<rparr> in
       if contract_address = ft_registry_address ft \<or> contract_address = ft_builder_policy_address ft
       then simulate_call bops cfg dec tx_req expected_topics db
       else Inl (BtOther ''invalid contract address for flashtestations''))"

definition flashtestations_contract_read ::
  "('db, 'st) builder_ops \<Rightarrow> ft_abi \<Rightarrow> ft_builder_tx \<Rightarrow> evm_cfg \<Rightarrow> (bytes \<Rightarrow> 'o option) \<Rightarrow> address \<Rightarrow> ft_call
   \<Rightarrow> ('db, 'st, 'c) op_ctx \<Rightarrow> 'db \<Rightarrow> builder_tx_error + 'o" where
  "flashtestations_contract_read bops abi ft cfg dec contract_address calldata ctx db =
     map_sum id sim_output (flashtestations_call bops abi ft cfg dec contract_address calldata [] ctx db)"

text \<open>The registration status is read from the committed state.\<close>

definition status_cfg :: evm_cfg where
  "status_cfg = \<lparr> disable_balance_check = True, disable_nonce_check = True, disable_block_gas_limit = False \<rparr>"

definition simulation_cfg :: evm_cfg where
  "simulation_cfg = \<lparr> disable_balance_check = True, disable_nonce_check = False, disable_block_gas_limit = True \<rparr>"

definition set_registered ::
  "('db, 'st) builder_ops \<Rightarrow> ft_abi \<Rightarrow> ft_builder_tx \<Rightarrow> 'db \<Rightarrow> ('db, 'st, 'c) op_ctx \<Rightarrow> builder_tx_error + ft_builder_tx" where
  "set_registered bops abi ft state_provider ctx =
     and_then (flashtestations_contract_read bops abi ft status_cfg (decode_registration_valid abi) (ft_registry_address ft)
                 (GetRegistrationStatus (sn_address (ft_tee_service_signer ft))) ctx state_provider) (\<lambda>is_valid.
       Inr (if is_valid then ft \<lparr> ft_registered := True \<rparr> else ft))"

definition get_permit_nonce ::
  "('db, 'st) builder_ops \<Rightarrow> ft_abi \<Rightarrow> ft_builder_tx \<Rightarrow> address \<Rightarrow> ('db, 'st, 'c) op_ctx \<Rightarrow> 'db \<Rightarrow> builder_tx_error + u256" where
  "get_permit_nonce bops abi ft contract_address ctx db =
     flashtestations_contract_read bops abi ft simulation_cfg (decode_uint256 abi) contract_address
       (Nonces (sn_address (ft_tee_service_signer ft))) ctx db"

section \<open>Model: the registration\<close>

definition registration_permit_signature ::
  "('db, 'st) builder_ops \<Rightarrow> ft_abi \<Rightarrow> ft_builder_tx \<Rightarrow> u256 \<Rightarrow> ('db, 'st, 'c) op_ctx \<Rightarrow> 'db \<Rightarrow> builder_tx_error + signature" where
  "registration_permit_signature bops abi ft permit_nonce ctx db =
     and_then (flashtestations_contract_read bops abi ft simulation_cfg (decode_bytes32 abi) (ft_registry_address ft)
                 (RegistryComputeStructHash (ft_attestation ft) (ft_extra_registration_data ft) permit_nonce (ucast (timestamp ctx)))
                 ctx db) (\<lambda>struct_hash.
     and_then (flashtestations_contract_read bops abi ft simulation_cfg (decode_bytes32 abi) (ft_registry_address ft)
                 (RegistryHashTypedDataV4 struct_hash) ctx db) (\<lambda>typed_data_hash.
       map_err SigningError (sign_message (signing bops) (ft_tee_service_signer ft) typed_data_hash)))"

definition flashtestations_tx :: "('db, 'st, 'c) op_ctx \<Rightarrow> u64 \<Rightarrow> recovered \<Rightarrow> builder_tx_ctx" where
  "flashtestations_tx ctx gas signed_tx =
     \<lparr> bt_gas_used = gas, bt_da_size = tx_estimated_size_fjord_bytes (evm ctx) (encoded_2718 (inner_tx signed_tx)),
       bt_signed_tx = signed_tx, bt_is_top_of_block = False \<rparr>"

text \<open>The state changes of the registration are committed, for the block proof that follows.\<close>

definition signed_registration_permit_tx ::
  "('db, 'st) builder_ops \<Rightarrow> ft_abi \<Rightarrow> ft_builder_tx \<Rightarrow> ('db, 'st, 'c) op_ctx \<Rightarrow> 'db \<Rightarrow> builder_tx_error + builder_tx_ctx \<times> 'db" where
  "signed_registration_permit_tx bops abi ft ctx db =
     and_then (get_permit_nonce bops abi ft (ft_registry_address ft) ctx db) (\<lambda>permit_nonce.
     and_then (registration_permit_signature bops abi ft permit_nonce ctx db) (\<lambda>sig.
       let calldata = PermitRegisterTEEService (ft_attestation ft) (ft_extra_registration_data ft) permit_nonce
                        (ucast (timestamp ctx)) (signature_as_bytes abi sig) in
       and_then (flashtestations_call bops abi ft simulation_cfg (decode_unit abi) (ft_registry_address ft) calldata
                   [tee_service_registered_topic abi] ctx db) (\<lambda>res.
       and_then (sign_tx bops (ft_registry_address ft) (ft_builder_signer ft) (sim_gas_used res) (ft_abi_encode abi calldata) ctx db)
         (\<lambda>signed_tx.
         Inr (flashtestations_tx ctx (sim_gas_used res) signed_tx, commit (evm ctx) db (sim_state_changes res))))))"

section \<open>Model: the block proof\<close>

definition block_proof_permit_signature ::
  "('db, 'st) builder_ops \<Rightarrow> ft_abi \<Rightarrow> ft_builder_tx \<Rightarrow> u256 \<Rightarrow> b256 \<Rightarrow> ('db, 'st, 'c) op_ctx \<Rightarrow> 'db \<Rightarrow> builder_tx_error + signature" where
  "block_proof_permit_signature bops abi ft permit_nonce block_content_hash ctx db =
     and_then (flashtestations_contract_read bops abi ft simulation_cfg (decode_bytes32 abi) (ft_builder_policy_address ft)
                 (PolicyComputeStructHash (ft_builder_proof_version ft) block_content_hash permit_nonce) ctx db) (\<lambda>struct_hash.
     and_then (flashtestations_contract_read bops abi ft simulation_cfg (decode_bytes32 abi) (ft_builder_policy_address ft)
                 (PolicyGetHashedTypeDataV4 struct_hash) ctx db) (\<lambda>typed_data_hash.
       map_err SigningError (sign_message (signing bops) (ft_tee_service_signer ft) typed_data_hash)))"

definition signed_block_proof_permit_tx ::
  "('db, 'st) builder_ops \<Rightarrow> ft_abi \<Rightarrow> ft_builder_tx \<Rightarrow> op_tx list \<Rightarrow> ('db, 'st, 'c) op_ctx \<Rightarrow> 'db \<Rightarrow> builder_tx_error + builder_tx_ctx" where
  "signed_block_proof_permit_tx bops abi ft txs ctx db =
     and_then (get_permit_nonce bops abi ft (ft_builder_policy_address ft) ctx db) (\<lambda>permit_nonce.
       let block_content_hash = compute_block_content_hash (signing bops) abi txs (ph_hash (parent ctx)) (block_number ctx)
                                  (timestamp ctx) in
       and_then (block_proof_permit_signature bops abi ft permit_nonce block_content_hash ctx db) (\<lambda>sig.
         let calldata = PermitVerifyBlockBuilderProof (ft_builder_proof_version ft) block_content_hash permit_nonce
                          (signature_as_bytes abi sig) in
         and_then (flashtestations_call bops abi ft simulation_cfg (decode_unit abi) (ft_builder_policy_address ft) calldata
                     [block_builder_proof_verified_topic abi] ctx db) (\<lambda>res.
         and_then (sign_tx bops (ft_builder_policy_address ft) (ft_builder_signer ft) (sim_gas_used res) (ft_abi_encode abi calldata) ctx db)
           (\<lambda>signed_tx. Inr (flashtestations_tx ctx (sim_gas_used res) signed_tx)))))"

section \<open>Model: the builder transactions\<close>

text \<open>A failed registration ends the simulation; a failed block proof is only logged. The flag that the service is
  registered outlives the build.\<close>

definition ft_simulate_builder_txs ::
  "('db, 'st) builder_ops \<Rightarrow> ft_abi \<Rightarrow> ft_builder_tx \<Rightarrow> 'db \<Rightarrow> 'x execution_info \<Rightarrow> ('db, 'st, 'c) op_ctx \<Rightarrow> 'db
   \<Rightarrow> (builder_tx_error + builder_tx_ctx list) \<times> ft_builder_tx" where
  "ft_simulate_builder_txs bops abi ft state_provider info ctx db =
     (case (if \<not> ft_registered ft then set_registered bops abi ft state_provider ctx else Inr ft) of
        Inl e \<Rightarrow> (Inl e, ft)
      | Inr ft' \<Rightarrow>
          (case (if \<not> ft_registered ft'
                 then map_sum id (map_prod (\<lambda>tx. [tx]) id) (signed_registration_permit_tx bops abi ft' ctx db)
                 else Inr ([], db)) of
             Inl e \<Rightarrow> (Inl e, ft')
           | Inr (builder_txs, db') \<Rightarrow>
               (Inr (if ft_enable_block_proofs ft'
                     then (case signed_block_proof_permit_tx bops abi ft' (executed_transactions info) ctx db' of
                             Inl e \<Rightarrow> builder_txs
                           | Inr block_proof_tx \<Rightarrow> builder_txs @ [block_proof_tx])
                     else builder_txs),
                ft')))"

end
