(* ===== verification/Builder_Impl.thy ===== *)
theory Builder_Impl
  imports Flashtestations Fb_Payload
begin

text \<open>
  \<^verbatim>\<open>builders/standard/builder_tx.rs\<close> and \<^verbatim>\<open>builders/flashblocks/builder_tx.rs\<close>: the
  implementations of the builder transactions. Each puts the transaction at the end of the block, the flashblocks builder
  with a contract also one that counts the flashblocks, and each adds the transactions of \<open>Flashtestations\<close> when that is
  configured.
\<close>

section \<open>Model: shared\<close>

text \<open>The transactions that will be in the block before those of the attestation are committed to the simulation state,
  so that the latter carry the right nonce; an error of the attestation is only logged.\<close>

definition add_flashtestations ::
  "('db, 'st) builder_ops \<Rightarrow> ft_abi \<Rightarrow> 'db \<Rightarrow> 'x execution_info \<Rightarrow> ('db, 'st, 'c) op_ctx \<Rightarrow> 'db \<Rightarrow> ft_builder_tx option
   \<Rightarrow> recovered list \<Rightarrow> builder_tx_ctx list \<Rightarrow> (builder_tx_error + builder_tx_ctx list) \<times> ft_builder_tx option" where
  "add_flashtestations bops abi state_provider info ctx db flashtestations included_txs builder_txs =
     (case flashtestations of
        None \<Rightarrow> (Inr builder_txs, None)
      | Some ft \<Rightarrow>
          (case commit_txs ctx included_txs db of
             (Inl e, _) \<Rightarrow> (Inl e, Some ft)
           | (Inr _, db') \<Rightarrow>
               (case ft_simulate_builder_txs bops abi ft state_provider info ctx db' of
                  (Inl e, ft') \<Rightarrow> (Inr builder_txs, Some ft')
                | (Inr flashtestations_builder_txs, ft') \<Rightarrow> (Inr (builder_txs @ flashtestations_builder_txs), Some ft'))))"

section \<open>Model: the standard builder\<close>

record standard_builder_tx =
  sb_base_signer :: "signer option"
  sb_flashtestations :: "ft_builder_tx option"

definition standard_simulate_builder_txs ::
  "('db, 'st) builder_ops \<Rightarrow> ft_abi \<Rightarrow> standard_builder_tx \<Rightarrow> 'db \<Rightarrow> 'x execution_info \<Rightarrow> ('db, 'st, 'c) op_ctx \<Rightarrow> 'db \<Rightarrow> bool
   \<Rightarrow> (builder_tx_error + builder_tx_ctx list) \<times> ft_builder_tx option" where
  "standard_simulate_builder_txs bops abi sb state_provider info ctx db top_of_block =
     (case simulate_builder_tx bops (sb_base_signer sb) ctx db of
        Inl e \<Rightarrow> (Inl e, sb_flashtestations sb)
      | Inr base \<Rightarrow>
          add_flashtestations bops abi state_provider info ctx db (sb_flashtestations sb)
            (map bt_signed_tx (opt_list base)) (opt_list base))"

section \<open>Model: the flashblocks builder\<close>

record flashblocks_builder_tx =
  fbt_base_signer :: "signer option"
  fbt_flashtestations :: "ft_builder_tx option"

definition flashblocks_simulate_builder_txs ::
  "('db, 'st) builder_ops \<Rightarrow> ft_abi \<Rightarrow> flashblocks_builder_tx \<Rightarrow> 'db \<Rightarrow> 'x execution_info \<Rightarrow> ('db, 'st) fb_ctx \<Rightarrow> 'db \<Rightarrow> bool
   \<Rightarrow> (builder_tx_error + builder_tx_ctx list) \<times> ft_builder_tx option" where
  "flashblocks_simulate_builder_txs bops abi fbt state_provider info ctx db top_of_block =
     (case (if is_first_flashblock ctx then simulate_builder_tx bops (fbt_base_signer fbt) ctx db else Inr None) of
        Inl e \<Rightarrow> (Inl e, fbt_flashtestations fbt)
      | Inr first \<Rightarrow>
          if is_last_flashblock ctx then
            (case simulate_builder_tx bops (fbt_base_signer fbt) ctx db of
               Inl e \<Rightarrow> (Inl e, fbt_flashtestations fbt)
             | Inr base \<Rightarrow>
                 add_flashtestations bops abi state_provider info ctx db (fbt_flashtestations fbt)
                   (map bt_signed_tx (opt_list base)) (opt_list first @ opt_list base))
          else (Inr (opt_list first), fbt_flashtestations fbt))"

section \<open>Model: the flashblocks builder with a contract\<close>

record flashblocks_number_builder_tx =
  fn_signer :: signer
  fn_flashblock_number_address :: address
  fn_use_permit :: bool
  fn_flashtestations :: "ft_builder_tx option"

datatype fn_call =
    FlashblockNumber
  | IncrementFlashblockNumber
  | FnComputeStructHash u256
  | FnHashTypedDataV4 b256
  | PermitIncrementFlashblockNumber u256 bytes

record fn_abi =
  fn_abi_encode :: "fn_call \<Rightarrow> bytes"
  fn_decode_uint256 :: "bytes \<Rightarrow> u256 option"
  fn_decode_bytes32 :: "bytes \<Rightarrow> b256 option"
  fn_decode_unit :: "bytes \<Rightarrow> unit option"
  fn_signature_as_bytes :: "signature \<Rightarrow> bytes"
  flashblock_incremented_topic :: b256

definition simulate_flashblocks_call ::
  "('db, 'st) builder_ops \<Rightarrow> fn_abi \<Rightarrow> flashblocks_number_builder_tx \<Rightarrow> (bytes \<Rightarrow> 'o option) \<Rightarrow> fn_call \<Rightarrow> b256 list
   \<Rightarrow> ('db, 'st) fb_ctx \<Rightarrow> 'db \<Rightarrow> builder_tx_error + ('o, 'st) simulation_success" where
  "simulate_flashblocks_call bops abi fn dec calldata expected_logs ctx db =
     and_then (get_nonce bops db (sn_address (fn_signer fn))) (\<lambda>nonce.
       simulate_call bops simulation_cfg dec
         \<lparr> cr_from = sn_address (fn_signer fn), cr_to = Some (fn_flashblock_number_address fn), cr_nonce = nonce,
           cr_gas_limit = block_gas_limit ctx, cr_max_fee_per_gas = ucast (base_fee ctx),
           cr_input = fn_abi_encode abi calldata \<rparr> expected_logs db)"

definition simulate_flashblocks_readonly_call ::
  "('db, 'st) builder_ops \<Rightarrow> fn_abi \<Rightarrow> flashblocks_number_builder_tx \<Rightarrow> (bytes \<Rightarrow> 'o option) \<Rightarrow> fn_call
   \<Rightarrow> ('db, 'st) fb_ctx \<Rightarrow> 'db \<Rightarrow> builder_tx_error + 'o" where
  "simulate_flashblocks_readonly_call bops abi fn dec calldata ctx db =
     map_sum id sim_output (simulate_flashblocks_call bops abi fn dec calldata [] ctx db)"

definition increment_flashblocks_tx ::
  "('db, 'st) builder_ops \<Rightarrow> fn_abi \<Rightarrow> flashblocks_number_builder_tx \<Rightarrow> fn_call \<Rightarrow> ('db, 'st) fb_ctx \<Rightarrow> 'db
   \<Rightarrow> builder_tx_error + builder_tx_ctx" where
  "increment_flashblocks_tx bops abi fn calldata ctx db =
     and_then (simulate_flashblocks_call bops abi fn (fn_decode_unit abi) calldata [flashblock_incremented_topic abi] ctx db) (\<lambda>res.
     and_then (sign_tx bops (fn_flashblock_number_address fn) (fn_signer fn) (sim_gas_used res) (fn_abi_encode abi calldata) ctx db)
       (\<lambda>signed_tx.
       Inr \<lparr> bt_gas_used = sim_gas_used res,
             bt_da_size = tx_estimated_size_fjord_bytes (evm ctx) (encoded_2718 (inner_tx signed_tx)),
             bt_signed_tx = signed_tx, bt_is_top_of_block = True \<rparr>))"

definition signed_increment_flashblocks_tx ::
  "('db, 'st) builder_ops \<Rightarrow> fn_abi \<Rightarrow> flashblocks_number_builder_tx \<Rightarrow> ('db, 'st) fb_ctx \<Rightarrow> 'db \<Rightarrow> builder_tx_error + builder_tx_ctx" where
  "signed_increment_flashblocks_tx bops abi fn ctx db = increment_flashblocks_tx bops abi fn IncrementFlashblockNumber ctx db"

definition increment_flashblocks_permit_signature ::
  "('db, 'st) builder_ops \<Rightarrow> fn_abi \<Rightarrow> flashblocks_number_builder_tx \<Rightarrow> signer \<Rightarrow> u256 \<Rightarrow> ('db, 'st) fb_ctx \<Rightarrow> 'db
   \<Rightarrow> builder_tx_error + signature" where
  "increment_flashblocks_permit_signature bops abi fn tee_signer current ctx db =
     and_then (simulate_flashblocks_readonly_call bops abi fn (fn_decode_bytes32 abi) (FnComputeStructHash current) ctx db) (\<lambda>struct_hash.
     and_then (simulate_flashblocks_readonly_call bops abi fn (fn_decode_bytes32 abi) (FnHashTypedDataV4 struct_hash) ctx db) (\<lambda>typed_data_hash.
       map_err SigningError (sign_message (signing bops) tee_signer typed_data_hash)))"

definition signed_increment_flashblocks_permit_tx ::
  "('db, 'st) builder_ops \<Rightarrow> fn_abi \<Rightarrow> flashblocks_number_builder_tx \<Rightarrow> signer \<Rightarrow> ('db, 'st) fb_ctx \<Rightarrow> 'db
   \<Rightarrow> builder_tx_error + builder_tx_ctx" where
  "signed_increment_flashblocks_permit_tx bops abi fn tee_signer ctx db =
     and_then (simulate_flashblocks_readonly_call bops abi fn (fn_decode_uint256 abi) FlashblockNumber ctx db) (\<lambda>current.
     and_then (increment_flashblocks_permit_signature bops abi fn tee_signer current ctx db) (\<lambda>sig.
       increment_flashblocks_tx bops abi fn (PermitIncrementFlashblockNumber current (fn_signature_as_bytes abi sig)) ctx db))"

text \<open>A contract call that cannot be simulated is replaced by the ordinary transaction, moved to the top.\<close>

definition flashblocks_number_txs ::
  "('db, 'st) builder_ops \<Rightarrow> fn_abi \<Rightarrow> flashblocks_number_builder_tx \<Rightarrow> ('db, 'st) fb_ctx \<Rightarrow> 'db \<Rightarrow> builder_tx_error + builder_tx_ctx option" where
  "flashblocks_number_txs bops abi fn ctx db =
     (if is_first_flashblock ctx then simulate_builder_tx bops (Some (fn_signer fn)) ctx db
      else
        case (case fn_flashtestations fn of
                Some ft \<Rightarrow>
                  if fn_use_permit fn
                  then signed_increment_flashblocks_permit_tx bops abi fn (ft_tee_service_signer ft) ctx db
                  else signed_increment_flashblocks_tx bops abi fn ctx db
              | None \<Rightarrow> signed_increment_flashblocks_tx bops abi fn ctx db) of
          Inr tx \<Rightarrow> Inr (Some tx)
        | Inl e \<Rightarrow> map_sum id (map_option set_top_of_block) (simulate_builder_tx bops (Some (fn_signer fn)) ctx db))"

definition number_simulate_builder_txs ::
  "('db, 'st) builder_ops \<Rightarrow> ft_abi \<Rightarrow> fn_abi \<Rightarrow> flashblocks_number_builder_tx \<Rightarrow> 'db \<Rightarrow> 'x execution_info \<Rightarrow> ('db, 'st) fb_ctx \<Rightarrow> 'db
   \<Rightarrow> bool \<Rightarrow> (builder_tx_error + builder_tx_ctx list) \<times> ft_builder_tx option" where
  "number_simulate_builder_txs bops abi nabi fn state_provider info ctx db top_of_block =
     (case flashblocks_number_txs bops nabi fn ctx db of
        Inl e \<Rightarrow> (Inl e, fn_flashtestations fn)
      | Inr tx \<Rightarrow>
          if is_last_flashblock ctx then
            add_flashtestations bops abi state_provider info ctx db (fn_flashtestations fn)
              (map bt_signed_tx (filter (\<lambda>tx. bt_is_top_of_block tx = top_of_block) (opt_list tx))) (opt_list tx)
          else (Inr (opt_list tx), fn_flashtestations fn))"

section \<open>Model: as the argument of a build\<close>

text \<open>Within a build the flag of the attestation is a function of the committed state (\<open>ft_flag_cached\<close> below), so the
  simulation of a build is the one with the flag it started with.\<close>

definition standard_sim ::
  "('db, 'st) builder_ops \<Rightarrow> ft_abi \<Rightarrow> standard_builder_tx \<Rightarrow> 'db \<Rightarrow> ('db, 'st, 'c, 'x) simulate_builder_txs" where
  "standard_sim bops abi sb state_provider info ctx db top_of_block =
     (fst (standard_simulate_builder_txs bops abi sb state_provider info ctx db top_of_block), info)"

definition flashblocks_sim ::
  "('db, 'st) builder_ops \<Rightarrow> ft_abi \<Rightarrow> flashblocks_builder_tx \<Rightarrow> 'db \<Rightarrow> ('db, 'st, fb_extra_ctx, 'x) simulate_builder_txs" where
  "flashblocks_sim bops abi fbt state_provider info ctx db top_of_block =
     (fst (flashblocks_simulate_builder_txs bops abi fbt state_provider info ctx db top_of_block), info)"

definition number_sim ::
  "('db, 'st) builder_ops \<Rightarrow> ft_abi \<Rightarrow> fn_abi \<Rightarrow> flashblocks_number_builder_tx \<Rightarrow> 'db
   \<Rightarrow> ('db, 'st, fb_extra_ctx, 'x) simulate_builder_txs" where
  "number_sim bops abi nabi fn state_provider info ctx db top_of_block =
     (fst (number_simulate_builder_txs bops abi nabi fn state_provider info ctx db top_of_block), info)"

end
