(* ===== verification/Builder_Nonces.thy ===== *)
theory Builder_Nonces
  imports Builder_Impl Fb_Invariant
begin

text \<open>
  The builder transactions of one simulation belong together: those meant for the same position of the block carry
  consecutive nonces of the builder's account, so that adding them to the block includes all of them up to the first that
  fails. This is shown for an interface of builder transactions and holds for its three implementations.
\<close>

section \<open>Nonces\<close>

text \<open>What is used of the EVM: running a transaction or a call (with the nonce check on) raises the nonce of its sender by
  one, a transaction is rejected for a low nonce only if the account is ahead, and a call keeps its sender and nonce.\<close>

definition nonce_law :: "('db, 'st) evm_ops \<Rightarrow> ('db, 'st) builder_ops \<Rightarrow> bool" where
  "nonce_law ops bops \<longleftrightarrow>
     (\<forall>db tx r st. transact ops db tx = Inr (r, st) \<and> tx_ty (inner_tx tx) = Eip1559 \<longrightarrow>
        get_nonce bops (commit ops db st) (signer tx) = Inr (tx_nonce (inner_tx tx) + 1)) \<and>
     (\<forall>db tx msg. transact ops db tx = Inl (InvalidTx True msg) \<longrightarrow>
        (\<exists>m. get_nonce bops db (signer tx) = Inr m \<and> tx_nonce (inner_tx tx) < m)) \<and>
     (\<forall>cfg db req r st. call_transact bops cfg db req = Inr (r, st) \<and> \<not> disable_nonce_check cfg \<longrightarrow>
        get_nonce bops (commit ops db st) (cr_from req) = Inr (cr_nonce req + 1)) \<and>
     (\<forall>req env. call_tx_env bops req = Inr env \<longrightarrow> cr_from env = cr_from req \<and> cr_nonce env = cr_nonce req)"

text \<open>Transactions of one account with nonces from a first one on.\<close>

fun chain_from :: "address \<Rightarrow> u64 \<Rightarrow> builder_tx_ctx list \<Rightarrow> bool" where
  "chain_from a n [] = True"
| "chain_from a n (b # bs) =
     (signer (bt_signed_tx b) = a \<and> tx_nonce (inner_tx (bt_signed_tx b)) = n \<and>
      tx_ty (inner_tx (bt_signed_tx b)) = Eip1559 \<and> chain_from a (n + 1) bs)"

definition position :: "bool \<Rightarrow> builder_tx_ctx list \<Rightarrow> builder_tx_ctx list" where
  "position atop bs = filter (\<lambda>b. bt_is_top_of_block b = atop) bs"

lemma position_simps [simp]:
  "position atop [] = []"
  "position atop (b # bs) = (if bt_is_top_of_block b = atop then b # position atop bs else position atop bs)"
  "position atop (bs @ cs) = position atop bs @ position atop cs"
  by (simp_all add: position_def)

lemma chain_from_append: "chain_from a n (bs @ cs) \<longleftrightarrow> chain_from a n bs \<and> chain_from a (n + of_nat (length bs)) cs"
  by (induction bs arbitrary: n) (auto simp: add.assoc)

text \<open>All transactions of a list up to the first that does not succeed on the database they end with.\<close>

definition included_up_to_failure ::
  "('db, 'st, 'c) op_ctx \<Rightarrow> builder_tx_ctx list \<Rightarrow> ('db, 'x, 'y) seq_state_scheme \<Rightarrow> ('db, 'x, 'z) seq_state_scheme \<Rightarrow> bool" where
  "included_up_to_failure ctx bs s t \<longleftrightarrow>
     (\<exists>k \<le> length bs. executed_transactions (ss_info t) = executed_transactions (ss_info s) @ map (inner_tx \<circ> bt_signed_tx) (take k bs) \<and>
        (k < length bs \<longrightarrow> (\<forall>res st. transact (evm ctx) (ss_db t) (bt_signed_tx (bs ! k)) = Inr (res, st) \<longrightarrow> \<not> is_success res)))"

lemma included_up_to_failure_none:
  assumes "executed_transactions (ss_info t) = executed_transactions (ss_info s)"
    and "\<And>res st. transact (evm ctx) (ss_db t) (bt_signed_tx (hd bs)) = Inr (res, st) \<Longrightarrow> \<not> is_success res"
  shows "included_up_to_failure ctx bs s t"
  unfolding included_up_to_failure_def using assms by (intro exI [of _ 0]) (auto simp: hd_conv_nth)

lemma included_up_to_failure_Cons:
  assumes "included_up_to_failure ctx bs s' t"
    and "executed_transactions (ss_info s') = executed_transactions (ss_info s) @ [inner_tx (bt_signed_tx b)]"
  shows "included_up_to_failure ctx (b # bs) s t"
proof -
  obtain k where "k \<le> length bs" "executed_transactions (ss_info t) = executed_transactions (ss_info s') @ map (inner_tx \<circ> bt_signed_tx) (take k bs)"
      "k < length bs \<longrightarrow> (\<forall>res st. transact (evm ctx) (ss_db t) (bt_signed_tx (bs ! k)) = Inr (res, st) \<longrightarrow> \<not> is_success res)"
    using assms(1) unfolding included_up_to_failure_def by blast
  then show ?thesis unfolding included_up_to_failure_def using assms(2) by (intro exI [of _ "Suc k"]) simp
qed

section \<open>The interface of builder transactions\<close>

locale builder_transactions =
  fixes sim :: "('db, 'st, 'c, 'x) simulate_builder_txs"
    and bops :: "('db, 'st) builder_ops"
    and a :: address
    and ok :: "('db, 'st, 'c) op_ctx \<Rightarrow> bool"
  assumes keeps_record: "snd (sim info ctx db atop) = info"
    and law: "ok ctx \<Longrightarrow> nonce_law (evm ctx) bops"
    and chain: "ok ctx \<Longrightarrow> fst (sim info ctx db atop) = Inr bs \<Longrightarrow> get_nonce bops db a = Inr n \<Longrightarrow>
      chain_from a n (position atop bs)"
begin

lemma pure: "simulation_pure sim"
  by (simp add: simulation_pure_def keeps_record)

lemma blocked_loop:
  assumes "chain_from a n (position atop bs)" "List.member (bs_invalid s) a"
  shows "for_in (builder_step ctx atop) bs s = (Continue, s)"
  using assms by (induction bs arbitrary: n) (auto simp: builder_step_def Let_def split: if_splits)

lemma prefix_loop:
  assumes "ok ctx" "chain_from a n (position atop bs)" "get_nonce bops (ss_db s) a = Inr n" "bs_invalid s = []"
    and "for_in (builder_step ctx atop) bs s = (r, t)"
  shows "included_up_to_failure ctx (position atop bs) s t"
  using assms(2-5)
proof (induction bs arbitrary: n s)
  case Nil
  then show ?case by (auto simp: included_up_to_failure_def)
next
  case (Cons b bs)
  let ?tx = "bt_signed_tx b"
  show ?case
  proof (cases "bt_is_top_of_block b = atop")
    case False
    then have "builder_step ctx atop s b = (Continue, s)" by (simp add: builder_step_def)
    then show ?thesis using Cons False by simp
  next
    case True
    have b: "signer ?tx = a" "tx_nonce (inner_tx ?tx) = n" "tx_ty (inner_tx ?tx) = Eip1559"
      and rest: "chain_from a (n + 1) (position atop bs)"
      using Cons.prems(1) True by auto
    show ?thesis
    proof (cases "transact (evm ctx) (ss_db s) ?tx")
      case (Inl e)
      have "e \<noteq> InvalidTx True msg" for msg
        using law [OF assms(1)] Inl b Cons.prems(2) unfolding nonce_law_def by fastforce
      then have "snd (builder_step ctx atop s b) = s \<and> fst (builder_step ctx atop s b) \<noteq> Continue \<or>
          (\<exists>s'. builder_step ctx atop s b = (Continue, s') \<and> bs_invalid s' = [a] \<and> ss_info s' = ss_info s \<and> ss_db s' = ss_db s)"
        using True Inl b Cons.prems(3) by (cases e) (auto simp: builder_step_def Let_def)
      then consider (stop) v where "builder_step ctx atop s b = (Return v, s)"
        | (block) s' where "builder_step ctx atop s b = (Continue, s')" "bs_invalid s' = [a]" "ss_info s' = ss_info s" "ss_db s' = ss_db s"
        by (metis flow.exhaust prod.collapse)
      then show ?thesis
      proof cases
        case stop
        then show ?thesis using Cons.prems(4) Inl True by (intro included_up_to_failure_none) auto
      next
        case block
        then show ?thesis
          using Cons.prems(4) blocked_loop [OF rest, of s' ctx] Inl True by (intro included_up_to_failure_none) auto
      qed
    next
      case (Inr rs)
      obtain res st where tr: "transact (evm ctx) (ss_db s) ?tx = Inr (res, st)" using Inr by (cases rs) auto
      show ?thesis
      proof (cases "is_success res")
        case False
        then have "builder_step ctx atop s b = (Continue, s \<lparr> bs_invalid := [a] \<rparr>)"
          using True tr b Cons.prems(3) by (simp add: builder_step_def Let_def)
        then show ?thesis
          using Cons.prems(4) blocked_loop [OF rest, of "s \<lparr> bs_invalid := [a] \<rparr>" ctx] tr False True
          by (intro included_up_to_failure_none) auto
      next
        case suc: True
        then obtain s' where s': "builder_step ctx atop s b = (Continue, s')" "bs_invalid s' = []"
            "ss_db s' = commit (evm ctx) (ss_db s) st"
            "executed_transactions (ss_info s') = executed_transactions (ss_info s) @ [inner_tx ?tx]"
          using True tr b Cons.prems(3) by (simp add: builder_step_def Let_def push_executed_def)
        have nonce: "get_nonce bops (ss_db s') a = Inr (n + 1)"
          using law [OF assms(1)] tr b unfolding s'(3) nonce_law_def by fastforce
        have "for_in (builder_step ctx atop) bs s' = (r, t)" using Cons.prems(4) s'(1) by simp
        from Cons.IH [OF rest nonce s'(2) this] show ?thesis
          using included_up_to_failure_Cons [OF _ s'(4)] True by simp
      qed
    qed
  qed
qed

lemma included_prefix:
  assumes "ok ctx" "get_nonce bops (ss_db s) a = Inr n" "add_builder_txs sim ctx atop s = (r, s')"
    and "fst (sim (ss_info s) ctx (ss_db s) atop) = Inr bs"
  shows "chain_from a n (position atop bs) \<and> included_up_to_failure ctx (position atop bs) s s'"
proof -
  let ?s = "\<lparr> ss_info = ss_info s, ss_db = ss_db s, bs_invalid = [] \<rparr>"
  have sim: "sim (ss_info s) ctx (ss_db s) atop = (Inr bs, ss_info s)"
    using assms(4) keeps_record by (metis prod.collapse)
  obtain rl t where loop: "for_in (builder_step ctx atop) bs ?s = (rl, t)" by fastforce
  then have t: "ss_info s' = ss_info t" "ss_db s' = ss_db t"
    using assms(3) sim by (auto simp: add_builder_txs_def split: flow.splits)
  have "included_up_to_failure ctx (position atop bs) ?s t"
    using prefix_loop [OF assms(1) chain [OF assms(1,4,2)] _ _ loop] assms(2) by simp
  then show ?thesis using chain [OF assms(1,4,2)] t by (simp add: included_up_to_failure_def)
qed

end

section \<open>The nonces of the implementations\<close>

lemma sign_tx_chain:
  assumes "signed_fields_law (signing bops)" "sign_tx bops to sn gas calldata ctx db = Inr tx"
    and "get_nonce bops db (sn_address sn) = Inr n"
  shows "signer tx = sn_address sn" "tx_nonce (inner_tx tx) = n" "tx_ty (inner_tx tx) = Eip1559"
proof -
  obtain f where "signer_sign_tx (signing bops) sn (TypedEip1559 f) = Inr tx" "x_nonce f = n"
    using assms(2,3) by (auto simp: sign_tx_def and_then_eq_Inr)
  then show "signer tx = sn_address sn" "tx_nonce (inner_tx tx) = n" "tx_ty (inner_tx tx) = Eip1559"
    using signed_fields [OF assms(1)] by auto
qed

lemma signed_builder_tx_chain:
  assumes "signed_fields_law (signing bops)" "signed_builder_tx bops ctx db sn gas message = Inr tx"
    and "get_nonce bops db (sn_address sn) = Inr n"
  shows "signer tx = sn_address sn" "tx_nonce (inner_tx tx) = n" "tx_ty (inner_tx tx) = Eip1559"
proof -
  obtain f where "signer_sign_tx (signing bops) sn (TypedEip1559 f) = Inr tx" "x_nonce f = n"
    using assms(2,3) by (auto simp: signed_builder_tx_def and_then_eq_Inr)
  then show "signer tx = sn_address sn" "tx_nonce (inner_tx tx) = n" "tx_ty (inner_tx tx) = Eip1559"
    using signed_fields [OF assms(1)] by auto
qed

lemma base_chain:
  assumes "signed_fields_law (signing bops)" "simulate_builder_tx bops base ctx db = Inr btx"
    and "\<forall>sn. base = Some sn \<longrightarrow> sn_address sn = a" "get_nonce bops db a = Inr n"
  shows "chain_from a n (opt_list btx) \<and> position False (opt_list btx) = opt_list btx \<and> position True (opt_list btx) = []"
proof (cases base)
  case None
  then show ?thesis using assms(2) by (auto simp: simulate_builder_tx_def)
next
  case (Some sn)
  obtain gas message tx b where "signed_builder_tx bops ctx db sn gas message = Inr tx" "btx = Some b" "bt_signed_tx b = tx"
      "\<not> bt_is_top_of_block b"
    using assms(2) Some by (auto simp: simulate_builder_tx_def and_then_eq_Inr Let_def)
  then show ?thesis using signed_builder_tx_chain [OF assms(1)] assms(3,4) Some by auto
qed

lemma simulate_call_nonce:
  assumes "nonce_law ops bops" "simulate_call bops cfg dec req topics db = Inr res" "\<not> disable_nonce_check cfg"
  shows "get_nonce bops (commit ops db (sim_state_changes res)) (cr_from req) = Inr (cr_nonce req + 1)"
proof -
  obtain tx_env r where env: "call_tx_env bops req = Inr tx_env"
      "call_transact bops cfg db tx_env = Inr (r, sim_state_changes res)"
    using assms(2) by (auto simp: simulate_call_def Let_def split: sum.splits evm_err.splits exec_result.splits if_splits option.splits)
  then show ?thesis using assms(1,3) unfolding nonce_law_def by metis
qed

lemma registration_chain:
  assumes "signed_fields_law (signing bops)" "nonce_law (evm ctx) bops"
    and "signed_registration_permit_tx bops abi ft ctx db = Inr (b, db')"
    and "get_nonce bops db (sn_address (ft_builder_signer ft)) = Inr n"
  shows "chain_from (sn_address (ft_builder_signer ft)) n [b]" "\<not> bt_is_top_of_block b"
    "get_nonce bops db' (sn_address (ft_builder_signer ft)) = Inr (n + 1)"
proof -
  let ?a = "sn_address (ft_builder_signer ft)"
  obtain calldata res tx where
      call: "flashtestations_call bops abi ft simulation_cfg (decode_unit abi) (ft_registry_address ft) calldata
        [tee_service_registered_topic abi] ctx db = Inr res"
    and tx: "sign_tx bops (ft_registry_address ft) (ft_builder_signer ft) (sim_gas_used res) (ft_abi_encode abi calldata) ctx db = Inr tx"
    and b: "b = flashtestations_tx ctx (sim_gas_used res) tx" "db' = commit (evm ctx) db (sim_state_changes res)"
    using assms(3) by (auto simp: signed_registration_permit_tx_def and_then_eq_Inr Let_def)
  show "chain_from ?a n [b]" "\<not> bt_is_top_of_block b"
    using sign_tx_chain [OF assms(1) tx assms(4)] by (simp_all add: b flashtestations_tx_def)
  from call assms(4) obtain req where "simulate_call bops simulation_cfg (decode_unit abi) req
      [tee_service_registered_topic abi] db = Inr res" "cr_from req = ?a" "cr_nonce req = n"
    by (auto simp: flashtestations_call_def and_then_eq_Inr Let_def)
  then show "get_nonce bops db' ?a = Inr (n + 1)"
    using simulate_call_nonce [OF assms(2)] by (fastforce simp: b simulation_cfg_def)
qed

lemma block_proof_chain:
  assumes "signed_fields_law (signing bops)" "signed_block_proof_permit_tx bops abi ft txs ctx db = Inr b"
    and "get_nonce bops db (sn_address (ft_builder_signer ft)) = Inr n"
  shows "chain_from (sn_address (ft_builder_signer ft)) n [b]" "\<not> bt_is_top_of_block b"
proof -
  obtain to gas calldata tx where tx: "sign_tx bops to (ft_builder_signer ft) gas calldata ctx db = Inr tx"
    and b: "b = flashtestations_tx ctx gas tx"
    using assms(2) by (auto simp: signed_block_proof_permit_tx_def and_then_eq_Inr Let_def)
  show "chain_from (sn_address (ft_builder_signer ft)) n [b]" "\<not> bt_is_top_of_block b"
    using sign_tx_chain [OF assms(1) tx assms(3)] by (simp_all add: b flashtestations_tx_def)
qed

lemma set_registered_keeps:
  "set_registered bops abi ft prov ctx = Inr ft' \<Longrightarrow> ft' = ft \<lparr> ft_registered := ft_registered ft' \<rparr>"
  by (auto simp: set_registered_def and_then_eq_Inr)

lemma ft_chain:
  assumes laws: "signed_fields_law (signing bops)" "nonce_law (evm ctx) bops"
    and run: "ft_simulate_builder_txs bops abi ft prov info ctx db = (Inr bs, ft2)"
    and n: "get_nonce bops db (sn_address (ft_builder_signer ft)) = Inr n"
  shows "chain_from (sn_address (ft_builder_signer ft)) n bs" "position False bs = bs" "position True bs = []"
proof -
  let ?a = "sn_address (ft_builder_signer ft)"
  obtain ft' where ft': "(if \<not> ft_registered ft then set_registered bops abi ft prov ctx else Inr ft) = Inr ft'"
    using run by (auto simp: ft_simulate_builder_txs_def split: sum.split_asm)
  have sgn: "ft_builder_signer ft' = ft_builder_signer ft"
  proof (cases "ft_registered ft")
    case False
    then have "ft' = ft \<lparr> ft_registered := ft_registered ft' \<rparr>" using ft' set_registered_keeps by simp
    from arg_cong [OF this, of ft_builder_signer] show ?thesis by simp
  qed (use ft' in simp)
  obtain regs db' where regs: "(if \<not> ft_registered ft' then map_sum id (map_prod (\<lambda>tx. [tx]) id) (signed_registration_permit_tx bops abi ft' ctx db)
      else Inr ([], db)) = Inr (regs, db')"
    and bs: "bs = (if ft_enable_block_proofs ft'
        then (case signed_block_proof_permit_tx bops abi ft' (executed_transactions info) ctx db' of Inl e \<Rightarrow> regs | Inr b \<Rightarrow> regs @ [b])
        else regs)"
    using run ft' by (simp add: ft_simulate_builder_txs_def) (auto split: sum.split_asm prod.split_asm)
  have reg: "chain_from ?a n regs \<and> position False regs = regs \<and> position True regs = [] \<and>
      get_nonce bops db' ?a = Inr (n + of_nat (length regs))"
  proof (cases "ft_registered ft'")
    case True
    then show ?thesis using regs n by simp
  next
    case False
    then obtain b where b: "signed_registration_permit_tx bops abi ft' ctx db = Inr (b, db')" "regs = [b]"
      using regs by (cases "signed_registration_permit_tx bops abi ft' ctx db") auto
    from registration_chain [OF laws b(1)] show ?thesis using b(2) n sgn by simp
  qed
  have "chain_from ?a n (regs @ [b]) \<and> position False (regs @ [b]) = regs @ [b] \<and> position True (regs @ [b]) = []"
    if "signed_block_proof_permit_tx bops abi ft' (executed_transactions info) ctx db' = Inr b" for b
    using block_proof_chain [OF laws(1) that] reg sgn by (simp add: chain_from_append)
  then have "chain_from ?a n bs \<and> position False bs = bs \<and> position True bs = []"
    unfolding bs using reg by (auto split: sum.split)
  then show "chain_from ?a n bs" "position False bs = bs" "position True bs = []" by simp_all
qed

lemma commit_chain:
  assumes "nonce_law (evm ctx) bops" "chain_from a n bs" "get_nonce bops db a = Inr n"
    and "commit_txs ctx (map bt_signed_tx bs) db = (Inr u, db')"
  shows "get_nonce bops db' a = Inr (n + of_nat (length bs))"
  using assms(2-4)
proof (induction bs arbitrary: n db)
  case Nil
  then show ?case by (simp add: commit_txs_def)
next
  case (Cons b bs)
  obtain r st where tr: "transact (evm ctx) db (bt_signed_tx b) = Inr (r, st)"
    and rest: "commit_txs ctx (map bt_signed_tx bs) (commit (evm ctx) db st) = (Inr u, db')"
    using Cons.prems(3) by (auto simp: commit_txs_def commit_step_def split: sum.split_asm prod.split_asm)
  have "get_nonce bops (commit (evm ctx) db st) a = Inr (n + 1)"
    using assms(1) tr Cons.prems(1) unfolding nonce_law_def by fastforce
  from Cons.IH [OF _ this rest] Cons.prems(1) show ?case by (simp add: add.assoc)
qed

text \<open>The attestation's transactions continue the chain of those that come before them.\<close>

lemma add_flashtestations_chain:
  assumes laws: "signed_fields_law (signing bops)" "nonce_law (evm ctx) bops"
    and run: "fst (add_flashtestations bops abi prov info ctx db ft (map bt_signed_tx inc) bs) = Inr cs"
    and inc: "chain_from a n inc" "get_nonce bops db a = Inr n"
    and ft: "\<forall>f. ft = Some f \<longrightarrow> sn_address (ft_builder_signer f) = a"
  obtains more where "cs = bs @ more" "chain_from a (n + of_nat (length inc)) more" "position False more = more" "position True more = []"
proof (cases ft)
  case None
  then show ?thesis using run by (intro that [of "[]"]) (simp_all add: add_flashtestations_def)
next
  case (Some f)
  obtain u db' where c: "commit_txs ctx (map bt_signed_tx inc) db = (Inr u, db')"
    using run Some by (auto simp: add_flashtestations_def split: prod.split_asm sum.split_asm)
  have n: "get_nonce bops db' a = Inr (n + of_nat (length inc))" by (rule commit_chain [OF laws(2) inc c])
  obtain r f' where s: "ft_simulate_builder_txs bops abi f prov info ctx db' = (r, f')" by fastforce
  show ?thesis
  proof (cases r)
    case (Inl e)
    then show ?thesis using run Some c s by (intro that [of "[]"]) (simp_all add: add_flashtestations_def)
  next
    case (Inr more)
    then have "cs = bs @ more" using run Some c s by (simp add: add_flashtestations_def)
    moreover note ft_chain [OF laws, of abi f prov info db' more f' "n + of_nat (length inc)"]
    ultimately show ?thesis using s Inr n ft Some by (intro that [of more]) simp_all
  qed
qed

section \<open>The implementations provide the interface\<close>

text \<open>The laws, and that all transactions are signed for one account.\<close>

definition builder_ok ::
  "('db, 'st) builder_ops \<Rightarrow> address \<Rightarrow> signer option \<Rightarrow> ft_builder_tx option \<Rightarrow> ('db, 'st, 'c) op_ctx \<Rightarrow> bool" where
  "builder_ok bops a base ft ctx \<longleftrightarrow>
     signed_fields_law (signing bops) \<and> nonce_law (evm ctx) bops \<and>
     (\<forall>sn. base = Some sn \<longrightarrow> sn_address sn = a) \<and> (\<forall>f. ft = Some f \<longrightarrow> sn_address (ft_builder_signer f) = a)"

lemma builder_okD:
  assumes "builder_ok bops a base ft ctx"
  shows "signed_fields_law (signing bops)" "nonce_law (evm ctx) bops" "\<forall>sn. base = Some sn \<longrightarrow> sn_address sn = a"
    "\<forall>f. ft = Some f \<longrightarrow> sn_address (ft_builder_signer f) = a"
  using assms by (auto simp: builder_ok_def)

lemma standard_chain:
  assumes ok: "builder_ok bops a (sb_base_signer sb) (sb_flashtestations sb) ctx"
    and run: "fst (standard_sim bops abi sb prov info ctx db atop) = Inr bs" and n: "get_nonce bops db a = Inr n"
  shows "chain_from a n (position atop bs)"
proof -
  note laws = builder_okD [OF ok]
  obtain base where base: "simulate_builder_tx bops (sb_base_signer sb) ctx db = Inr base"
    and add: "fst (add_flashtestations bops abi prov info ctx db (sb_flashtestations sb) (map bt_signed_tx (opt_list base)) (opt_list base))
      = Inr bs"
    using run by (auto simp: standard_sim_def standard_simulate_builder_txs_def split: sum.split_asm)
  note c = base_chain [OF laws(1) base laws(3) n]
  show ?thesis
    by (rule add_flashtestations_chain [OF laws(1,2) add _ n laws(4)]) (use c in \<open>cases atop; simp add: chain_from_append\<close>)+
qed

interpretation standard_txs: builder_transactions "standard_sim bops abi sb prov" bops a
  "builder_ok bops a (sb_base_signer sb) (sb_flashtestations sb)" for bops abi sb prov a
  by unfold_locales (auto simp: standard_sim_def builder_ok_def intro: standard_chain)

lemma flashblocks_chain:
  assumes ok: "builder_ok bops a (fbt_base_signer fbt) (fbt_flashtestations fbt) ctx"
    and one: "\<not> (is_first_flashblock ctx \<and> is_last_flashblock ctx)"
    and run: "fst (flashblocks_sim bops abi fbt prov info ctx db atop) = Inr bs" and n: "get_nonce bops db a = Inr n"
  shows "chain_from a n (position atop bs)"
proof (cases "is_last_flashblock ctx")
  case True
  note laws = builder_okD [OF ok]
  obtain base where base: "simulate_builder_tx bops (fbt_base_signer fbt) ctx db = Inr base"
    and add: "fst (add_flashtestations bops abi prov info ctx db (fbt_flashtestations fbt) (map bt_signed_tx (opt_list base)) (opt_list base))
      = Inr bs"
    using run True one by (auto simp: flashblocks_sim_def flashblocks_simulate_builder_txs_def split: sum.split_asm)
  note c = base_chain [OF laws(1) base laws(3) n]
  show ?thesis
    by (rule add_flashtestations_chain [OF laws(1,2) add _ n laws(4)]) (use c in \<open>cases atop; simp add: chain_from_append\<close>)+
next
  case False
  note laws = builder_okD [OF ok]
  have "bs = [] \<or> (\<exists>base. simulate_builder_tx bops (fbt_base_signer fbt) ctx db = Inr base \<and> bs = opt_list base)"
    using run False by (auto simp: flashblocks_sim_def flashblocks_simulate_builder_txs_def split: sum.split_asm if_splits)
  then show ?thesis
  proof (elim disjE exE conjE)
    fix base assume base: "simulate_builder_tx bops (fbt_base_signer fbt) ctx db = Inr base" "bs = opt_list base"
    from base_chain [OF laws(1) base(1) laws(3) n] base(2) show ?thesis by (cases atop) simp_all
  qed simp
qed

interpretation flashblocks_txs: builder_transactions "flashblocks_sim bops abi fbt prov" bops a
  "\<lambda>ctx. builder_ok bops a (fbt_base_signer fbt) (fbt_flashtestations fbt) ctx \<and> \<not> (is_first_flashblock ctx \<and> is_last_flashblock ctx)"
  for bops abi fbt prov a
  by unfold_locales (auto simp: flashblocks_sim_def builder_ok_def intro: flashblocks_chain)

lemma increment_chain:
  assumes "signed_fields_law (signing bops)" "increment_flashblocks_tx bops abi fn calldata ctx db = Inr b"
    and "get_nonce bops db (sn_address (fn_signer fn)) = Inr n"
  shows "chain_from (sn_address (fn_signer fn)) n [b] \<and> bt_is_top_of_block b"
proof -
  obtain to gas tx where tx: "sign_tx bops to (fn_signer fn) gas (fn_abi_encode abi calldata) ctx db = Inr tx"
    and b: "bt_signed_tx b = tx" "bt_is_top_of_block b"
    using assms(2) by (auto simp: increment_flashblocks_tx_def and_then_eq_Inr)
  show ?thesis using sign_tx_chain [OF assms(1) tx assms(3)] b by simp
qed

text \<open>The transaction of the contract, or its replacement: one transaction, at the top except in the fallback block.\<close>

lemma number_txs_chain:
  assumes "signed_fields_law (signing bops)" "flashblocks_number_txs bops abi fn ctx db = Inr btx"
    and n: "get_nonce bops db (sn_address (fn_signer fn)) = Inr n"
  shows "chain_from (sn_address (fn_signer fn)) n (opt_list btx)"
    "position (\<not> is_first_flashblock ctx) (opt_list btx) = opt_list btx" "position (is_first_flashblock ctx) (opt_list btx) = []"
proof -
  let ?a = "sn_address (fn_signer fn)"
  have base: "chain_from ?a n (opt_list b) \<and> position False (opt_list b) = opt_list b \<and> position True (opt_list b) = []"
    if "simulate_builder_tx bops (Some (fn_signer fn)) ctx db = Inr b" for b
    using base_chain [OF assms(1) that _ n] by simp
  consider (first) "is_first_flashblock ctx" "simulate_builder_tx bops (Some (fn_signer fn)) ctx db = Inr btx"
    | (tx) calldata b where "\<not> is_first_flashblock ctx" "increment_flashblocks_tx bops abi fn calldata ctx db = Inr b" "btx = Some b"
    | (replaced) b where "\<not> is_first_flashblock ctx" "simulate_builder_tx bops (Some (fn_signer fn)) ctx db = Inr b"
        "btx = map_option set_top_of_block b"
    using assms(2)
    by (auto simp: flashblocks_number_txs_def signed_increment_flashblocks_tx_def signed_increment_flashblocks_permit_tx_def
        and_then_eq_Inr map_sum_eq_Inr split: if_splits sum.split_asm option.split_asm)
  then have "chain_from ?a n (opt_list btx) \<and> position (\<not> is_first_flashblock ctx) (opt_list btx) = opt_list btx \<and>
      position (is_first_flashblock ctx) (opt_list btx) = []"
  proof cases
    case first
    then show ?thesis using base by simp
  next
    case tx
    then show ?thesis using increment_chain [OF assms(1) _ n] by fastforce
  next
    case replaced
    then show ?thesis using base [of b] by (cases b) (auto simp: set_top_of_block_def)
  qed
  then show "chain_from ?a n (opt_list btx)" "position (\<not> is_first_flashblock ctx) (opt_list btx) = opt_list btx"
    "position (is_first_flashblock ctx) (opt_list btx) = []" by simp_all
qed

lemma number_chain:
  assumes ok: "builder_ok bops (sn_address (fn_signer fn)) None (fn_flashtestations fn) ctx"
    and run: "fst (number_sim bops abi nabi fn prov info ctx db atop) = Inr bs"
    and n: "get_nonce bops db (sn_address (fn_signer fn)) = Inr n"
  shows "chain_from (sn_address (fn_signer fn)) n (position atop bs)"
proof -
  note laws = builder_okD [OF ok]
  obtain btx where btx: "flashblocks_number_txs bops nabi fn ctx db = Inr btx"
    and rest: "(if is_last_flashblock ctx
      then fst (add_flashtestations bops abi prov info ctx db (fn_flashtestations fn) (map bt_signed_tx (position atop (opt_list btx))) (opt_list btx))
      else Inr (opt_list btx)) = Inr bs"
    using run by (auto simp: number_sim_def number_simulate_builder_txs_def position_def split: sum.split_asm if_splits)
  note c = number_txs_chain [OF laws(1) btx n]
  have pos: "chain_from (sn_address (fn_signer fn)) n (position atop (opt_list btx))"
    using c by (cases "atop = is_first_flashblock ctx") auto
  show ?thesis
  proof (cases "is_last_flashblock ctx")
    case True
    show ?thesis
      by (rule add_flashtestations_chain [OF laws(1,2) _ pos n laws(4)])
        (use rest True pos in \<open>cases atop; simp add: chain_from_append\<close>)+
  qed (use rest pos in simp)
qed

interpretation number_txs: builder_transactions "number_sim bops abi nabi fn prov" bops "sn_address (fn_signer fn)"
  "builder_ok bops (sn_address (fn_signer fn)) None (fn_flashtestations fn)" for bops abi nabi fn prov
  by unfold_locales (auto simp: number_sim_def builder_ok_def intro: number_chain)

section \<open>The registration flag within a build\<close>

text \<open>A second simulation in the same build, with the flag the first one left, has the outcome it would have had with the
  flag of the start.\<close>

lemma contract_read_cong:
  "block_gas_limit ctx' = block_gas_limit ctx \<Longrightarrow> base_fee ctx' = base_fee ctx \<Longrightarrow>
   flashtestations_contract_read bops abi ft cfg dec addr call ctx' db = flashtestations_contract_read bops abi ft cfg dec addr call ctx db"
  by (simp add: flashtestations_contract_read_def flashtestations_call_def)

lemma set_registered_again:
  assumes "set_registered bops abi ft prov ctx = Inr ft'" "block_gas_limit ctx' = block_gas_limit ctx" "base_fee ctx' = base_fee ctx"
  shows "set_registered bops abi ft prov ctx' = Inr ft'"
  using assms(1) unfolding set_registered_def contract_read_cong [OF assms(2,3)] .

lemma ft_flag_cached:
  assumes run: "ft_simulate_builder_txs bops abi ft prov info ctx db = (r, ft')"
    and same: "block_gas_limit ctx' = block_gas_limit ctx" "base_fee ctx' = base_fee ctx"
  shows "ft_simulate_builder_txs bops abi ft' prov info' ctx' db' = ft_simulate_builder_txs bops abi ft prov info' ctx' db'"
proof (cases "ft_registered ft")
  case True
  then have "ft' = ft" using run by (auto simp: ft_simulate_builder_txs_def split: sum.split_asm if_splits)
  then show ?thesis by simp
next
  case False
  show ?thesis
  proof (cases "set_registered bops abi ft prov ctx")
    case (Inl e)
    then show ?thesis using run False by (simp add: ft_simulate_builder_txs_def)
  next
    case (Inr ft1)
    have ft1: "ft' = ft1"
      using run False Inr by (auto simp: ft_simulate_builder_txs_def split: sum.split_asm if_splits)
    have again: "set_registered bops abi ft prov ctx' = Inr ft1" by (rule set_registered_again [OF Inr same])
    show ?thesis
    proof (cases "ft_registered ft1")
      case reg: True
      then show ?thesis using False again ft1 by (simp add: ft_simulate_builder_txs_def)
    next
      case unreg: False
      then have "ft1 = ft" using set_registered_keeps [OF Inr] False by (cases ft) simp
      then show ?thesis using ft1 by simp
    qed
  qed
qed

section \<open>Properties\<close>

text \<open>C24: With the flashblock number contract, the builder transactions of one simulation that are meant for a position of the
  flashblock carry consecutive nonces from that of the builder's account, the attestation's included, and adding them to the
  block includes them in order up to the first that does not succeed.\<close>

theorem number_txs_included_in_order:
  assumes "builder_ok bops (sn_address (fn_signer fn)) None (fn_flashtestations fn) ctx"
    and "get_nonce bops (ss_db s) (sn_address (fn_signer fn)) = Inr n"
    and "fst (number_sim bops abi nabi fn prov (ss_info s) ctx (ss_db s) atop) = Inr bs"
    and "add_builder_txs (number_sim bops abi nabi fn prov) ctx atop s = (r, s')"
  shows "chain_from (sn_address (fn_signer fn)) n (position atop bs) \<and> included_up_to_failure ctx (position atop bs) s s'"
  by (rule number_txs.included_prefix [OF assms(1,2,4,3)])

definition nonce_ops :: "(nat, nat) evm_ops" where
  "nonce_ops = demo_ops \<lparr> transact := (\<lambda>db tx.
     if tx_nonce (inner_tx tx) = of_nat db then Inr (Success 21000 [] [], db + 1)
     else Inl (InvalidTx (tx_nonce (inner_tx tx) < of_nat db) ''nonce'')) \<rparr>"

definition demo_ft_abi :: ft_abi where
  "demo_ft_abi = \<lparr> ft_abi_encode = (\<lambda>c. [2]), decode_registration_valid = (\<lambda>b. Some False), decode_uint256 = (\<lambda>b. Some 0),
     decode_bytes32 = (\<lambda>b. Some 1), decode_unit = (\<lambda>b. Some ()), signature_as_bytes = (\<lambda>s. []),
     abi_encode_block_data = (\<lambda>p n t hs. [3]), tee_service_registered_topic = 1, block_builder_proof_verified_topic = 1 \<rparr>"

definition demo_fn_abi :: fn_abi where
  "demo_fn_abi = \<lparr> fn_abi_encode = (\<lambda>c. [4]), fn_decode_uint256 = (\<lambda>b. Some 0), fn_decode_bytes32 = (\<lambda>b. Some 1),
     fn_decode_unit = (\<lambda>b. Some ()), fn_signature_as_bytes = (\<lambda>s. []), flashblock_incremented_topic = 1 \<rparr>"

definition demo_ft :: ft_builder_tx where
  "demo_ft = \<lparr> ft_attestation = [], ft_extra_registration_data = [], ft_tee_service_signer = demo_signer, ft_registry_address = 5,
     ft_builder_policy_address = 6, ft_builder_proof_version = 1, ft_registered = False, ft_enable_block_proofs = True,
     ft_builder_signer = demo_signer \<rparr>"

definition demo_fn :: flashblocks_number_builder_tx where
  "demo_fn = \<lparr> fn_signer = demo_signer, fn_flashblock_number_address = 7, fn_use_permit = False, fn_flashtestations = Some demo_ft \<rparr>"

definition demo_last_ctx :: "(nat, nat) fb_ctx" where
  "demo_last_ctx = (demo_ctx False [] (fb_extra_ctx_default \<lparr> fx_flashblock_index := 2, fx_target_flashblock_count := 2 \<rparr>)) \<lparr> evm := nonce_ops \<rparr>"

lemma demo_nonce_law: "nonce_law nonce_ops demo_bops"
  by (auto simp: nonce_law_def nonce_ops_def demo_ops_def demo_bops_def get_nonce_def split: if_splits)

lemma demo_number_ok: "builder_ok demo_bops (sn_address (fn_signer demo_fn)) None (fn_flashtestations demo_fn) demo_last_ctx"
  using demo_nonce_law demo_signed_fields
  by (simp add: builder_ok_def demo_bops_def demo_last_ctx_def demo_fn_def demo_ft_def)

lemmas number_simps = number_sim_def number_simulate_builder_txs_def flashblocks_number_txs_def signed_increment_flashblocks_tx_def
  increment_flashblocks_tx_def simulate_flashblocks_call_def simulate_call_def add_flashtestations_def commit_txs_def commit_step_def
  ft_simulate_builder_txs_def set_registered_def flashtestations_contract_read_def flashtestations_call_def get_permit_nonce_def
  signed_registration_permit_tx_def registration_permit_signature_def signed_block_proof_permit_tx_def block_proof_permit_signature_def
  sign_tx_def signer_sign_tx_def sign_message_def flashtestations_tx_def get_nonce_def Let_def

theorem number_txs_included_in_order_witness:
  "\<exists>bs r s'. add_builder_txs (number_sim demo_bops demo_ft_abi demo_fn_abi demo_fn 0) demo_last_ctx False
       \<lparr> ss_info = with_capacity \<lparr> last_flashblock_index = 0 \<rparr>, ss_db = 3 \<rparr> = (r, s') \<and>
     length (position False bs) = 2 \<and> chain_from (sn_address demo_signer) 3 (position False bs) \<and>
     included_up_to_failure demo_last_ctx (position False bs)
       \<lparr> ss_info = with_capacity \<lparr> last_flashblock_index = 0 \<rparr>, ss_db = 3 \<rparr> s'"
proof -
  let ?s = "\<lparr> ss_info = with_capacity \<lparr> last_flashblock_index = 0 \<rparr>, ss_db = 3 :: nat \<rparr>"
  let ?sim = "number_sim demo_bops demo_ft_abi demo_fn_abi demo_fn 0"
  obtain bs where bs: "fst (?sim (ss_info ?s) demo_last_ctx (ss_db ?s) False) = Inr bs" "length (position False bs) = 2"
    by (simp add: number_simps demo_last_ctx_def demo_ctx_def demo_fn_def demo_ft_def demo_ft_abi_def demo_fn_abi_def demo_bops_def
        demo_signing_def nonce_ops_def demo_ops_def is_first_flashblock_def is_last_flashblock_def flashblock_index_def
        target_flashblock_count_def fb_extra_ctx_default_def)
  obtain r s' where run: "add_builder_txs ?sim demo_last_ctx False ?s = (r, s')" by fastforce
  have "get_nonce demo_bops (ss_db ?s) (sn_address (fn_signer demo_fn)) = Inr 3" by (simp add: get_nonce_def demo_bops_def)
  from number_txs_included_in_order [OF demo_number_ok this bs(1) run] show ?thesis
    using bs(2) run by (auto simp: demo_fn_def)
qed

end
