(* ===== verification/Standard.thy ===== *)
theory Standard
  imports Builder_Nonces Fb_Samples
begin

text \<open>
  \<^verbatim>\<open>builders/standard/payload.rs\<close>: the builder that makes a block in one go. The sequencer's
  transactions, the builder's top transactions, the pool's and the builder's bottom transactions are executed, and the
  block is sealed. A cache of reads in front of the state is transparent and not represented.
\<close>

section \<open>Model\<close>

record ('db, 'st, 'i) std_builder =
  sd_config :: "unit builder_config"
  sd_evm :: "('db, 'st) evm_ops"
  sd_block_ops :: "'db block_ops"
  sd_chain_spec :: chain_spec
  sd_max_da_tx_size :: "u64 option"
  sd_max_da_block_size :: "u64 option"
  sd_gas_limit_config :: "u64 option"
  sd_builder_signer :: "address option"
  sd_feature_interop :: bool
  sd_builder_tx :: "('db, 'st, unit, unit) simulate_builder_txs"
  sd_pool :: "'i payload_txs"
  sd_next_evm_env :: "parent_header \<Rightarrow> next_block_env_attrs \<Rightarrow> string + block_env"
  sd_state_by_block_hash :: "b256 \<Rightarrow> string + 'db"
  sd_pre_execution :: "parent_header \<Rightarrow> next_block_env_attrs \<Rightarrow> 'db \<Rightarrow> string + 'db"

datatype 'p build_outcome = Better 'p | Freeze 'p | BuildAborted u256 | BuildCancelled

text \<open>The limits of the pool: those of the block, less what all the builder's transactions need.\<close>

definition std_limits :: "('db, 'st, unit) op_ctx \<Rightarrow> u64 option \<Rightarrow> u16 option \<Rightarrow> builder_tx_ctx list \<Rightarrow> exec_limits" where
  "std_limits ctx max_da_block_size scalar builder_txs =
     (let builder_tx_gas = fold (\<lambda>tx acc. acc + bt_gas_used tx) builder_txs 0;
          builder_tx_da_size = fold (\<lambda>tx acc. acc + bt_da_size tx) builder_txs 0 in
      \<lparr> lim_gas = saturating_sub (block_gas_limit ctx) builder_tx_gas,
        lim_da = map_option (\<lambda>da_limit. saturating_sub da_limit builder_tx_da_size) max_da_block_size,
        lim_da_footprint =
          map_option (\<lambda>sc. saturating_sub (block_gas_limit ctx) (saturating_mul builder_tx_da_size (ucast sc))) scalar \<rparr>)"

text \<open>The state of an execution: the record and database, and the rate limiter.\<close>

type_synonym 'db std_state = "('db, unit) seq_state \<times> address_gas_limiter"

text \<open>The pool's transactions, unless the attributes exclude them. The flag says that the build was cancelled.\<close>

definition std_execute_pool ::
  "('db, 'st, 'i) std_builder \<Rightarrow> ('db, 'st, unit) op_ctx \<Rightarrow> 'i \<Rightarrow> exec_limits \<Rightarrow> 'db std_state
   \<Rightarrow> ((payload_error + bool) \<times> 'db std_state) option" where
  "std_execute_pool b ctx best_txs lims st =
     (let (s, limiter) = st in
      if at_no_tx_pool (attributes ctx) then Some (Inr False, st)
      else
        map_option (\<lambda>(r, es). (map_sum id (\<lambda>c. c \<noteq> None) r, \<lparr> ss_info = es_info es, ss_db = es_db es \<rparr>, es_limiter es))
          (execute_best_transactions ctx (sd_pool b) lims
             \<lparr> es_info = ss_info s, es_db = ss_db s, es_iter = best_txs, es_limiter = limiter,
               es_cancel_polls = 0, es_counters = zero_counters \<rparr>))"

text \<open>Executing the block. Failures to add builder transactions are only logged.\<close>

definition std_execute ::
  "('db, 'st, 'i) std_builder \<Rightarrow> ('db, 'st, unit) op_ctx \<Rightarrow> 'i \<Rightarrow> address_gas_limiter \<Rightarrow> 'db
   \<Rightarrow> ((payload_error + ('db, unit) seq_state build_outcome) \<times> address_gas_limiter) option" where
  "std_execute b ctx best_txs limiter db =
     (case map_err OtherError (and_then (next_block_env (spec ctx) (attributes ctx) (parent ctx))
             (\<lambda>a. sd_pre_execution b (parent ctx) a db)) of
        Inl e \<Rightarrow> Some (Inl e, limiter)
      | Inr db1 \<Rightarrow>
          (case execute_sequencer_transactions ctx () db1 of
             (Inl e, _) \<Rightarrow> Some (Inl e, limiter)
           | (Inr info, db2) \<Rightarrow>
               let (added, s1) = add_builder_txs (sd_builder_tx b) ctx True \<lparr> ss_info = info, ss_db = db2 \<rparr>;
                   builder_txs = (case added of Inl e \<Rightarrow> [] | Inr txs \<Rightarrow> txs);
                   lims = std_limits ctx (sd_max_da_block_size b) (da_footprint_scalar (ss_info s1)) builder_txs in
               (case std_execute_pool b ctx best_txs lims (s1, limiter) of
                  None \<Rightarrow> None
                | Some (Inl e, (_, limiter')) \<Rightarrow> Some (Inl e, limiter')
                | Some (Inr cancelled, (s2, limiter')) \<Rightarrow>
                    if cancelled then Some (Inr BuildCancelled, limiter')
                    else
                      let s3 = snd (add_builder_txs (sd_builder_tx b) ctx False s2) in
                      Some (Inr (Better (s3 \<lparr> ss_db := merge_transitions (sd_block_ops b) (ss_db s3) \<rparr>)), limiter'))))"

text \<open>Sealing the block of an executed state. A root or bloom that is not available is a panic here.\<close>

definition std_roots ::
  "'db block_ops \<Rightarrow> ('db, 'st, 'c) op_ctx \<Rightarrow> 'x execution_info \<Rightarrow> 'db
   \<Rightarrow> payload_error + b256 \<times> b256 list \<times> b256 \<times> b256 option \<times> b256 option" where
  "std_roots blk ctx info db =
     and_then (ok_or (Panic ''Number is in range'') (receipts_root_of blk db (receipts info) (block_number ctx))) (\<lambda>receipts_root.
     and_then (ok_or (Panic ''Number is in range'') (logs_bloom_of blk db (receipts info) (block_number ctx))) (\<lambda>logs_bloom.
     and_then (map_err OtherError (state_root_with_updates blk db)) (\<lambda>state_root.
     and_then (if is_isthmus_active ctx
               then map_sum OtherError (\<lambda>r. (Some r, Some (empty_requests_hash blk))) (isthmus_withdrawals_root blk db)
               else if is_canyon_active ctx then Inr (Some (empty_withdrawals blk), None)
               else Inr (None, None)) (\<lambda>(withdrawals_root, requests_hash).
     Inr (receipts_root, logs_bloom, state_root, withdrawals_root, requests_hash)))))"

text \<open>The header, with the blob fields that were determined before the roots. The state root is never left out.\<close>

definition std_header ::
  "'db block_ops \<Rightarrow> ('db, 'st, 'c) op_ctx \<Rightarrow> 'x execution_info \<Rightarrow> u64 option \<times> u64 option
   \<Rightarrow> b256 \<times> b256 list \<times> b256 \<times> b256 option \<times> b256 option \<Rightarrow> payload_error + header" where
  "std_header blk ctx info blobs roots =
     (let (excess_blob_gas, blob_gas_used) = blobs;
          (receipts_root, logs_bloom, state_root, withdrawals_root, requests_hash) = roots;
          transactions_root = calculate_transaction_root blk (executed_transactions info) in
      map_sum id (\<lambda>ed.
        \<lparr> hd_parent_hash = ph_hash (parent ctx),
          hd_beneficiary = be_beneficiary (env ctx),
          hd_state_root = state_root,
          hd_transactions_root = transactions_root,
          hd_receipts_root = receipts_root,
          hd_withdrawals_root = withdrawals_root,
          hd_logs_bloom = logs_bloom,
          hd_timestamp = at_timestamp (attributes ctx),
          hd_mix_hash = at_prev_randao (attributes ctx),
          hd_base_fee_per_gas = Some (base_fee ctx),
          hd_number = ph_number (parent ctx) + 1,
          hd_gas_limit = block_gas_limit ctx,
          hd_gas_used = cumulative_gas_used info,
          hd_extra_data = ed,
          hd_parent_beacon_block_root = at_parent_beacon_root (attributes ctx),
          hd_blob_gas_used = blob_gas_used,
          hd_excess_blob_gas = excess_blob_gas,
          hd_requests_hash = requests_hash \<rparr>) (extra_data ctx))"

definition std_sealed_block :: "'db block_ops \<Rightarrow> ('db, 'st, 'c) op_ctx \<Rightarrow> 'x execution_info \<Rightarrow> header \<Rightarrow> sealed_block" where
  "std_sealed_block blk ctx info h =
     \<lparr> sb_hash = hash_slow blk h,
       sb_header = h,
       sb_transactions = executed_transactions info,
       sb_withdrawals = withdrawals ctx \<rparr>"

definition std_seal ::
  "'db block_ops \<Rightarrow> ('db, 'st, 'c) op_ctx \<Rightarrow> ('db, 'x) seq_state \<Rightarrow> payload_error + built_payload" where
  "std_seal blk ctx s =
     (let info = ss_info s in
      and_then (blob_fields ctx info) (\<lambda>blobs.
      and_then (std_roots blk ctx info (ss_db s)) (\<lambda>roots.
      and_then (std_header blk ctx info blobs roots) (\<lambda>header.
      let sealed = std_sealed_block blk ctx info header in Inr
        \<lparr> bp_id = at_payload_id (attributes ctx), bp_block = sealed, bp_fees = total_fees info,
          bp_senders = executed_senders info, bp_receipts = receipts info \<rparr>))))"

text \<open>A payload without pool transactions is final and frozen.\<close>

definition std_build ::
  "('db, 'st, 'i) std_builder \<Rightarrow> ('db, 'st, unit) op_ctx \<Rightarrow> 'i \<Rightarrow> address_gas_limiter \<Rightarrow> 'db
   \<Rightarrow> ((payload_error + built_payload build_outcome) \<times> address_gas_limiter) option" where
  "std_build b ctx best_txs limiter db =
     map_option (\<lambda>(r, limiter').
       (and_then r (\<lambda>outcome.
          case outcome of
            BuildCancelled \<Rightarrow> Inr BuildCancelled
          | BuildAborted fees \<Rightarrow> Inr (BuildAborted fees)
          | Better s \<Rightarrow> map_sum id (if at_no_tx_pool (attributes ctx) then Freeze else Better) (std_seal (sd_block_ops b) ctx s)
          | Freeze s \<Rightarrow> map_sum id (if at_no_tx_pool (attributes ctx) then Freeze else Better) (std_seal (sd_block_ops b) ctx s)),
        limiter'))
     (std_execute b ctx best_txs limiter db)"

definition std_ctx ::
  "('db, 'st, 'i) std_builder \<Rightarrow> payload_attrs \<Rightarrow> parent_header \<Rightarrow> (nat \<Rightarrow> bool) \<Rightarrow> payload_error + ('db, 'st, unit) op_ctx" where
  "std_ctx b attrs par cancelled =
     map_err OtherError (
       and_then (next_block_env (sd_chain_spec b) attrs par) (\<lambda>block_env_attributes.
       and_then (sd_next_evm_env b par block_env_attributes) (\<lambda>evm_env. Inr
         \<lparr> evm = sd_evm b, max_da_tx_size = sd_max_da_tx_size b, gas_limit_config = sd_gas_limit_config b,
           spec = sd_chain_spec b, attributes = attrs, parent = par, env = evm_env, cancel = cancelled,
           builder_signer = sd_builder_signer b, extra_ctx = (),
           max_gas_per_txn = cfg_max_gas_per_txn (sd_config b), feature_interop = sd_feature_interop b \<rparr>)))"

definition std_build_payload ::
  "('db, 'st, 'i) std_builder \<Rightarrow> payload_attrs \<Rightarrow> parent_header \<Rightarrow> (nat \<Rightarrow> bool) \<Rightarrow> 'i \<Rightarrow> address_gas_limiter
   \<Rightarrow> ((payload_error + built_payload build_outcome) \<times> address_gas_limiter) option" where
  "std_build_payload b attrs par cancelled best_txs limiter =
     (case std_ctx b attrs par cancelled of
        Inl e \<Rightarrow> Some (Inl e, limiter)
      | Inr ctx \<Rightarrow>
          let limiter1 = refresh limiter (block_number ctx) in
          (case sd_state_by_block_hash b (ph_hash par) of
             Inl e \<Rightarrow> Some (Inl (OtherError e), limiter1)
           | Inr db \<Rightarrow> std_build b ctx best_txs limiter1 db))"

text \<open>A build for the node has a fresh cancellation token; an empty payload has an empty pool.\<close>

definition std_try_build ::
  "('db, 'st, 'i) std_builder \<Rightarrow> payload_attrs \<Rightarrow> parent_header \<Rightarrow> 'i \<Rightarrow> address_gas_limiter
   \<Rightarrow> ((payload_error + built_payload build_outcome) \<times> address_gas_limiter) option" where
  "std_try_build b attrs par best_txs limiter = std_build_payload b attrs par (\<lambda>_. False) best_txs limiter"

definition noop_payload_txs :: "unit payload_txs" where
  "noop_payload_txs = \<lparr> pt_next = (\<lambda>i. Some (None, i)), pt_mark_invalid = (\<lambda>i a n. i) \<rparr>"

definition std_build_empty_payload ::
  "('db, 'st, unit) std_builder \<Rightarrow> payload_attrs \<Rightarrow> parent_header \<Rightarrow> address_gas_limiter
   \<Rightarrow> ((payload_error + built_payload) \<times> address_gas_limiter) option" where
  "std_build_empty_payload b attrs par limiter =
     map_option (\<lambda>(r, limiter').
       (and_then r (\<lambda>outcome. case outcome of
          Better p \<Rightarrow> Inr p | Freeze p \<Rightarrow> Inr p | _ \<Rightarrow> Inl (OtherError ''missing payload'')), limiter'))
     (std_build_payload (b \<lparr> sd_pool := noop_payload_txs \<rparr>) attrs par (\<lambda>_. False) () limiter)"

section \<open>The phases of a build\<close>

definition std_start_db :: "('db, 'st, 'i) std_builder \<Rightarrow> payload_attrs \<Rightarrow> parent_header \<Rightarrow> 'db option" where
  "std_start_db b attrs par =
     (case and_then (sd_state_by_block_hash b (ph_hash par)) (\<lambda>db.
             and_then (next_block_env (sd_chain_spec b) attrs par) (\<lambda>a. sd_pre_execution b par a db)) of
        Inl e \<Rightarrow> None
      | Inr db \<Rightarrow> Some db)"

lemma std_ctx_sel:
  "std_ctx b attrs par c = Inr ctx \<Longrightarrow> evm ctx = sd_evm b \<and> spec ctx = sd_chain_spec b \<and> attributes ctx = attrs \<and>
     parent ctx = par \<and> cancel ctx = c"
  by (auto simp: std_ctx_def and_then_eq_Inr)

lemma std_pool_no_tx:
  "at_no_tx_pool (attributes ctx) \<Longrightarrow> std_execute_pool b ctx i lims (s, l) = Some (Inr False, (s, l))"
  by (simp add: std_execute_pool_def)

lemma std_pool_run:
  assumes "std_execute_pool b ctx i lims (s, l) = Some (Inr c, (s', l'))"
  shows "grows ctx s s'" "c \<Longrightarrow> \<exists>n. cancel ctx n"
proof -
  have "grows ctx s s' \<and> (c \<longrightarrow> (\<exists>n. cancel ctx n))"
  proof (cases "at_no_tx_pool (attributes ctx)")
    case True
    then show ?thesis using assms by (simp add: std_execute_pool_def grows_refl)
  next
    case False
    then obtain r es where run: "execute_best_transactions ctx (sd_pool b) lims
        \<lparr> es_info = ss_info s, es_db = ss_db s, es_iter = i, es_limiter = l,
          es_cancel_polls = 0, es_counters = zero_counters \<rparr> = Some (r, es)"
      and s': "s' = \<lparr> ss_info = es_info es, ss_db = es_db es \<rparr>" "map_sum id (\<lambda>c. c \<noteq> None) r = Inr c"
      using assms by (auto simp: std_execute_pool_def)
    have "grows ctx s s'" using best_includes [OF run] s'(1) by (auto intro: growsI)
    moreover have "\<exists>n. cancel ctx n" if c
      using s'(2) that run best_cancelled by (auto simp: map_sum_eq_Inr)
    ultimately show ?thesis by simp
  qed
  then show "grows ctx s s'" "c \<Longrightarrow> \<exists>n. cancel ctx n" by simp_all
qed

text \<open>What a build without error went through.\<close>

lemma std_build_payload_cases:
  assumes run: "std_build_payload b attrs par c i lim = Some (Inr out, lim')"
  obtains (cancelled) "out = BuildCancelled" "\<exists>n. c n" "\<not> at_no_tx_pool attrs"
  | (built) ctx db0 info db s1 s2 lims lim1 p where "std_ctx b attrs par c = Inr ctx" "std_start_db b attrs par = Some db0"
      "execute_sequencer_transactions ctx () db0 = (Inr info, db)"
      "s1 = snd (add_builder_txs (sd_builder_tx b) ctx True \<lparr> ss_info = info, ss_db = db \<rparr>)"
      "std_execute_pool b ctx i lims (s1, lim1) = Some (Inr False, (s2, lim'))"
      "std_seal (sd_block_ops b) ctx ((snd (add_builder_txs (sd_builder_tx b) ctx False s2))
         \<lparr> ss_db := merge_transitions (sd_block_ops b) (ss_db (snd (add_builder_txs (sd_builder_tx b) ctx False s2))) \<rparr>) = Inr p"
      "out = (if at_no_tx_pool attrs then Freeze p else Better p)"
proof -
  obtain ctx db where ctx: "std_ctx b attrs par c = Inr ctx" and db: "sd_state_by_block_hash b (ph_hash par) = Inr db"
    and bld: "std_build b ctx i (refresh lim (block_number ctx)) db = Some (Inr out, lim')"
    using run by (auto simp: std_build_payload_def Let_def split: sum.split_asm)
  note sel = std_ctx_sel [OF ctx]
  define lim1 where "lim1 = refresh lim (block_number ctx)"
  obtain r where ex: "std_execute b ctx i lim1 db = Some (r, lim')"
    and r: "and_then r (\<lambda>outcome.
          case outcome of
            BuildCancelled \<Rightarrow> Inr BuildCancelled
          | BuildAborted fees \<Rightarrow> Inr (BuildAborted fees)
          | Better s \<Rightarrow> map_sum id (if at_no_tx_pool attrs then Freeze else Better) (std_seal (sd_block_ops b) ctx s)
          | Freeze s \<Rightarrow> map_sum id (if at_no_tx_pool attrs then Freeze else Better) (std_seal (sd_block_ops b) ctx s)) = Inr out"
    using bld sel by (auto simp: std_build_def lim1_def)
  obtain oc where oc: "r = Inr oc" using r by (auto simp: and_then_eq_Inr)
  obtain a db0 where pre: "next_block_env (spec ctx) attrs par = Inr a" "sd_pre_execution b par a db = Inr db0"
    using ex oc sel by (auto simp: std_execute_def split: sum.split_asm) (auto simp: and_then_eq_Inr)
  obtain info db2 where seq: "execute_sequencer_transactions ctx () db0 = (Inr info, db2)"
    using ex oc sel pre by (auto simp: std_execute_def split: prod.split_asm sum.split_asm)
  define s1 where "s1 = snd (add_builder_txs (sd_builder_tx b) ctx True \<lparr> ss_info = info, ss_db = db2 \<rparr>)"
  define lims where "lims = std_limits ctx (sd_max_da_block_size b) (da_footprint_scalar (ss_info s1))
      (case fst (add_builder_txs (sd_builder_tx b) ctx True \<lparr> ss_info = info, ss_db = db2 \<rparr>) of Inl e \<Rightarrow> [] | Inr txs \<Rightarrow> txs)"
  obtain cc s2 where pool: "std_execute_pool b ctx i lims (s1, lim1) = Some (Inr cc, (s2, lim'))"
    and oc2: "oc = (if cc then BuildCancelled else
      Better ((snd (add_builder_txs (sd_builder_tx b) ctx False s2))
         \<lparr> ss_db := merge_transitions (sd_block_ops b) (ss_db (snd (add_builder_txs (sd_builder_tx b) ctx False s2))) \<rparr>))"
    using ex oc sel pre seq
    by (auto simp: std_execute_def Let_def case_prod_unfold s1_def lims_def split: option.split_asm sum.split_asm if_splits)
  have start: "std_start_db b attrs par = Some db0" using db pre sel by (simp add: std_start_db_def)
  show ?thesis
  proof (cases cc)
    case True
    then show ?thesis
      using std_pool_run(2) [OF pool] std_pool_no_tx [of ctx b i lims s1 lim1] pool r oc oc2 sel by (intro cancelled) auto
  next
    case False
    then have pool': "std_execute_pool b ctx i lims (s1, lim1) = Some (Inr False, (s2, lim'))" using pool by simp
    obtain p where "std_seal (sd_block_ops b) ctx ((snd (add_builder_txs (sd_builder_tx b) ctx False s2))
         \<lparr> ss_db := merge_transitions (sd_block_ops b) (ss_db (snd (add_builder_txs (sd_builder_tx b) ctx False s2))) \<rparr>) = Inr p"
        "out = (if at_no_tx_pool attrs then Freeze p else Better p)"
      using r oc oc2 False by (cases "at_no_tx_pool attrs") (auto simp: map_sum_eq_Inr)
    then show ?thesis by (rule built [OF ctx start seq s1_def pool'])
  qed
qed

lemma std_seal_ok:
  assumes "std_seal blk ctx s = Inr p"
  shows "sb_transactions (bp_block p) = executed_transactions (ss_info s)" "bp_senders p = executed_senders (ss_info s)"
    "bp_receipts p = receipts (ss_info s)" "hd_gas_used (sb_header (bp_block p)) = cumulative_gas_used (ss_info s)"
  using assms
  by (auto simp: std_seal_def std_sealed_block_def std_header_def Let_def and_then_eq_Inr map_sum_eq_Inr split: prod.splits)

lemma std_seal_executable:
  assumes "std_seal blk ctx (s \<lparr> ss_db := db' \<rparr>) = Inr p" "executes ops db0 (ss_info s) (ss_db s)"
  shows "executable_payload ops db0 p"
  using assms(2) std_seal_ok [OF assms(1)] by (simp add: executes_def executable_payload_def) blast

text \<open>The standard builder's transactions are all for the bottom of the block, so adding those of the top does nothing.\<close>

lemma add_nothing:
  assumes "position atop bs = []"
  shows "for_in (builder_step ctx atop) bs s = (Continue, s)"
  using assms by (induction bs) (auto simp: builder_step_def split: if_splits)

lemma standard_bottom:
  assumes ok: "builder_ok bops a (sb_base_signer sb) (sb_flashtestations sb) ctx"
    and run: "fst (standard_sim bops abi sb prov info ctx db atop) = Inr bs" and n: "get_nonce bops db a = Inr n"
  shows "position True bs = []" "position False bs = bs"
proof -
  note laws = builder_okD [OF ok]
  obtain base where base: "simulate_builder_tx bops (sb_base_signer sb) ctx db = Inr base"
    and add: "fst (add_flashtestations bops abi prov info ctx db (sb_flashtestations sb) (map bt_signed_tx (opt_list base)) (opt_list base))
      = Inr bs"
    using run by (auto simp: standard_sim_def standard_simulate_builder_txs_def split: sum.split_asm)
  note c = base_chain [OF laws(1) base laws(3) n]
  obtain more where "bs = opt_list base @ more" "position False more = more" "position True more = []"
    by (rule add_flashtestations_chain [OF laws(1,2) add _ n laws(4)]) (use c in simp_all)
  then show "position True bs = []" "position False bs = bs" using c by simp_all
qed

lemma standard_top_unchanged:
  assumes "builder_ok bops a (sb_base_signer sb) (sb_flashtestations sb) ctx" "get_nonce bops (ss_db s) a = Inr n"
  shows "snd (add_builder_txs (standard_sim bops abi sb prov) ctx True s) = (s :: ('db, 'x) seq_state)"
proof (cases "fst (standard_sim bops abi sb prov (ss_info s) ctx (ss_db s) True)")
  case (Inl e)
  then show ?thesis by (simp add: add_builder_txs_def standard_sim_def)
next
  case (Inr bs)
  have "standard_sim bops abi sb prov (ss_info s) ctx (ss_db s) True = (Inr bs, ss_info s)"
    using Inr standard_txs.keeps_record by (metis prod.collapse)
  then show ?thesis
    by (simp add: add_builder_txs_def add_nothing [OF standard_bottom(1) [OF assms(1) Inr assms(2)]])
qed

section \<open>Properties\<close>

text \<open>C25: A build of the standard builder for the node that ends without error yields a payload, frozen exactly when the pool
  is excluded, and is never cancelled. The payload is the in-order execution of its transactions on the parent's state after
  the pre-execution changes, and it starts with exactly those transactions of the attributes that the EVM accepts, each on the
  state the accepted ones before it leave, in their order: only a transaction the EVM finds invalid is left out.\<close>

theorem std_payload_sound:
  assumes "std_try_build b attrs par i lim = Some (Inr out, lim')" "simulation_pure (sd_builder_tx b)"
  shows "\<exists>p db0 rest. out = (if at_no_tx_pool attrs then Freeze p else Better p) \<and> std_start_db b attrs par = Some db0 \<and>
    executable_payload (sd_evm b) db0 p \<and>
    sb_transactions (bp_block p) = accepted_txs (sd_evm b) db0 (at_transactions attrs) @ rest"
  using assms(1) [unfolded std_try_build_def]
proof (cases rule: std_build_payload_cases)
  case cancelled
  then show ?thesis by simp
next
  case (built ctx db0 info db s1 s2 lims lim1 p)
  let ?s = "\<lparr> ss_info = info, ss_db = db \<rparr>" and ?s3 = "snd (add_builder_txs (sd_builder_tx b) ctx False s2)"
  note sel = std_ctx_sel [OF built(1)]
  have g: "grows ctx ?s ?s3"
    using add_builder_grows [OF assms(2)] std_pool_run(1) [OF built(5)] grows_trans built(4) by metis
  have "executes (evm ctx) db0 (ss_info ?s3) (ss_db ?s3)"
    using grows_executes [OF g] sequencer_executes(1) [OF built(3)] by simp
  then have "executable_payload (sd_evm b) db0 p" using std_seal_executable [OF built(6)] sel by simp
  moreover obtain rest where "sb_transactions (bp_block p) = accepted_txs (sd_evm b) db0 (at_transactions attrs) @ rest"
    using grows_extends [OF g] std_seal_ok(1) [OF built(6)] sequencer_accepted [OF built(3)] sel by (auto simp: extends_def)
  ultimately show ?thesis using built(2,7) by blast
qed

definition demo_sb :: standard_builder_tx where
  "demo_sb = \<lparr> sb_base_signer = Some demo_signer, sb_flashtestations = None \<rparr>"

definition demo_std :: "(nat, nat, pool) std_builder" where
  "demo_std = \<lparr>
     sd_config = builder_config_default () \<lparr> gas_limiter_enabled = False, max_gas_per_address = 0, refill_rate_per_block = 0,
       cleanup_interval = 0 \<rparr>,
     sd_evm = nonce_ops, sd_block_ops = demo_block_ops, sd_chain_spec = demo_spec False, sd_max_da_tx_size = None,
     sd_max_da_block_size = None, sd_gas_limit_config = None, sd_builder_signer = None, sd_feature_interop = False,
     sd_builder_tx = standard_sim demo_bops demo_ft_abi demo_sb 0, sd_pool = snapshot_ops,
     sd_next_evm_env = (\<lambda>par a. Inr \<lparr> be_number = 42, be_gas_limit = nb_gas_limit a, be_basefee = 7,
        be_blob_gasprice = None, be_beneficiary = 0, be_difficulty = 0 \<rparr>),
     sd_state_by_block_hash = (\<lambda>h. Inr 0), sd_pre_execution = (\<lambda>par a db. Inr db) \<rparr>"

definition demo_parent :: parent_header where
  "demo_parent = \<lparr> ph_hash = 5, ph_number = 41, ph_state_root = 6, ph_timestamp = 998, ph_gas_limit = 30000000 \<rparr>"

definition demo_std_attrs :: "bool \<Rightarrow> payload_attrs" where
  "demo_std_attrs no_pool = (demo_attrs [demo_tx 1 0]) \<lparr> at_no_tx_pool := no_pool \<rparr>"

lemmas std_simps = std_try_build_def std_build_payload_def std_ctx_def std_build_def std_execute_def std_execute_pool_def
  std_limits_def std_seal_def std_roots_def std_start_db_def standard_sim_def standard_simulate_builder_txs_def
  add_flashtestations_def simulate_builder_tx_def signed_builder_tx_def get_nonce_def signer_sign_tx_def sign_message_def
  next_block_env_def std_header_def std_sealed_block_def blob_fields_def extra_data_def withdrawals_def block_gas_limit_def
  is_jovian_active_def is_ecotone_active_def is_holocene_active_def is_regolith_active_def is_isthmus_active_def
  is_canyon_active_def execute_sequencer_transactions_def sequencer_step_def depositor_nonce_def add_builder_txs_def
  builder_step_def as_u64_saturated_def saturating_sub_def saturating_mul_def

lemmas demo_std_defs = demo_std_def demo_sb_def demo_parent_def demo_std_attrs_def demo_bops_def demo_signing_def nonce_ops_def
  demo_block_ops_def builder_config_default_def

lemma demo_std_run:
  "\<exists>p lim'. std_try_build demo_std (demo_std_attrs np) demo_parent ([], []) None =
     Some (Inr (if np then Freeze p else Better p), lim') \<and> length (sb_transactions (bp_block p)) = 2"
  by (cases np) (simp_all add: std_simps demo_std_defs exec_simps demo_defs)

theorem std_payload_sound_witness:
  "\<exists>p lim' db0. std_try_build demo_std (demo_std_attrs False) demo_parent ([], []) None = Some (Inr (Better p), lim') \<and>
     std_start_db demo_std (demo_std_attrs False) demo_parent = Some db0 \<and> executable_payload (sd_evm demo_std) db0 p \<and>
     take 1 (sb_transactions (bp_block p)) = accepted_txs (sd_evm demo_std) db0 (at_transactions (demo_std_attrs False))"
proof -
  have no: "\<not> at_no_tx_pool (demo_std_attrs False)" by (simp add: demo_std_attrs_def)
  obtain p lim' where run: "std_try_build demo_std (demo_std_attrs False) demo_parent ([], []) None = Some (Inr (Better p), lim')"
    using demo_std_run [of False] by auto
  have "simulation_pure (sd_builder_tx demo_std)" by (simp add: demo_std_def standard_txs.pure)
  from std_payload_sound [OF run this] obtain db0 rest where res: "std_start_db demo_std (demo_std_attrs False) demo_parent = Some db0"
    "executable_payload (sd_evm demo_std) db0 p"
    "sb_transactions (bp_block p) = accepted_txs (sd_evm demo_std) db0 (at_transactions (demo_std_attrs False)) @ rest" using no by auto
  have "db0 = 0" using res(1) by (simp add: std_simps demo_std_defs demo_defs)
  then have "length (accepted_txs (sd_evm demo_std) db0 (at_transactions (demo_std_attrs False))) = 1"
    by (simp add: demo_std_defs demo_defs)
  then have "take 1 (sb_transactions (bp_block p)) = accepted_txs (sd_evm demo_std) db0 (at_transactions (demo_std_attrs False))"
    unfolding res(3) by (metis append_eq_conv_conj)
  then show ?thesis using run res(1,2) by blast
qed

text \<open>The two builders write roots, header and block out separately; field by field they agree.\<close>

lemma same_roots: "std_roots blk ctx info db = Inr r \<longleftrightarrow> block_roots blk ctx info True db = Inr r"
  by (auto simp: std_roots_def block_roots_def and_then_eq_Inr is_isthmus_active_def is_canyon_active_def map_sum_eq_Inr)

lemma same_header:
  "block_header blk ctx info roots = Inr h \<longleftrightarrow> (\<exists>blobs. blob_fields ctx info = Inr blobs \<and> std_header blk ctx info blobs roots = Inr h)"
  by (auto simp: block_header_def std_header_def Let_def and_then_eq_Inr map_sum_eq_Inr split: prod.split)

lemma same_sealed: "std_sealed_block blk ctx info h = seal_block blk ctx info h"
  by (simp add: std_sealed_block_def seal_block_def)

text \<open>C26: On a common execution record the two builders, which write header and block out separately, seal the same block: where the
  flashblocks builder computes the state root and its additional demands are met (the block number follows the parent's, the
  beacon root is given, the published part lies within the record), it seals a payload exactly when the standard builder does,
  and the same one, with the same hash.\<close>

theorem builders_seal_same_block:
  assumes "block_number ctx = ph_number (parent ctx) + 1" and "at_parent_beacon_root (attributes ctx) \<noteq> None"
    and "last_flashblock_index (extra (ss_info s)) \<le> min (length (executed_transactions (ss_info s))) (length (receipts (ss_info s)))"
  shows "(\<exists>m s'. build_block blk ctx True s = (Inr (p, m), s')) \<longleftrightarrow>
    std_seal blk ctx (s \<lparr> ss_db := merge_transitions blk (ss_db s) \<rparr>) = Inr p"
proof -
  let ?info = "ss_info s" and ?db = "merge_transitions blk (ss_db s)"
  let ?p = "\<lambda>h. \<lparr> bp_id = at_payload_id (attributes ctx), bp_block = seal_block blk ctx ?info h, bp_fees = total_fees ?info,
          bp_senders = executed_senders ?info, bp_receipts = receipts ?info \<rparr>"
  let ?sealed = "\<lambda>p. \<exists>roots h. block_roots blk ctx ?info True ?db = Inr roots \<and> block_header blk ctx ?info roots = Inr h \<and> p = ?p h"
  have blob: "\<exists>x. blob_fields ctx ?info = Inr x" "\<exists>e. extra_data ctx = Inr e" if "block_header blk ctx ?info r = Inr h" for r h
    using that by (auto simp: block_header_def and_then_eq_Inr split: prod.split_asm)
  have "std_seal blk ctx (s \<lparr> ss_db := ?db \<rparr>) = Inr p \<longleftrightarrow> ?sealed p"
    by (auto simp: std_seal_def Let_def and_then_eq_Inr same_roots same_header same_sealed)
  moreover have "(\<exists>m s'. build_block blk ctx True s = (Inr (p, m), s')) \<longleftrightarrow> ?sealed p"
  proof
    assume "\<exists>m s'. build_block blk ctx True s = (Inr (p, m), s')"
    then show "?sealed p"
      by (auto simp: build_block_def Let_def and_then_eq_Inr split: if_splits sum.split_asm)
  next
    assume "?sealed p"
    then obtain r h where rh: "block_roots blk ctx ?info True ?db = Inr r" "block_header blk ctx ?info r = Inr h" "p = ?p h" by blast
    let ?info' = "?info \<lparr> extra := (extra ?info) \<lparr> last_flashblock_index := length (executed_transactions ?info) \<rparr> \<rparr>"
    have b': "blob_fields ctx ?info' = blob_fields ctx ?info" by (simp add: blob_fields_def split: option.split)
    obtain x e root where "blob_fields ctx ?info = Inr x" "extra_data ctx = Inr e" "at_parent_beacon_root (attributes ctx) = Some root"
      using blob [OF rh(2)] assms(2) by blast
    then have "\<exists>m. fb_message blk ctx ?info' (last_flashblock_index (extra ?info)) (seal_block blk ctx ?info h) ?db = Inr m"
      unfolding fb_message_def b' Let_def by (cases x) simp
    then show "\<exists>m s'. build_block blk ctx True s = (Inr (p, m), s')"
      using assms(1,3) rh by (auto simp: build_block_def Let_def)
  qed
  ultimately show ?thesis by simp
qed

theorem builders_seal_same_block_witness:
  "\<exists>p m s'. build_block demo_block_ops (demo_ctx False [] ()) True
      \<lparr> ss_info = with_capacity \<lparr> last_flashblock_index = 0 \<rparr>, ss_db = 4 \<rparr> = (Inr (p, m), s') \<and>
     std_seal demo_block_ops (demo_ctx False [] ()) \<lparr> ss_info = with_capacity \<lparr> last_flashblock_index = 0 \<rparr>, ss_db = 4 \<rparr> = Inr p"
proof -
  let ?s = "\<lparr> ss_info = with_capacity \<lparr> last_flashblock_index = 0 \<rparr>, ss_db = 4 :: nat \<rparr>"
  have conds: "block_number (demo_ctx False [] ()) = ph_number (parent (demo_ctx False [] ())) + 1"
    "at_parent_beacon_root (attributes (demo_ctx False [] ())) \<noteq> None"
    "last_flashblock_index (extra (ss_info ?s)) \<le> min (length (executed_transactions (ss_info ?s))) (length (receipts (ss_info ?s)))"
    by (simp_all add: demo_defs block_number_def as_u64_saturated_def with_capacity_def)
  obtain p m s' where run: "build_block demo_block_ops (demo_ctx False [] ()) True ?s = (Inr (p, m), s')"
    by (simp add: fb_simps demo_defs demo_block_ops_def with_capacity_def block_number_def base_fee_def)
  then show ?thesis
    using builders_seal_same_block [OF conds, of demo_block_ops p] by (auto simp: demo_block_ops_def)
qed

text \<open>When the attributes exclude the pool, the standard builder still adds its own transactions: the frozen block holds the
  sequencer's transactions followed by the builder's, all of them up to the first that does not succeed.\<close>

theorem std_syncing_adds_builder_txs:
  fixes b :: "('db, 'st, 'i) std_builder"
  assumes "at_no_tx_pool attrs" and "std_build_payload b attrs par c i lim = Some (Inr out, lim')"
    and "sd_builder_tx b = standard_sim bops abi sb prov"
    and "std_ctx b attrs par c = Inr ctx" and "builder_ok bops a (sb_base_signer sb) (sb_flashtestations sb) ctx"
    and "std_start_db b attrs par = Some db0" and "execute_sequencer_transactions ctx () db0 = (Inr info, db)"
    and "get_nonce bops db a = Inr n" and "fst (standard_sim bops abi sb prov info ctx db False) = Inr bs"
  shows "\<exists>p (s' :: ('db, unit) seq_state). out = Freeze p \<and> sb_transactions (bp_block p) = executed_transactions (ss_info s') \<and>
    included_up_to_failure ctx bs \<lparr> ss_info = info, ss_db = db \<rparr> s'"
  using assms(2)
proof (cases rule: std_build_payload_cases)
  case cancelled
  then show ?thesis using assms(1) by simp
next
  case (built ctx' db0' info' db' s1 s2 lims lim1 p)
  have eq: "ctx' = ctx" "db0' = db0" using built(1,2) assms(4,6) by simp_all
  then have eq2: "info' = info" "db' = db" using built(3) assms(7) by simp_all
  let ?s = "\<lparr> ss_info = info, ss_db = db \<rparr>"
  have "s1 = ?s"
    using standard_top_unchanged [OF assms(5), of ?s n abi prov] assms(3,8) built(4) eq eq2 by simp
  then have s2: "s2 = ?s" using built(5) std_pool_no_tx [of ctx b i lims] assms(1) std_ctx_sel [OF assms(4)] eq by simp
  obtain r s3 where add: "add_builder_txs (standard_sim bops abi sb prov) ctx False ?s = (r, s3)" by fastforce
  have "included_up_to_failure ctx (position False bs) ?s s3"
    using standard_txs.included_prefix [OF assms(5) _ add] assms(8,9) by simp
  moreover have "position False bs = bs" using standard_bottom(2) [OF assms(5,9,8)] .
  moreover have "sb_transactions (bp_block p) = executed_transactions (ss_info s3)"
    using std_seal_ok(1) [OF built(6)] add assms(3) s2 eq by simp
  ultimately show ?thesis using built(7) assms(1) by auto
qed

lemma demo_std_ok: "builder_ok demo_bops (sn_address demo_signer) (sb_base_signer demo_sb) (sb_flashtestations demo_sb) ctx"
  if "evm ctx = nonce_ops"
  using demo_nonce_law demo_signed_fields that by (simp add: builder_ok_def demo_bops_def demo_sb_def)

lemma demo_std_ctx:
  obtains ctx info where "std_ctx demo_std (demo_std_attrs np) demo_parent c = Inr ctx" "evm ctx = nonce_ops"
    "execute_sequencer_transactions ctx () 0 = (Inr info, 1)"
    "\<exists>bs. fst (standard_sim demo_bops demo_ft_abi demo_sb 0 info ctx 1 False) = Inr bs \<and> length bs = 1"
  by (simp add: std_simps demo_std_defs demo_defs exec_simps)

theorem std_syncing_adds_builder_txs_witness:
  "\<exists>p lim' bs (ctx :: (nat, nat, unit) op_ctx) info (s' :: (nat, unit) seq_state).
     std_build_payload demo_std (demo_std_attrs True) demo_parent (\<lambda>n. False) ([], []) None = Some (Inr (Freeze p), lim') \<and>
     fst (standard_sim demo_bops demo_ft_abi demo_sb 0 info ctx 1 False) = Inr bs \<and> length bs = 1 \<and>
     sb_transactions (bp_block p) = executed_transactions (ss_info s') \<and>
     included_up_to_failure ctx bs \<lparr> ss_info = info, ss_db = 1 \<rparr> s'"
proof -
  have no: "at_no_tx_pool (demo_std_attrs True)" by (simp add: demo_std_attrs_def)
  obtain p lim' where run: "std_build_payload demo_std (demo_std_attrs True) demo_parent (\<lambda>n. False) ([], []) None = Some (Inr (Freeze p), lim')"
    using demo_std_run [of True] by (auto simp: std_try_build_def)
  obtain ctx info bs where ctx: "std_ctx demo_std (demo_std_attrs True) demo_parent (\<lambda>n. False) = Inr ctx" "evm ctx = nonce_ops"
    and seq: "execute_sequencer_transactions ctx () 0 = (Inr info, 1)"
    and bs: "fst (standard_sim demo_bops demo_ft_abi demo_sb 0 info ctx 1 False) = Inr bs" "length bs = 1"
    by (rule demo_std_ctx [of True "\<lambda>n. False"]) blast
  have start: "std_start_db demo_std (demo_std_attrs True) demo_parent = Some 0"
    by (simp add: std_simps demo_std_defs demo_defs)
  have nonce: "get_nonce demo_bops 1 (sn_address demo_signer) = Inr 1" by (simp add: get_nonce_def demo_bops_def)
  have sim: "sd_builder_tx demo_std = standard_sim demo_bops demo_ft_abi demo_sb 0" by (simp add: demo_std_def)
  from std_syncing_adds_builder_txs [OF no run sim ctx(1) demo_std_ok [OF ctx(2)] start seq nonce bs(1)]
  obtain s' :: "(nat, unit) seq_state" where "sb_transactions (bp_block p) = executed_transactions (ss_info s')"
    "included_up_to_failure ctx bs \<lparr> ss_info = info, ss_db = 1 \<rparr> s'" by auto
  then show ?thesis using run bs by blast
qed

end
