(* ===== verification/P2p.thy ===== *)
theory P2p
  imports Prelude "HOL-Library.Multiset"
begin

text \<open>
  The peer-to-peer node (\<^verbatim>\<open>src/crates/p2p/src\<close>): the streams to the peers
  (\<^verbatim>\<open>outgoing.rs\<close>), building and running a node (\<^verbatim>\<open>lib.rs\<close>), the events of peer discovery
  (\<^verbatim>\<open>behaviour.rs\<close>) and reading the streams of the peers. The network library is an argument: what the swarm
  is told to do is recorded as actions, what it answers and reports comes with the events. Streams are opaque;
  writing a line to one either fails, and the stream is gone, or gives the stream back.
\<close>

section \<open>Model: streams to the peers\<close>

type_synonym peer_id = bytes
type_synonym stream_protocol = string

datatype p2p_error = Eyre string | Panicked string

text \<open>The trait of messages. Encoding and decoding are those of a JSON library.\<close>

record 'm message_ops =
  protocol :: "'m \<Rightarrow> stream_protocol"
  to_string :: "'m \<Rightarrow> string + string"
  from_str :: "string \<Rightarrow> string + 'm"

record 's streams_handler =
  peers_to_stream :: "(peer_id \<times> (stream_protocol \<times> 's) list) list"

definition streams_new :: "'s streams_handler" where
  "streams_new = \<lparr> peers_to_stream = [] \<rparr>"

definition has_peer :: "'s streams_handler \<Rightarrow> peer_id \<Rightarrow> bool" where
  "has_peer h peer \<longleftrightarrow> map_of (peers_to_stream h) peer \<noteq> None"

definition insert_peer_and_stream ::
  "'s streams_handler \<Rightarrow> peer_id \<Rightarrow> stream_protocol \<Rightarrow> 's \<Rightarrow> 's streams_handler" where
  "insert_peer_and_stream h peer proto st =
     h \<lparr> peers_to_stream :=
           AList.update peer (AList.update proto st (unwrap_or [] (map_of (peers_to_stream h) peer))) (peers_to_stream h) \<rparr>"

definition remove_peer :: "'s streams_handler \<Rightarrow> peer_id \<Rightarrow> 's streams_handler" where
  "remove_peer h peer = h \<lparr> peers_to_stream := AList.delete peer (peers_to_stream h) \<rparr>"

text \<open>A broadcast first takes the stream of every peer out of the map, one future each. The futures complete in some order;
  a stream that could be written to goes back into the map. The peers written to are recorded.\<close>

record 's broadcast_state =
  bc_handler :: "'s streams_handler"
  bc_futures :: "(peer_id \<times> 's) list"
  bc_written :: "(peer_id \<times> string) list"

definition take_stream ::
  "stream_protocol \<Rightarrow> 's broadcast_state \<Rightarrow> peer_id \<Rightarrow> p2p_error flow \<times> 's broadcast_state" where
  "take_stream proto s peer =
     (case map_of (peers_to_stream (bc_handler s)) peer of
        None \<Rightarrow> (Return (Panicked ''stream map must exist for peer''), s)
      | Some protocol_to_stream \<Rightarrow>
          (case map_of protocol_to_stream proto of
             None \<Rightarrow> (Continue, s)
           | Some st \<Rightarrow>
               (Continue,
                s \<lparr> bc_handler := \<lparr> peers_to_stream = AList.update peer (AList.delete proto protocol_to_stream)
                                     (peers_to_stream (bc_handler s)) \<rparr>,
                    bc_futures := bc_futures s @ [(peer, st)] \<rparr>)))"

definition put_back ::
  "(peer_id \<Rightarrow> 's \<Rightarrow> string \<Rightarrow> string + 's) \<Rightarrow> stream_protocol \<Rightarrow> string \<Rightarrow> 's broadcast_state \<Rightarrow> peer_id \<times> 's
   \<Rightarrow> p2p_error flow \<times> 's broadcast_state" where
  "put_back send proto payload s fut =
     (case fut of (peer, st) \<Rightarrow>
        (case send peer st payload of
           Inl _ \<Rightarrow> (Continue, s)
         | Inr st' \<Rightarrow>
             (case map_of (peers_to_stream (bc_handler s)) peer of
                None \<Rightarrow> (Return (Panicked ''stream map must exist for peer''), s)
              | Some protocol_to_stream \<Rightarrow>
                  (Continue,
                   s \<lparr> bc_handler := \<lparr> peers_to_stream = AList.update peer (AList.update proto st' protocol_to_stream)
                                        (peers_to_stream (bc_handler s)) \<rparr>,
                       bc_written := bc_written s @ [(peer, payload)] \<rparr>))))"

record 's net =
  send_line :: "peer_id \<Rightarrow> 's \<Rightarrow> string \<Rightarrow> string + 's"
  completion :: "(peer_id \<times> 's) list \<Rightarrow> (peer_id \<times> 's) list"

definition broadcast_message ::
  "'m message_ops \<Rightarrow> 's net \<Rightarrow> 'm \<Rightarrow> 's streams_handler
   \<Rightarrow> (p2p_error + unit) \<times> 's streams_handler \<times> (peer_id \<times> string) list" where
  "broadcast_message msg net message h =
     (case to_string msg message of
        Inl _ \<Rightarrow> (Inl (Eyre ''failed to serialize payload''), h, [])
      | Inr payload \<Rightarrow>
          (case for_in (take_stream (protocol msg message)) (map fst (peers_to_stream h))
                  \<lparr> bc_handler = h, bc_futures = [], bc_written = [] \<rparr> of
             (Return e, s) \<Rightarrow> (Inl e, bc_handler s, [])
           | (Continue, s) \<Rightarrow>
               (case for_in (put_back (send_line net) (protocol msg message) payload) (completion net (bc_futures s)) s of
                  (Return e, s') \<Rightarrow> (Inl e, bc_handler s', bc_written s')
                | (Continue, s') \<Rightarrow> (Inr (), bc_handler s', bc_written s'))))"


section \<open>Model: the node\<close>

text \<open>Addresses belong to the network library; what the node reads of them are their components.\<close>

datatype addr_part = P2pPart peer_id | OtherPart string

record 'a multiaddr_ops =
  ma_pop :: "'a \<Rightarrow> addr_part option \<times> 'a"
  ma_iter :: "'a \<Rightarrow> addr_part list"
  ma_with_p2p :: "'a \<Rightarrow> peer_id \<Rightarrow> 'a + 'a"
  ma_unspecified :: "u16 \<Rightarrow> 'a"

record ('a, 's) node =
  nd_peer_id :: peer_id
  nd_listen_addrs :: "'a list"
  nd_known_peers :: "'a list"
  nd_outgoing_streams :: "'s streams_handler"
  nd_incoming_handlers :: "stream_protocol list"
  nd_protocols :: "stream_protocol list"

definition multiaddrs :: "'a multiaddr_ops \<Rightarrow> ('a, 's) node \<Rightarrow> p2p_error + 'a list" where
  "multiaddrs ma node =
     (case for_in (\<lambda>acc addr. case ma_with_p2p ma addr (nd_peer_id node) of
                      Inl _ \<Rightarrow> (Return (Panicked ''can add peer ID to multiaddr''), acc)
                    | Inr addr' \<Rightarrow> (Continue, acc @ [addr']))
             (nd_listen_addrs node) [] of
        (Return e, _) \<Rightarrow> Inl e
      | (Continue, acc) \<Rightarrow> Inr acc)"

text \<open>What the swarm is told to do. Only at the start does it matter whether a dial is accepted.\<close>

datatype 'a swarm_action =
  ListenOn 'a
| AddPeerAddress peer_id 'a
| Dial 'a
| DialPeer peer_id

record ('a, 's) node_state =
  ns_known_peers_info :: "(peer_id \<times> 'a) list"
  ns_streams :: "'s streams_handler"
  ns_actions :: "'a swarm_action list"
  ns_written :: "(peer_id \<times> string) list"
  ns_running :: bool

record 'a swarm_start =
  sw_listen_on :: "'a \<Rightarrow> string + unit"
  sw_dial :: "'a \<Rightarrow> string + unit"

definition start_listen ::
  "'a swarm_start \<Rightarrow> ('a, 's) node_state \<Rightarrow> 'a \<Rightarrow> p2p_error flow \<times> ('a, 's) node_state" where
  "start_listen sw s addr =
     (let s' = s \<lparr> ns_actions := ns_actions s @ [ListenOn addr] \<rparr> in
      case sw_listen_on sw addr of
        Inl _ \<Rightarrow> (Return (Eyre ''swarm failed to listen on multiaddr''), s')
      | Inr _ \<Rightarrow> (Continue, s'))"

definition start_dial ::
  "'a multiaddr_ops \<Rightarrow> 'a swarm_start \<Rightarrow> ('a, 's) node_state \<Rightarrow> 'a \<Rightarrow> p2p_error flow \<times> ('a, 's) node_state" where
  "start_dial ma sw s addr =
     (case ma_pop ma addr of
        (Some (P2pPart peer), addr') \<Rightarrow>
          (let s' = s \<lparr> ns_actions := ns_actions s @ [AddPeerAddress peer addr', Dial addr'] \<rparr> in
           case sw_dial sw addr' of
             Inl _ \<Rightarrow> (Return (Eyre ''swarm failed to dial known peer''), s')
           | Inr _ \<Rightarrow> (Continue, s' \<lparr> ns_known_peers_info := ns_known_peers_info s' @ [(peer, addr')] \<rparr>))
      | _ \<Rightarrow> (Return (Eyre ''no peer ID for known peer''), s))"

definition node_start ::
  "'a multiaddr_ops \<Rightarrow> 'a swarm_start \<Rightarrow> ('a, 's) node \<Rightarrow> (p2p_error + unit) \<times> ('a, 's) node_state" where
  "node_start ma sw node =
     (let s0 = \<lparr> ns_known_peers_info = [], ns_streams = nd_outgoing_streams node, ns_actions = [], ns_written = [],
                 ns_running = False \<rparr> in
      case for_in (start_listen sw) (nd_listen_addrs node) s0 of
        (Return e, s) \<Rightarrow> (Inl e, s)
      | (Continue, s) \<Rightarrow>
          (case for_in (start_dial ma sw) (nd_known_peers node) s of
             (Return e, s') \<Rightarrow> (Inl e, s')
           | (Continue, s') \<Rightarrow> (Inr (), s' \<lparr> ns_running := True \<rparr>)))"

text \<open>The events of the loop. A tick of the retry timer and a discovery come with the peers that are connected at
  that moment; a new connection with the outcome of opening streams on it.\<close>

datatype ('a, 's, 'm) node_event =
  Cancelled
| RetryTick "peer_id list"
| Outgoing 'm
| ConnectionEstablished peer_id "stream_protocol \<Rightarrow> string + 's"
| ConnectionClosed peer_id
| MdnsDiscovered "peer_id list" "(peer_id \<times> 'a) list"
| OtherSwarmEvent

definition retry_dials :: "peer_id list \<Rightarrow> (peer_id \<times> 'a) list \<Rightarrow> 'a swarm_action list" where
  "retry_dials connected known =
     concat (map (\<lambda>(peer, addr). if List.member connected peer then [] else [AddPeerAddress peer addr, Dial addr]) known)"

definition handle_discovered :: "peer_id list \<Rightarrow> (peer_id \<times> 'a) list \<Rightarrow> 'a swarm_action list" where
  "handle_discovered connected discovered =
     concat (map (\<lambda>(peer, addr). if List.member connected peer then [] else [AddPeerAddress peer addr, DialPeer peer]) discovered)"

definition open_streams ::
  "stream_protocol list \<Rightarrow> peer_id \<Rightarrow> (stream_protocol \<Rightarrow> string + 's) \<Rightarrow> 's streams_handler \<Rightarrow> 's streams_handler" where
  "open_streams protos peer open_stream h =
     (if has_peer h peer then h
      else fold (\<lambda>proto h. case open_stream proto of Inl _ \<Rightarrow> h | Inr st \<Rightarrow> insert_peer_and_stream h peer proto st) protos h)"

definition node_step ::
  "'m message_ops \<Rightarrow> 's net \<Rightarrow> stream_protocol list \<Rightarrow> ('a, 's) node_state \<Rightarrow> ('a, 's, 'm) node_event \<Rightarrow> ('a, 's) node_state" where
  "node_step msg net protos s ev =
     (if \<not> ns_running s then s
      else case ev of
        Cancelled \<Rightarrow> s \<lparr> ns_running := False \<rparr>
      | RetryTick connected \<Rightarrow> s \<lparr> ns_actions := ns_actions s @ retry_dials connected (ns_known_peers_info s) \<rparr>
      | Outgoing m \<Rightarrow>
          (case broadcast_message msg net m (ns_streams s) of
             (r, h, w) \<Rightarrow> s \<lparr> ns_streams := h, ns_written := ns_written s @ w,
                                 ns_running := (case r of Inl (Panicked _) \<Rightarrow> False | _ \<Rightarrow> True) \<rparr>)
      | ConnectionEstablished peer open_stream \<Rightarrow>
          s \<lparr> ns_streams := open_streams protos peer open_stream (ns_streams s) \<rparr>
      | ConnectionClosed peer \<Rightarrow> s \<lparr> ns_streams := remove_peer (ns_streams s) peer \<rparr>
      | MdnsDiscovered connected discovered \<Rightarrow> s \<lparr> ns_actions := ns_actions s @ handle_discovered connected discovered \<rparr>
      | OtherSwarmEvent \<Rightarrow> s)"

definition node_run ::
  "'m message_ops \<Rightarrow> 's net \<Rightarrow> stream_protocol list \<Rightarrow> ('a, 's, 'm) node_event list \<Rightarrow> ('a, 's) node_state \<Rightarrow> ('a, 's) node_state" where
  "node_run msg net protos evs s = foldl (node_step msg net protos) s evs"

section \<open>Model: building a node\<close>

text \<open>The cancellation token is the event that cancels the loops and is not part of the record.\<close>

record 'a node_builder =
  nb_port :: "u16 option"
  nb_listen_addrs :: "'a list"
  nb_keypair_hex :: "string option"
  nb_known_peers :: "'a list"
  nb_agent_version :: "string option"
  nb_protocols :: "stream_protocol list"
  nb_max_peer_count :: "u32 option"

definition builder_new :: "'a node_builder" where
  "builder_new = \<lparr> nb_port = None, nb_listen_addrs = [], nb_keypair_hex = None, nb_known_peers = [],
     nb_agent_version = None, nb_protocols = [], nb_max_peer_count = None \<rparr>"

definition with_port :: "u16 \<Rightarrow> 'a node_builder \<Rightarrow> 'a node_builder" where
  "with_port port b = b \<lparr> nb_port := Some port \<rparr>"

definition with_listen_addr :: "'a \<Rightarrow> 'a node_builder \<Rightarrow> 'a node_builder" where
  "with_listen_addr addr b = b \<lparr> nb_listen_addrs := nb_listen_addrs b @ [addr] \<rparr>"

definition with_keypair_hex_string :: "string \<Rightarrow> 'a node_builder \<Rightarrow> 'a node_builder" where
  "with_keypair_hex_string hex b = b \<lparr> nb_keypair_hex := Some hex \<rparr>"

definition with_agent_version :: "string \<Rightarrow> 'a node_builder \<Rightarrow> 'a node_builder" where
  "with_agent_version v b = b \<lparr> nb_agent_version := Some v \<rparr>"

definition with_protocol :: "stream_protocol \<Rightarrow> 'a node_builder \<Rightarrow> 'a node_builder" where
  "with_protocol proto b = b \<lparr> nb_protocols := nb_protocols b @ [proto] \<rparr>"

definition with_max_peer_count :: "u32 \<Rightarrow> 'a node_builder \<Rightarrow> 'a node_builder" where
  "with_max_peer_count n b = b \<lparr> nb_max_peer_count := Some n \<rparr>"

definition with_known_peers :: "'a list \<Rightarrow> 'a node_builder \<Rightarrow> 'a node_builder" where
  "with_known_peers addrs b = b \<lparr> nb_known_peers := nb_known_peers b @ addrs \<rparr>"

text \<open>The parts of the network library a node is built from.\<close>

record 'k build_env =
  be_hex_decode :: "string \<Rightarrow> string + bytes"
  be_keypair_from_bytes :: "bytes \<Rightarrow> string + 'k"
  be_generated_keypair :: 'k
  be_peer_id :: "'k \<Rightarrow> peer_id"
  be_transport :: "'k \<Rightarrow> string + unit"
  be_behaviour :: "'k \<Rightarrow> string \<Rightarrow> u32 \<Rightarrow> string + unit"
  be_accept :: "stream_protocol \<Rightarrow> string + unit"
  be_swarm :: "'k \<Rightarrow> string + unit"

definition keypair_of :: "'k build_env \<Rightarrow> string option \<Rightarrow> p2p_error + 'k" where
  "keypair_of env keypair_hex =
     (case keypair_hex of
        None \<Rightarrow> Inr (be_generated_keypair env)
      | Some hex \<Rightarrow>
          and_then (map_err (\<lambda>_. Eyre ''failed to decode hex string'') (be_hex_decode env hex))
            (\<lambda>bs. map_err (\<lambda>_. Eyre ''failed to create keypair from bytes'') (be_keypair_from_bytes env bs)))"

text \<open>The receiver of a protocol is named by the position of the handler that feeds it.\<close>

definition accept_step ::
  "'k build_env \<Rightarrow> stream_protocol list \<times> (stream_protocol \<times> nat) list \<Rightarrow> stream_protocol
   \<Rightarrow> p2p_error flow \<times> stream_protocol list \<times> (stream_protocol \<times> nat) list" where
  "accept_step env s proto =
     (case be_accept env proto of
        Inl _ \<Rightarrow> (Return (Eyre ''failed to subscribe to incoming streams for flashblocks protocol''), s)
      | Inr _ \<Rightarrow> (Continue, (fst s @ [proto], AList.update proto (length (fst s)) (snd s))))"

definition listen_addrs_of :: "'a multiaddr_ops \<Rightarrow> peer_id \<Rightarrow> u16 option \<Rightarrow> 'a list \<Rightarrow> 'a list" where
  "listen_addrs_of ma peer port addrs =
     (let kept = filter (\<lambda>addr. \<not> List.member (ma_iter ma addr) (P2pPart peer)) addrs in
      if kept = [] then [ma_unspecified ma (unwrap_or 0 port)] else kept)"

definition try_build ::
  "'k build_env \<Rightarrow> 'a multiaddr_ops \<Rightarrow> 'a node_builder
   \<Rightarrow> p2p_error + ('a, 's) node \<times> (stream_protocol \<times> nat) list" where
  "try_build env ma b =
     and_then (ok_or (Eyre ''agent version must be set'') (nb_agent_version b)) (\<lambda>agent_version.
     and_then (keypair_of env (nb_keypair_hex b)) (\<lambda>keypair.
     let peer = be_peer_id env keypair in
     and_then (map_err (\<lambda>_. Eyre ''failed to create transport'') (be_transport env keypair)) (\<lambda>_.
     and_then (map_err (\<lambda>_. Eyre ''failed to create behaviour'')
                 (be_behaviour env keypair agent_version (unwrap_or 50 (nb_max_peer_count b)))) (\<lambda>_.
     (case for_in (accept_step env) (nb_protocols b) ([], []) of
        (Return e, _) \<Rightarrow> Inl e
      | (Continue, (handlers, rxs)) \<Rightarrow>
          and_then (map_err Eyre (be_swarm env keypair)) (\<lambda>_.
          Inr (\<lparr> nd_peer_id = peer, nd_listen_addrs = listen_addrs_of ma peer (nb_port b) (nb_listen_addrs b),
                 nd_known_peers = nb_known_peers b, nd_outgoing_streams = streams_new,
                 nd_incoming_handlers = handlers, nd_protocols = nb_protocols b \<rparr>, rxs)))))))"

section \<open>Model: streams of the peers\<close>

text \<open>Reading a stream line by line: every line is decoded and sent on; the first line that cannot be read or decoded
  ends the task. The receiving end may be gone, which is ignored.\<close>

definition stream_body ::
  "'m message_ops \<Rightarrow> 'm list \<Rightarrow> string + string \<Rightarrow> p2p_error flow \<times> 'm list" where
  "stream_body msg acc res =
     (case res of
        Inl _ \<Rightarrow> (Return (Eyre ''failed to read from stream of peer''), acc)
      | Inr line \<Rightarrow>
          (case from_str msg line of
             Inl _ \<Rightarrow> (Return (Eyre ''failed to decode stream message''), acc)
           | Inr m \<Rightarrow> (Continue, acc @ [m])))"

definition handle_incoming_stream ::
  "'m message_ops \<Rightarrow> (string + string) list \<Rightarrow> (p2p_error + unit) \<times> 'm list" where
  "handle_incoming_stream msg items =
     (case for_in (stream_body msg) items [] of
        (Return e, acc) \<Rightarrow> (Inl e, acc)
      | (Continue, acc) \<Rightarrow> (Inr (), acc))"

text \<open>The handler of a protocol spawns one such task per stream; the tasks share one channel. Cancelling stops
  the handler; the tasks are detached and go on.\<close>

record stream_task =
  tk_peer :: peer_id
  tk_left :: "(string + string) list"

record 'm incoming_state =
  in_running :: bool
  in_tasks :: "stream_task list"
  in_channel :: "(nat \<times> 'm) list"

datatype incoming_event =
  IncomingCancelled
| IncomingStream peer_id "(string + string) list"
| TaskReads nat

definition incoming_step :: "'m message_ops \<Rightarrow> 'm incoming_state \<Rightarrow> incoming_event \<Rightarrow> 'm incoming_state" where
  "incoming_step msg s ev =
     (case ev of
        IncomingCancelled \<Rightarrow> s \<lparr> in_running := False \<rparr>
      | IncomingStream from items \<Rightarrow>
          if in_running s then s \<lparr> in_tasks := in_tasks s @ [\<lparr> tk_peer = from, tk_left = items \<rparr>] \<rparr> else s
      | TaskReads i \<Rightarrow>
          if i < length (in_tasks s)
          then (case tk_left (in_tasks s ! i) of
                  [] \<Rightarrow> s
                | item # rest \<Rightarrow>
                    (case stream_body msg [] item of
                       (Return _, _) \<Rightarrow> s \<lparr> in_tasks := (in_tasks s)[i := (in_tasks s ! i) \<lparr> tk_left := [] \<rparr>] \<rparr>
                     | (Continue, ms) \<Rightarrow>
                         s \<lparr> in_tasks := (in_tasks s)[i := (in_tasks s ! i) \<lparr> tk_left := rest \<rparr>],
                             in_channel := in_channel s @ map (Pair i) ms \<rparr>))
          else s)"

definition incoming_run :: "'m message_ops \<Rightarrow> incoming_event list \<Rightarrow> 'm incoming_state" where
  "incoming_run msg evs = foldl (incoming_step msg) \<lparr> in_running = True, in_tasks = [], in_channel = [] \<rparr> evs"

text \<open>A running node has one such handler per protocol it accepts. A stream goes to the handler of its protocol; the events carry the
  protocol of the handler they concern, and the receiver of a protocol is the channel of its handler.\<close>

definition handler_events :: "('a, 's) node \<Rightarrow> nat \<Rightarrow> (stream_protocol \<times> incoming_event) list \<Rightarrow> incoming_event list" where
  "handler_events node rx revs = map snd (filter (\<lambda>rev. fst rev = nd_incoming_handlers node ! rx) revs)"

definition node_incoming ::
  "'m message_ops \<Rightarrow> ('a, 's) node \<Rightarrow> nat \<Rightarrow> (stream_protocol \<times> incoming_event) list \<Rightarrow> 'm incoming_state" where
  "node_incoming msg node rx revs = incoming_run msg (handler_events node rx revs)"

section \<open>What a broadcast does\<close>

definition stream_of :: "'s streams_handler \<Rightarrow> peer_id \<Rightarrow> stream_protocol \<Rightarrow> 's option" where
  "stream_of h peer proto = Option.bind (map_of (peers_to_stream h) peer) (\<lambda>m. map_of m proto)"

definition peers_distinct :: "'s streams_handler \<Rightarrow> bool" where
  "peers_distinct h \<longleftrightarrow> distinct (map fst (peers_to_stream h))"

named_theorems streams "what the operations on the streams change"

lemma stream_of_has_peer: "stream_of h p q = Some st \<Longrightarrow> has_peer h p"
  by (auto simp: stream_of_def has_peer_def bind_eq_Some_conv)

lemma has_peer_keys: "has_peer h p \<longleftrightarrow> p \<in> fst ` set (peers_to_stream h)"
  by (simp add: has_peer_def map_of_eq_None_iff)

lemma new_streams [streams]:
  "has_peer streams_new p = False" "stream_of streams_new p q = None" "peers_distinct streams_new"
  by (simp_all add: streams_new_def has_peer_def stream_of_def peers_distinct_def)

lemma insert_streams [streams]:
  "has_peer (insert_peer_and_stream h a b st) p \<longleftrightarrow> p = a \<or> has_peer h p"
  "stream_of (insert_peer_and_stream h a b st) p q = (if p = a \<and> q = b then Some st else stream_of h p q)"
  "peers_distinct h \<Longrightarrow> peers_distinct (insert_peer_and_stream h a b st)"
  by (cases "map_of (peers_to_stream h) a";
      auto simp: insert_peer_and_stream_def has_peer_def stream_of_def peers_distinct_def update_conv' distinct_update)+

lemma remove_streams [streams]:
  "has_peer (remove_peer h a) p \<longleftrightarrow> p \<noteq> a \<and> has_peer h p"
  "stream_of (remove_peer h a) p q = (if p = a then None else stream_of h p q)"
  "peers_distinct h \<Longrightarrow> peers_distinct (remove_peer h a)"
  by (auto simp: remove_peer_def has_peer_def stream_of_def peers_distinct_def delete_conv' distinct_delete)

text \<open>One peer at a time, neither loop panics.\<close>

lemma take_stream_step:
  assumes "has_peer (bc_handler s) a"
  shows "\<exists>s'. take_stream proto s a = (Continue, s') \<and> bc_written s' = bc_written s \<and>
    bc_futures s' = bc_futures s @ map (Pair a) (opt_list (stream_of (bc_handler s) a proto)) \<and>
    has_peer (bc_handler s') = has_peer (bc_handler s) \<and>
    (peers_distinct (bc_handler s) \<longrightarrow> peers_distinct (bc_handler s')) \<and>
    (\<forall>p q. stream_of (bc_handler s') p q = (if p = a \<and> q = proto then None else stream_of (bc_handler s) p q))"
  using assms
  by (auto simp: take_stream_def has_peer_def stream_of_def peers_distinct_def update_conv' delete_conv' distinct_update
      fun_eq_iff split: option.split)

lemma put_back_step:
  assumes "has_peer (bc_handler s) a"
  shows "\<exists>s'. put_back send proto payload s (a, st) = (Continue, s') \<and>
    bc_written s' = bc_written s @ (if is_ok (send a st payload) then [(a, payload)] else []) \<and>
    has_peer (bc_handler s') = has_peer (bc_handler s) \<and>
    (peers_distinct (bc_handler s) \<longrightarrow> peers_distinct (bc_handler s')) \<and>
    (\<forall>p q. stream_of (bc_handler s') p q =
       (case send a st payload of Inr st' \<Rightarrow> if p = a \<and> q = proto then Some st' else stream_of (bc_handler s) p q
        | Inl _ \<Rightarrow> stream_of (bc_handler s) p q))"
  using assms
  by (auto simp: put_back_def has_peer_def stream_of_def peers_distinct_def update_conv' distinct_update fun_eq_iff
      split: option.split sum.split)

text \<open>The two loops.\<close>

lemma take_streams:
  assumes "distinct ps" and "\<forall>p \<in> set ps. has_peer (bc_handler s) p"
  shows "\<exists>s'. for_in (take_stream proto) ps s = (Continue, s') \<and> bc_written s' = bc_written s \<and>
    bc_futures s' = bc_futures s @ concat (map (\<lambda>p. map (Pair p) (opt_list (stream_of (bc_handler s) p proto))) ps) \<and>
    has_peer (bc_handler s') = has_peer (bc_handler s) \<and>
    (peers_distinct (bc_handler s) \<longrightarrow> peers_distinct (bc_handler s')) \<and>
    (\<forall>p q. stream_of (bc_handler s') p q = (if p \<in> set ps \<and> q = proto then None else stream_of (bc_handler s) p q))"
  using assms
proof (induction ps arbitrary: s)
  case (Cons a ps)
  obtain t where t: "take_stream proto s a = (Continue, t)" "bc_written t = bc_written s"
      "bc_futures t = bc_futures s @ map (Pair a) (opt_list (stream_of (bc_handler s) a proto))"
      "has_peer (bc_handler t) = has_peer (bc_handler s)"
      "peers_distinct (bc_handler s) \<longrightarrow> peers_distinct (bc_handler t)"
      "\<forall>p q. stream_of (bc_handler t) p q = (if p = a \<and> q = proto then None else stream_of (bc_handler s) p q)"
    using take_stream_step [of s a proto] Cons.prems(2) by auto
  have same: "map (\<lambda>p. map (Pair p) (opt_list (stream_of (bc_handler t) p proto))) ps =
      map (\<lambda>p. map (Pair p) (opt_list (stream_of (bc_handler s) p proto))) ps"
    using t(6) Cons.prems(1) by auto
  obtain u where u: "for_in (take_stream proto) ps t = (Continue, u)" "bc_written u = bc_written t"
      "bc_futures u = bc_futures t @ concat (map (\<lambda>p. map (Pair p) (opt_list (stream_of (bc_handler t) p proto))) ps)"
      "has_peer (bc_handler u) = has_peer (bc_handler t)"
      "peers_distinct (bc_handler t) \<longrightarrow> peers_distinct (bc_handler u)"
      "\<forall>p q. stream_of (bc_handler u) p q = (if p \<in> set ps \<and> q = proto then None else stream_of (bc_handler t) p q)"
    using Cons.IH [of t] Cons.prems t(4) by auto
  have "bc_futures u = bc_futures s @ concat (map (\<lambda>p. map (Pair p) (opt_list (stream_of (bc_handler s) p proto))) (a # ps))"
    unfolding u(3) same t(3) by simp
  then show ?case
    using t(1,2,4-6) u(1,2,4-6) by (intro exI [of _ u]) auto
qed simp

lemma put_back_all:
  assumes "distinct (map fst fs)" and "\<forall>f \<in> set fs. has_peer (bc_handler s) (fst f)"
  shows "\<exists>s'. for_in (put_back send proto payload) fs s = (Continue, s') \<and>
    bc_written s' = bc_written s @ concat (map (\<lambda>(p, st). if is_ok (send p st payload) then [(p, payload)] else []) fs) \<and>
    has_peer (bc_handler s') = has_peer (bc_handler s) \<and>
    (peers_distinct (bc_handler s) \<longrightarrow> peers_distinct (bc_handler s')) \<and>
    (\<forall>p q. stream_of (bc_handler s') p q =
       (case map_of fs p of
          Some st \<Rightarrow> (case send p st payload of
             Inr st' \<Rightarrow> if q = proto then Some st' else stream_of (bc_handler s) p q
           | Inl _ \<Rightarrow> stream_of (bc_handler s) p q)
        | None \<Rightarrow> stream_of (bc_handler s) p q))"
  using assms
proof (induction fs arbitrary: s)
  case (Cons f fs)
  obtain a st where f: "f = (a, st)" by fastforce
  obtain t where t: "put_back send proto payload s (a, st) = (Continue, t)"
      "bc_written t = bc_written s @ (if is_ok (send a st payload) then [(a, payload)] else [])"
      "has_peer (bc_handler t) = has_peer (bc_handler s)"
      "peers_distinct (bc_handler s) \<longrightarrow> peers_distinct (bc_handler t)"
      "\<forall>p q. stream_of (bc_handler t) p q =
       (case send a st payload of Inr st' \<Rightarrow> if p = a \<and> q = proto then Some st' else stream_of (bc_handler s) p q
        | Inl _ \<Rightarrow> stream_of (bc_handler s) p q)"
    using put_back_step [of s a send proto payload st] Cons.prems(2) f by auto
  obtain u where u: "for_in (put_back send proto payload) fs t = (Continue, u)"
      "bc_written u = bc_written t @ concat (map (\<lambda>(p, st). if is_ok (send p st payload) then [(p, payload)] else []) fs)"
      "has_peer (bc_handler u) = has_peer (bc_handler t)"
      "peers_distinct (bc_handler t) \<longrightarrow> peers_distinct (bc_handler u)"
      "\<forall>p q. stream_of (bc_handler u) p q =
       (case map_of fs p of
          Some st \<Rightarrow> (case send p st payload of
             Inr st' \<Rightarrow> if q = proto then Some st' else stream_of (bc_handler t) p q
           | Inl _ \<Rightarrow> stream_of (bc_handler t) p q)
        | None \<Rightarrow> stream_of (bc_handler t) p q)"
    using Cons.IH [of t] Cons.prems t(3) by auto
  have new: "map_of fs a = None" using Cons.prems(1) f by (auto simp: map_of_eq_None_iff)
  have "stream_of (bc_handler u) p q =
       (case map_of (f # fs) p of
          Some st \<Rightarrow> (case send p st payload of
             Inr st' \<Rightarrow> if q = proto then Some st' else stream_of (bc_handler s) p q
           | Inl _ \<Rightarrow> stream_of (bc_handler s) p q)
        | None \<Rightarrow> stream_of (bc_handler s) p q)" for p q
    using u(5) t(5) new f by (cases "p = a") (auto split: option.split sum.split)
  then show ?case
    using t(1-4) u(1-4) f by (intro exI [of _ u]) auto
qed simp

text \<open>A broadcast never panics. It writes the message once to every peer with an open stream of its protocol whose write
  succeeds, whatever the order of completion, keeps the streams that worked and drops those that failed.\<close>

definition completes :: "'s net \<Rightarrow> bool" where
  "completes net \<longleftrightarrow> (\<forall>fs. mset (completion net fs) = mset fs)"

definition reached :: "'s net \<Rightarrow> 's streams_handler \<Rightarrow> stream_protocol \<Rightarrow> string \<Rightarrow> peer_id \<Rightarrow> bool" where
  "reached net h proto payload p \<longleftrightarrow> (\<exists>st. stream_of h p proto = Some st \<and> is_ok (send_line net p st payload))"

lemma concat_opt_fst: "map fst (concat (map (\<lambda>p. map (Pair p) (opt_list (f p))) ps)) = filter (\<lambda>p. f p \<noteq> None) ps"
proof (induction ps)
  case (Cons a ps)
  then show ?case by (cases "f a") auto
qed simp

lemma map_of_concat_opt:
  "map_of (concat (map (\<lambda>p. map (Pair p) (opt_list (f p))) ps)) p = (if p \<in> set ps then f p else None)"
proof (induction ps)
  case (Cons a ps)
  then show ?case by (cases "f a") auto
qed simp

lemma filter_concat_single:
  "filter (\<lambda>x. fst x = p) (concat (map (\<lambda>(a, st). if P a st then [(a, v)] else []) fs)) =
   concat (map (\<lambda>(a, st). if P a st then [(a, v)] else []) (filter (\<lambda>x. fst x = p) fs))"
  by (induction fs) auto

lemma filter_fst_distinct:
  "distinct (map fst fs) \<Longrightarrow> filter (\<lambda>x. fst x = p) fs = map (Pair p) (opt_list (map_of fs p))"
proof (induction fs)
  case (Cons f fs)
  obtain a st where f: "f = (a, st)" by fastforce
  show ?case
  proof (cases "a = p")
    case True
    then have "map_of fs p = None" using Cons.prems f by (auto simp: map_of_eq_None_iff)
    then show ?thesis using Cons f True by simp
  next
    case False
    then show ?thesis using Cons f by simp
  qed
qed simp

lemma broadcast_spec:
  assumes "peers_distinct h" "completes net" "to_string msg m = Inr payload"
  defines "proto \<equiv> protocol msg m"
  shows "\<exists>h' w. broadcast_message msg net m h = (Inr (), h', w) \<and> peers_distinct h' \<and> has_peer h' = has_peer h \<and>
    (\<forall>p. filter (\<lambda>x. fst x = p) w = (if reached net h proto payload p then [(p, payload)] else [])) \<and>
    (\<forall>p q. stream_of h' p q =
       (if q = proto then Option.bind (stream_of h p q) (\<lambda>st. case send_line net p st payload of Inr st' \<Rightarrow> Some st' | Inl _ \<Rightarrow> None)
        else stream_of h p q))"
proof -
  let ?ps = "map fst (peers_to_stream h)" and ?s0 = "\<lparr> bc_handler = h, bc_futures = [], bc_written = [] \<rparr>"
  let ?fs = "concat (map (\<lambda>p. map (Pair p) (opt_list (stream_of h p proto))) ?ps)"
  have d: "distinct ?ps" using assms(1) by (simp add: peers_distinct_def)
  obtain s where s: "for_in (take_stream proto) ?ps ?s0 = (Continue, s)" "bc_written s = []" "bc_futures s = ?fs"
      "has_peer (bc_handler s) = has_peer h" "peers_distinct (bc_handler s)"
      "\<forall>p q. stream_of (bc_handler s) p q = (if p \<in> set ?ps \<and> q = proto then None else stream_of h p q)"
    using take_streams [OF d, of ?s0 proto] assms(1) by (auto simp: has_peer_keys)
  let ?gs = "completion net ?fs"
  have perm: "mset ?gs = mset ?fs" using assms(2) by (simp add: completes_def)
  have dfs: "distinct (map fst ?fs)" unfolding concat_opt_fst using d by simp
  then have dgs: "distinct (map fst ?gs)" using perm mset_eq_imp_distinct_iff [of "map fst ?gs" "map fst ?fs"] by simp
  have same: "map_of ?gs = map_of ?fs"
    using map_of_inject_set [OF dgs dfs] mset_eq_setD [OF perm] by simp
  have "\<forall>f \<in> set ?gs. has_peer (bc_handler s) (fst f)"
    unfolding mset_eq_setD [OF perm] s(4) by (auto simp: has_peer_keys)
  from put_back_all [OF dgs this, of "send_line net" proto payload] obtain t where
    t: "for_in (put_back (send_line net) proto payload) ?gs s = (Continue, t)"
      "bc_written t = concat (map (\<lambda>(p, st). if is_ok (send_line net p st payload) then [(p, payload)] else []) ?gs)"
      "has_peer (bc_handler t) = has_peer (bc_handler s)" "peers_distinct (bc_handler t)"
      "\<And>p q. stream_of (bc_handler t) p q =
       (case map_of ?gs p of
          Some st \<Rightarrow> (case send_line net p st payload of
             Inr st' \<Rightarrow> if q = proto then Some st' else stream_of (bc_handler s) p q
           | Inl _ \<Rightarrow> stream_of (bc_handler s) p q)
        | None \<Rightarrow> stream_of (bc_handler s) p q)"
    using s(2,5) by auto
  have no_peer: "stream_of h p q = None" if "p \<notin> set ?ps" for p q
    using that stream_of_has_peer [of h p q] by (cases "stream_of h p q") (auto simp: has_peer_keys)
  then have at: "map_of ?gs p = stream_of h p proto" for p
    unfolding same map_of_concat_opt by auto
  have "filter (\<lambda>x. fst x = p) (bc_written t) = (if reached net h proto payload p then [(p, payload)] else [])" for p
    unfolding t(2) filter_concat_single filter_fst_distinct [OF dgs] at
    by (cases "stream_of h p proto") (auto simp: reached_def)
  moreover have "stream_of (bc_handler t) p q =
      (if q = proto then Option.bind (stream_of h p q) (\<lambda>st. case send_line net p st payload of Inr st' \<Rightarrow> Some st' | Inl _ \<Rightarrow> None)
       else stream_of h p q)" for p q
    unfolding t(5) at using s(6) no_peer [of p] by (auto split: option.split sum.split)
  ultimately show ?thesis
    using s(1,3,4) t(1,3,4) assms(3)
    by (intro exI [of _ "bc_handler t"] exI [of _ "bc_written t"]) (simp add: broadcast_message_def proto_def)
qed

section \<open>Invariants of the node\<close>

lemma broadcast_error:
  "to_string msg m = Inl e \<Longrightarrow> broadcast_message msg net m h = (Inl (Eyre ''failed to serialize payload''), h, [])"
  by (simp add: broadcast_message_def)

lemma open_streams_spec:
  assumes "\<not> has_peer h a"
  shows "stream_of (open_streams protos a open_stream h) p q =
      (if p = a \<and> q \<in> set protos then (case open_stream q of Inr st \<Rightarrow> Some st | Inl _ \<Rightarrow> None) else stream_of h p q)"
    and "has_peer (open_streams protos a open_stream h) p \<longleftrightarrow>
      has_peer h p \<or> (p = a \<and> (\<exists>q \<in> set protos. is_ok (open_stream q)))"
    and "peers_distinct h \<Longrightarrow> peers_distinct (open_streams protos a open_stream h)"
proof -
  let ?f = "\<lambda>proto h. case open_stream proto of Inl _ \<Rightarrow> h | Inr st \<Rightarrow> insert_peer_and_stream h a proto st"
  have none: "stream_of h a q = None" for q
    using stream_of_has_peer [of h a q] assms by (cases "stream_of h a q") auto
  have "(peers_distinct h \<longrightarrow> peers_distinct (fold ?f protos g)) \<and> has_peer (fold ?f protos g) p = (has_peer g p \<or> (p = a \<and> (\<exists>q \<in> set protos. is_ok (open_stream q)))) \<and>
    stream_of (fold ?f protos g) p q =
      (if p = a \<and> q \<in> set protos \<and> is_ok (open_stream q) then Some (projr (open_stream q)) else stream_of g p q)"
    if "peers_distinct h \<longrightarrow> peers_distinct g" for g p q
    using that
    by (induction protos arbitrary: g) (auto simp: streams split: sum.split)
  note * = this [of h]
  show "stream_of (open_streams protos a open_stream h) p q =
      (if p = a \<and> q \<in> set protos then (case open_stream q of Inr st \<Rightarrow> Some st | Inl _ \<Rightarrow> None) else stream_of h p q)"
    using * [of p q] assms none [of q] by (auto simp: open_streams_def split: sum.split)
  show "has_peer (open_streams protos a open_stream h) p \<longleftrightarrow>
      has_peer h p \<or> (p = a \<and> (\<exists>q \<in> set protos. is_ok (open_stream q)))"
    using * [of p] assms by (auto simp: open_streams_def)
  show "peers_distinct h \<Longrightarrow> peers_distinct (open_streams protos a open_stream h)"
    using * assms by (auto simp: open_streams_def)
qed

lemma open_streams_known: "has_peer h a \<Longrightarrow> open_streams protos a open_stream h = h"
  by (simp add: open_streams_def)

text \<open>The streams are well-formed: one entry a peer, streams of supported protocols only.\<close>

definition node_wf :: "stream_protocol list \<Rightarrow> ('a, 's) node_state \<Rightarrow> bool" where
  "node_wf protos s \<longleftrightarrow> peers_distinct (ns_streams s) \<and>
     (\<forall>p q. stream_of (ns_streams s) p q \<noteq> None \<longrightarrow> q \<in> set protos)"

lemma broadcast_keeps:
  assumes "peers_distinct h" "completes net"
  shows "\<exists>r h' w. broadcast_message msg net m h = (r, h', w) \<and> (\<forall>e. r \<noteq> Inl (Panicked e)) \<and> peers_distinct h' \<and>
    has_peer h' = has_peer h \<and> (\<forall>p q. stream_of h p q = None \<longrightarrow> stream_of h' p q = None) \<and>
    (\<forall>p. stream_of h p (protocol msg m) = None \<longrightarrow> filter (\<lambda>x. fst x = p) w = [])"
proof (cases "to_string msg m")
  case (Inl e)
  then show ?thesis using assms by (simp add: broadcast_error)
next
  case (Inr payload)
  from broadcast_spec [of h net msg m payload, OF assms this] show ?thesis
    by (intro exI [of _ "Inr ()"], elim ex_forward) (simp add: reached_def)
qed

lemma node_step_wf:
  assumes "completes net" "node_wf protos s"
  shows "node_wf protos (node_step msg net protos s ev)"
    and "ns_running (node_step msg net protos s ev) \<longleftrightarrow> ns_running s \<and> ev \<noteq> Cancelled"
proof -
  have d: "peers_distinct (ns_streams s)" and q: "stream_of (ns_streams s) p r \<noteq> None \<Longrightarrow> r \<in> set protos" for p r
    using assms(2) by (auto simp: node_wf_def)
  have "node_wf protos (node_step msg net protos s ev) \<and>
    (ns_running (node_step msg net protos s ev) \<longleftrightarrow> ns_running s \<and> ev \<noteq> Cancelled)"
  proof (cases ev)
    case (Outgoing m)
    from broadcast_keeps [OF d assms(1), of msg m] obtain r h' w where
      b: "broadcast_message msg net m (ns_streams s) = (r, h', w)" "\<forall>e. r \<noteq> Inl (Panicked e)" "peers_distinct h'"
        "\<forall>p q. stream_of (ns_streams s) p q = None \<longrightarrow> stream_of h' p q = None"
      by (elim exE conjE) (rule that)
    have "(case r of Inl (Panicked _) \<Rightarrow> False | _ \<Rightarrow> True)"
      using b(2) by (auto split: sum.split p2p_error.split)
    moreover have "x \<in> set protos" if "stream_of h' p x \<noteq> None" for p x
      using b(4) [rule_format, of p x] q [of p x] that by (cases "stream_of (ns_streams s) p x") simp_all
    ultimately show ?thesis using Outgoing b(1,3) assms(2) by (cases "ns_running s") (simp_all add: node_step_def node_wf_def)
  next
    case (ConnectionEstablished a open_stream)
    show ?thesis
    proof (cases "has_peer (ns_streams s) a")
      case True
      then show ?thesis using ConnectionEstablished assms(2) by (simp add: node_step_def open_streams_known)
    next
      case False
      from open_streams_spec(1,3) [OF this, of protos open_stream] show ?thesis
        using ConnectionEstablished d q by (auto simp: node_step_def node_wf_def split: if_splits)
    qed
  next
    case (ConnectionClosed a)
    then show ?thesis using d q by (auto simp: node_step_def node_wf_def streams)
  qed (use assms(2) in \<open>auto simp: node_step_def node_wf_def\<close>)
  then show "node_wf protos (node_step msg net protos s ev)"
    "ns_running (node_step msg net protos s ev) \<longleftrightarrow> ns_running s \<and> ev \<noteq> Cancelled"
    by auto
qed

lemma node_run_Cons: "node_run msg net protos (ev # evs) s = node_run msg net protos evs (node_step msg net protos s ev)"
  and node_run_Nil: "node_run msg net protos [] s = s"
  and node_run_append: "node_run msg net protos (evs @ evs') s = node_run msg net protos evs' (node_run msg net protos evs s)"
  by (simp_all add: node_run_def)

lemmas node_run_simps = node_run_Cons node_run_Nil node_run_append

lemma node_run_wf:
  assumes "completes net" "node_wf protos s"
  shows "node_wf protos (node_run msg net protos evs s) \<and>
    (ns_running (node_run msg net protos evs s) \<longleftrightarrow> ns_running s \<and> Cancelled \<notin> set evs)"
  using assms(2)
proof (induction evs arbitrary: s)
  case (Cons ev evs)
  then show ?case
    using node_step_wf [OF assms(1) Cons.prems, of msg ev] by (auto simp: node_run_simps)
qed (simp add: node_run_simps)

section \<open>Starting a node\<close>

interpretation listening: loop_body "start_listen sw" "\<lambda>_. True" "\<lambda>_. True"
  "\<lambda>s t. ns_streams t = ns_streams s \<and> ns_written t = ns_written s" for sw
  by unfold_locales (auto simp: start_listen_def Let_def split: sum.split)

interpretation dialling: loop_body "start_dial ma sw" "\<lambda>_. True" "\<lambda>_. True"
  "\<lambda>s t. ns_streams t = ns_streams s \<and> ns_written t = ns_written s" for ma sw
  by unfold_locales (auto simp: start_dial_def Let_def split: prod.split option.split addr_part.split sum.split)

lemma node_start_ok:
  assumes "node_start ma sw node = (Inr (), s)"
  shows "ns_running s" "ns_streams s = nd_outgoing_streams node" "ns_written s = []"
proof -
  let ?s0 = "\<lparr> ns_known_peers_info = [], ns_streams = nd_outgoing_streams node, ns_actions = [], ns_written = [],
    ns_running = False \<rparr>"
  obtain s1 s2 where run: "for_in (start_listen sw) (nd_listen_addrs node) ?s0 = (Continue, s1)"
    "for_in (start_dial ma sw) (nd_known_peers node) s1 = (Continue, s2)" "s = s2 \<lparr> ns_running := True \<rparr>"
    using assms by (auto simp: node_start_def Let_def split: prod.splits flow.splits)
  show "ns_running s" "ns_streams s = nd_outgoing_streams node" "ns_written s = []"
    using listening.for_in_keeps [where s = ?s0 and xs = "nd_listen_addrs node" and sw = sw]
      dialling.for_in_keeps [where s = s1 and xs = "nd_known_peers node" and ma = ma and sw = sw] run by auto
qed

lemma try_build_cases:
  assumes "try_build env ma b = Inr (node, rxs)"
  obtains k where "keypair_of env (nb_keypair_hex b) = Inr k"
    "for_in (accept_step env) (nb_protocols b) ([], []) = (Continue, nd_incoming_handlers node, rxs)"
    "nd_peer_id node = be_peer_id env k" "nd_outgoing_streams node = streams_new"
    "nd_protocols node = nb_protocols b" "nd_known_peers node = nb_known_peers b"
    "nd_listen_addrs node = listen_addrs_of ma (be_peer_id env k) (nb_port b) (nb_listen_addrs b)"
proof -
  obtain r hs rxs' where run: "for_in (accept_step env) (nb_protocols b) ([], []) = (r, hs, rxs')"
    by (cases "for_in (accept_step env) (nb_protocols b) ([], [])") auto
  show ?thesis
    using assms run by (cases r) (auto simp: try_build_def Let_def and_then_eq_Inr intro: that)
qed

text \<open>Every supported protocol has a receiver, fed by the handler of that protocol.\<close>

lemma accept_all:
  assumes "for_in (accept_step env) protos (hs, rxs) = (Continue, hs', rxs')"
    and "\<forall>q i. map_of rxs q = Some i \<longrightarrow> i < length hs \<and> hs ! i = q" and "\<forall>q \<in> set hs. map_of rxs q \<noteq> None"
  shows "hs' = hs @ protos \<and> (\<forall>q i. map_of rxs' q = Some i \<longrightarrow> i < length hs' \<and> hs' ! i = q) \<and>
    (\<forall>q \<in> set hs'. map_of rxs' q \<noteq> None)"
  using assms
proof (induction protos arbitrary: hs rxs)
  case (Cons q protos)
  have ok: "for_in (accept_step env) protos (hs @ [q], AList.update q (length hs) rxs) = (Continue, hs', rxs')"
    using Cons.prems(1) by (cases "be_accept env q") (simp_all add: accept_step_def [of env "(hs, rxs)" q])
  have "\<forall>r i. map_of (AList.update q (length hs) rxs) r = Some i \<longrightarrow> i < length (hs @ [q]) \<and> (hs @ [q]) ! i = r"
    "\<forall>r \<in> set (hs @ [q]). map_of (AList.update q (length hs) rxs) r \<noteq> None"
    using Cons.prems(2,3) by (auto simp: update_conv' nth_append intro: less_SucI)
  from Cons.IH [OF ok this] show ?case by (elim conjE, intro conjI) simp
qed simp

lemma try_build_receivers:
  assumes "try_build env ma b = Inr (node, rxs)" and "q \<in> set (nb_protocols b)"
  shows "\<exists>i. map_of rxs q = Some i \<and> i < length (nd_incoming_handlers node) \<and> nd_incoming_handlers node ! i = q"
proof -
  have run: "for_in (accept_step env) (nb_protocols b) ([], []) = (Continue, nd_incoming_handlers node, rxs)"
    using assms(1) by (rule try_build_cases)
  have all: "nd_incoming_handlers node = [] @ nb_protocols b \<and>
      (\<forall>q i. map_of rxs q = Some i \<longrightarrow> i < length (nd_incoming_handlers node) \<and> nd_incoming_handlers node ! i = q) \<and>
      (\<forall>q \<in> set (nd_incoming_handlers node). map_of rxs q \<noteq> None)"
    by (rule accept_all [OF run]) auto
  then have "q \<in> set (nd_incoming_handlers node)" using assms(2) by simp
  from bspec [OF conjunct2 [OF conjunct2 [OF all]] this] obtain i where "map_of rxs q = Some i" by auto
  then show ?thesis using conjunct1 [OF conjunct2 [OF all]] by blast
qed

definition no_panic :: "p2p_error + 'a \<Rightarrow> bool" where
  "no_panic r \<longleftrightarrow> (\<forall>msg. r \<noteq> Inl (Panicked msg))"

lemma no_panic_intros [intro]:
  "no_panic (Inr x)" "no_panic (Inl (Eyre m))" "no_panic (ok_or (Eyre m) opt)" "no_panic (map_err (\<lambda>e. Eyre (f e)) r)"
  "no_panic r' \<Longrightarrow> (\<And>y. r' = Inr y \<Longrightarrow> no_panic (g y)) \<Longrightarrow> no_panic (and_then r' g)"
proof -
  show "no_panic (ok_or (Eyre m) opt)" by (cases opt) (simp_all add: no_panic_def)
  show "no_panic (map_err (\<lambda>e. Eyre (f e)) r)" by (cases r) (simp_all add: no_panic_def)
  show "no_panic r' \<Longrightarrow> (\<And>y. r' = Inr y \<Longrightarrow> no_panic (g y)) \<Longrightarrow> no_panic (and_then r' g)"
    by (cases r') (simp_all add: no_panic_def)
qed (simp_all add: no_panic_def)

lemma try_build_no_panic: "no_panic (try_build env ma b)"
proof -
  have accept: "fst (for_in (accept_step env) protos s) \<noteq> Return (Panicked msg)" for protos s msg
  proof (induction protos arbitrary: s)
    case (Cons p protos)
    then show ?case by (cases "be_accept env p") (simp_all add: accept_step_def [of env s p])
  qed simp
  obtain r hs rxs where run: "for_in (accept_step env) (nb_protocols b) ([], []) = (r, hs, rxs)"
    by (cases "for_in (accept_step env) (nb_protocols b) ([], [])") auto
  have "no_panic (keypair_of env key)" for key
    by (cases key) (auto simp: keypair_of_def intro!: no_panic_intros)
  then show ?thesis
    using run accept [of "nb_protocols b" "([], [])"]
    by (cases r) (auto simp: try_build_def Let_def no_panic_def [of "Inl _"] intro!: no_panic_intros)
qed

text \<open>A listen address with the peer ID of another node passes the filter, and asking for the addresses of the node
  panics: only an address with the node's own peer ID is dropped.\<close>

lemma foreign_listen_addr_panics:
  assumes "nb_listen_addrs b = [addr]" and "ma_iter ma addr = parts @ [P2pPart other]"
    and "P2pPart (be_peer_id env k) \<notin> set (parts @ [P2pPart other])"
    and "keypair_of env (nb_keypair_hex b) = Inr k" and "try_build env ma b = Inr (node, rxs)"
    and "\<forall>addr parts q. ma_iter ma addr = parts @ [P2pPart q] \<longrightarrow> (\<forall>p. p \<noteq> q \<longrightarrow> ma_with_p2p ma addr p = Inl addr)"
  shows "multiaddrs ma node = Inl (Panicked ''can add peer ID to multiaddr'')"
proof -
  have "nd_listen_addrs node = [addr]" "nd_peer_id node = be_peer_id env k"
    using try_build_cases [OF assms(5)] assms(1-4) by (auto simp: listen_addrs_of_def)
  moreover have "ma_with_p2p ma addr (be_peer_id env k) = Inl addr" using assms(2,3,6) by auto
  ultimately show ?thesis by (simp add: multiaddrs_def)
qed

end
