(* ===== verification/P2p_Props.thy ===== *)
theory P2p_Props
  imports P2p
begin

text \<open>
  What the peers of a node receive: messages in order over a connection that stays open, through whatever interleaving of
  the reading tasks; nothing after the streams to a peer have been dropped.
\<close>

section \<open>What is written to one peer\<close>

definition writes_to :: "peer_id \<Rightarrow> ('a, 's) node_state \<Rightarrow> string list" where
  "writes_to p s = map snd (filter (\<lambda>x. fst x = p) (ns_written s))"

definition outgoing :: "('a, 's, 'm) node_event list \<Rightarrow> 'm list" where
  "outgoing evs = concat (map (\<lambda>ev. case ev of Outgoing m \<Rightarrow> [m] | _ \<Rightarrow> []) evs)"

text \<open>The events of a history that can give a peer streams again.\<close>

definition never_established :: "peer_id \<Rightarrow> ('a, 's, 'm) node_event list \<Rightarrow> bool" where
  "never_established p evs \<longleftrightarrow> (\<forall>f. ConnectionEstablished p f \<notin> set evs)"

definition encodes :: "'m message_ops \<Rightarrow> 'm list \<Rightarrow> bool" where
  "encodes msg ms \<longleftrightarrow> (\<forall>m \<in> set ms. \<exists>l. to_string msg m = Inr l)"

lemma step_silent:
  assumes "completes net" "node_wf protos s" "\<not> has_peer (ns_streams s) p" "\<And>f. ev \<noteq> ConnectionEstablished p f"
  shows "\<not> has_peer (ns_streams (node_step msg net protos s ev)) p \<and> writes_to p (node_step msg net protos s ev) = writes_to p s"
proof (cases "ns_running s")
  case True
  have d: "peers_distinct (ns_streams s)" using assms(2) by (simp add: node_wf_def)
  show ?thesis
  proof (cases ev)
    case (Outgoing m)
    have none: "stream_of (ns_streams s) p q = None" for q
      using stream_of_has_peer [of "ns_streams s" p q] assms(3) by (cases "stream_of (ns_streams s) p q") auto
    from broadcast_keeps [OF d assms(1), of msg m] obtain r h w where
      b: "broadcast_message msg net m (ns_streams s) = (r, h, w)" "has_peer h = has_peer (ns_streams s)"
        "\<forall>p. stream_of (ns_streams s) p (protocol msg m) = None \<longrightarrow> filter (\<lambda>x. fst x = p) w = []"
      by (elim exE conjE) (rule that)
    then show ?thesis using Outgoing True assms(3) none by (simp add: node_step_def writes_to_def)
  next
    case (ConnectionEstablished a f)
    then have "a \<noteq> p" using assms(4) by blast
    then show ?thesis
      using ConnectionEstablished True assms(3) open_streams_spec(2) [of "ns_streams s" a protos f p]
      by (cases "has_peer (ns_streams s) a") (auto simp: node_step_def writes_to_def open_streams_known)
  qed (use True assms(3) in \<open>simp_all add: node_step_def writes_to_def streams\<close>)
qed (use assms(3) in \<open>simp add: node_step_def\<close>)

lemma run_silent:
  assumes "completes net" "node_wf protos s" "\<not> has_peer (ns_streams s) p" "never_established p evs"
  shows "\<not> has_peer (ns_streams (node_run msg net protos evs s)) p \<and>
    writes_to p (node_run msg net protos evs s) = writes_to p s"
  using assms(2-)
proof (induction evs arbitrary: s)
  case (Cons ev evs)
  have "ev \<noteq> ConnectionEstablished p f" for f using Cons.prems(3) by (auto simp: never_established_def)
  from step_silent [OF assms(1) Cons.prems(1,2) this, of msg] show ?case
    using Cons.IH [OF node_step_wf(1) [OF assms(1) Cons.prems(1), of msg ev]] Cons.prems(3)
    by (simp add: node_run_simps never_established_def)
qed (simp add: node_run_simps)

lemma step_steady:
  assumes "completes net" "node_wf protos s" "ns_running s" "stream_of (ns_streams s) p proto \<noteq> None"
    and "ev \<noteq> Cancelled" "ev \<noteq> ConnectionClosed p" "\<And>m. protocol msg m = proto" "encodes msg (outgoing [ev])"
    and "\<And>st l. is_ok (send_line net p st l)"
  shows "stream_of (ns_streams (node_step msg net protos s ev)) p proto \<noteq> None \<and>
    writes_to p (node_step msg net protos s ev) = writes_to p s @ map (projr \<circ> to_string msg) (outgoing [ev])"
proof (cases ev)
  case (Outgoing m)
  obtain l where l: "to_string msg m = Inr l" using assms(8) Outgoing by (auto simp: encodes_def outgoing_def)
  obtain st where st: "stream_of (ns_streams s) p proto = Some st" using assms(4) by auto
  obtain st' where st': "send_line net p st l = Inr st'" using assms(9) [of st l] by (cases "send_line net p st l") auto
  have "peers_distinct (ns_streams s)" using assms(2) by (simp add: node_wf_def)
  from broadcast_spec [of _ net msg m l, OF this assms(1) l] obtain h w where
    b: "broadcast_message msg net m (ns_streams s) = (Inr (), h, w)"
      "filter (\<lambda>x. fst x = p) w = (if reached net (ns_streams s) (protocol msg m) l p then [(p, l)] else [])"
      "stream_of h p proto = Some st'"
    using st st' assms(7) by auto
  have "reached net (ns_streams s) (protocol msg m) l p"
    using st assms(7,9) by (auto simp: reached_def)
  then show ?thesis using b assms(3) Outgoing l by (simp add: node_step_def writes_to_def outgoing_def)
next
  case (ConnectionEstablished a f)
  have p: "has_peer (ns_streams s) p" using assms(4) stream_of_has_peer [of "ns_streams s" p proto] by auto
  show ?thesis
  proof (cases "has_peer (ns_streams s) a")
    case False
    then have "stream_of (open_streams protos a f (ns_streams s)) p proto = stream_of (ns_streams s) p proto"
      using p open_streams_spec(1) [OF False, of protos f p proto] by auto
    then show ?thesis using ConnectionEstablished assms(3,4) by (simp add: node_step_def writes_to_def outgoing_def)
  qed (use ConnectionEstablished assms(3,4) in \<open>simp add: node_step_def writes_to_def outgoing_def open_streams_known\<close>)
qed (use assms(3-6) in \<open>auto simp: node_step_def writes_to_def outgoing_def streams\<close>)

lemma run_steady:
  assumes "completes net" "node_wf protos s" "ns_running s" "stream_of (ns_streams s) p proto \<noteq> None"
    and "Cancelled \<notin> set evs" "ConnectionClosed p \<notin> set evs" "\<And>m. protocol msg m = proto" "encodes msg (outgoing evs)"
    and "\<And>st l. is_ok (send_line net p st l)"
  shows "writes_to p (node_run msg net protos evs s) = writes_to p s @ map (projr \<circ> to_string msg) (outgoing evs)"
  using assms(2-6,8)
proof (induction evs arbitrary: s)
  case (Cons ev evs)
  let ?t = "node_step msg net protos s ev"
  have ev: "ev \<noteq> Cancelled" "ev \<noteq> ConnectionClosed p" using Cons.prems(4,5) by auto
  have enc: "encodes msg (outgoing [ev])" "encodes msg (outgoing evs)"
    using Cons.prems(6) by (auto simp: encodes_def outgoing_def)
  note step = step_steady [OF assms(1) Cons.prems(1-3) ev assms(7) enc(1) assms(9)] node_step_wf [OF assms(1) Cons.prems(1), of msg ev]
  have "writes_to p (node_run msg net protos evs ?t) = writes_to p ?t @ map (projr \<circ> to_string msg) (outgoing evs)"
    using step Cons.prems ev enc(2) by (intro Cons.IH) auto
  then show ?case using step by (simp add: node_run_simps outgoing_def)
qed (simp add: node_run_simps outgoing_def)

section \<open>Reading the streams\<close>

text \<open>The messages of a stream up to the first line that cannot be decoded.\<close>

primrec readable :: "'m message_ops \<Rightarrow> (string + string) list \<Rightarrow> 'm list" where
  "readable msg [] = []"
| "readable msg (item # items) =
     (case stream_body msg [] item of (Continue, ms) \<Rightarrow> ms @ readable msg items | (Return _, _) \<Rightarrow> [])"

lemma stream_body_acc:
  "stream_body msg acc item = map_prod id ((@) acc) (stream_body msg [] item)"
  by (auto simp: stream_body_def split: sum.split)

lemma handle_incoming_readable: "snd (handle_incoming_stream msg items) = readable msg items"
proof -
  have "snd (for_in (stream_body msg) items acc) = acc @ readable msg items" for acc
  proof (induction items arbitrary: acc)
    case (Cons item items)
    obtain fl ms where b: "stream_body msg [] item = (fl, ms)" by fastforce
    have "fl \<noteq> Continue \<Longrightarrow> ms = []"
      using b by (auto simp: stream_body_def [of msg "[]" item] split: sum.splits)
    then show ?case using Cons b stream_body_acc [of msg acc item] by (cases fl) simp_all
  qed simp
  from this [of "[]"] show ?thesis
    by (auto simp: handle_incoming_stream_def split: prod.split flow.split)
qed

lemma handle_incoming_all:
  assumes "\<forall>m \<in> set ms. from_str msg (enc m) = Inr m"
  shows "handle_incoming_stream msg (map (Inr \<circ> enc) ms) = (Inr (), ms)"
proof -
  have "for_in (stream_body msg) (map (Inr \<circ> enc) ms) acc = (Continue, acc @ ms)" for acc
    using assms by (induction ms arbitrary: acc) (simp_all add: stream_body_def)
  then show ?thesis by (simp add: handle_incoming_stream_def)
qed

text \<open>The streams a handler accepts before it is cancelled.\<close>

fun accepted :: "incoming_event list \<Rightarrow> (peer_id \<times> (string + string) list) list" where
  "accepted [] = []"
| "accepted (IncomingCancelled # evs) = []"
| "accepted (IncomingStream from items # evs) = (from, items) # accepted evs"
| "accepted (TaskReads i # evs) = accepted evs"

definition received :: "nat \<Rightarrow> 'm incoming_state \<Rightarrow> 'm list" where
  "received i s = map snd (filter (\<lambda>x. fst x = i) (in_channel s))"

text \<open>What has been received of a stream and what its task has still to read make up the stream.\<close>

definition tasks_ok :: "'m message_ops \<Rightarrow> (string + string) list list \<Rightarrow> 'm incoming_state \<Rightarrow> bool" where
  "tasks_ok msg items s \<longleftrightarrow> length items = length (in_tasks s) \<and>
     (\<forall>i < length items. received i s @ readable msg (tk_left (in_tasks s ! i)) = readable msg (items ! i)) \<and>
     (\<forall>i \<ge> length items. received i s = [])"

lemma tasks_ok_read:
  assumes "tasks_ok msg items s"
  shows "tasks_ok msg items (incoming_step msg s (TaskReads i))"
proof (cases "i < length (in_tasks s)")
  case True
  show ?thesis
  proof (cases "tk_left (in_tasks s ! i)")
    case (Cons item rest)
    obtain fl ms where b: "stream_body msg [] item = (fl, ms)" by fastforce
    show ?thesis
    proof (cases fl)
      case Continue
      have "received j (s \<lparr> in_tasks := ts, in_channel := in_channel s @ map (Pair i) ms \<rparr>) =
          received j s @ (if j = i then ms else [])" for j ts
        by (auto simp: received_def filter_empty_conv comp_def)
      then show ?thesis
        using assms True Cons b Continue
        by (auto simp: incoming_step_def tasks_ok_def nth_list_update)
    next
      case (Return e)
      have "received j (s \<lparr> in_tasks := ts \<rparr>) = received j s" for j ts by (simp add: received_def)
      then show ?thesis
        using assms True Cons b Return
        by (auto simp: incoming_step_def tasks_ok_def nth_list_update)
    qed
  qed (use assms True in \<open>simp add: incoming_step_def\<close>)
qed (use assms in \<open>simp add: incoming_step_def\<close>)

lemma tasks_ok_run:
  assumes "tasks_ok msg items s"
  shows "tasks_ok msg (items @ (if in_running s then map snd (accepted evs) else [])) (foldl (incoming_step msg) s evs)"
  using assms
proof (induction evs arbitrary: items s)
  case (Cons ev evs)
  show ?case
  proof (cases ev)
    case IncomingCancelled
    have "tasks_ok msg items (s \<lparr> in_running := False \<rparr>)"
      using Cons.prems by (simp add: tasks_ok_def received_def)
    from Cons.IH [OF this] show ?thesis using IncomingCancelled by (simp add: incoming_step_def)
  next
    case (IncomingStream src its)
    show ?thesis
    proof (cases "in_running s")
      case True
      let ?t = "s \<lparr> in_tasks := in_tasks s @ [\<lparr> tk_peer = src, tk_left = its \<rparr>] \<rparr>"
      have r: "received j ?t = received j s" for j by (simp add: received_def)
      have "tasks_ok msg (items @ [its]) ?t"
        using Cons.prems unfolding tasks_ok_def r by (auto simp: nth_append less_Suc_eq)
      from Cons.IH [OF this] show ?thesis using IncomingStream True by (simp add: incoming_step_def)
    next
      case False
      then show ?thesis using Cons.IH [OF Cons.prems] IncomingStream by (simp add: incoming_step_def)
    qed
  next
    case (TaskReads i)
    have "in_running (incoming_step msg s (TaskReads i)) = in_running s"
      by (auto simp: incoming_step_def split: list.split prod.split flow.split)
    then show ?thesis using Cons.IH [OF tasks_ok_read [OF Cons.prems, of i]] TaskReads by (cases "in_running s") simp_all
  qed
qed simp

text \<open>Whatever the order in which the tasks read, the channel holds of each stream a beginning of its messages, in order.\<close>

lemma tasks_ok_incoming: "tasks_ok msg (map snd (accepted evs)) (incoming_run msg evs)"
proof -
  have "tasks_ok msg [] \<lparr> in_running = True, in_tasks = [], in_channel = [] \<rparr>"
    by (simp add: tasks_ok_def received_def)
  from tasks_ok_run [OF this, of evs] show ?thesis by (simp add: incoming_run_def)
qed

lemma incoming_in_order:
  assumes "i < length (accepted evs)"
  shows "\<exists>rest. received i (incoming_run msg evs) @ rest = snd (handle_incoming_stream msg (snd (accepted evs ! i)))"
  using tasks_ok_incoming [of msg evs] assms by (auto simp: tasks_ok_def handle_incoming_readable)

text \<open>And all of them once its task has nothing left to read.\<close>

lemma incoming_complete:
  assumes "i < length (accepted evs)" "tk_left (in_tasks (incoming_run msg evs) ! i) = []"
  shows "received i (incoming_run msg evs) = snd (handle_incoming_stream msg (snd (accepted evs ! i)))"
  using tasks_ok_incoming [of msg evs] assms by (force simp: tasks_ok_def handle_incoming_readable)

section \<open>Laws of the libraries\<close>

text \<open>Encoding to JSON never fails, puts no line break into the text, and decoding undoes it. Splitting into lines
  undoes ending each line with a line break.\<close>

definition line_break :: char where
  "line_break = CHR 0x0A"

text \<open>These messages can be encoded into a line and decoded from it.\<close>

definition serde_law :: "'m message_ops \<Rightarrow> 'm list \<Rightarrow> bool" where
  "serde_law msg ms \<longleftrightarrow>
     (\<forall>m \<in> set ms. \<exists>l. to_string msg m = Inr l \<and> line_break \<notin> set l \<and> from_str msg l = Inr m)"

record lines_codec =
  line_encode :: "string \<Rightarrow> string"
  lines_decode :: "string \<Rightarrow> (string + string) list"

definition lines_law :: "lines_codec \<Rightarrow> bool" where
  "lines_law codec \<longleftrightarrow> (\<forall>ls. (\<forall>l \<in> set ls. line_break \<notin> set l) \<longrightarrow>
     lines_decode codec (concat (map (line_encode codec) ls)) = map Inr ls)"

text \<open>What a peer reads is what was written to it, split into lines.\<close>

definition wire :: "lines_codec \<Rightarrow> string list \<Rightarrow> (string + string) list" where
  "wire codec ls = lines_decode codec (concat (map (line_encode codec) ls))"

lemma wire_messages:
  assumes "serde_law msg ms" "lines_law codec"
  shows "handle_incoming_stream msg (wire codec (map (projr \<circ> to_string msg) ms)) = (Inr (), ms)"
proof -
  let ?enc = "projr \<circ> to_string msg"
  have enc: "line_break \<notin> set (?enc m) \<and> from_str msg (?enc m) = Inr m" if "m \<in> set ms" for m
    using assms(1) that unfolding serde_law_def by (metis comp_apply sum.sel(2))
  then have "wire codec (map ?enc ms) = map (Inr \<circ> ?enc) ms"
    using assms(2) [unfolded lines_law_def, rule_format, of "map ?enc ms"] by (auto simp: wire_def)
  then show ?thesis using handle_incoming_all [of ms msg ?enc] enc by simp
qed

lemma serde_encodes: "serde_law msg ms \<Longrightarrow> encodes msg ms"
  by (auto simp: serde_law_def encodes_def)

section \<open>A sample node\<close>

text \<open>Addresses are lists of components, messages numbers written in unary, and writes complete in reverse order.\<close>

definition demo_ma :: "addr_part list multiaddr_ops" where
  "demo_ma = \<lparr> ma_pop = (\<lambda>a. if a = [] then (None, []) else (Some (last a), butlast a)), ma_iter = id,
     ma_with_p2p = (\<lambda>a p. if a \<noteq> [] \<and> last a = P2pPart p then Inr a else Inr (a @ [P2pPart p])),
     ma_unspecified = (\<lambda>port. [OtherPart ''tcp'']) \<rparr>"

definition demo_build_env :: "unit build_env" where
  "demo_build_env = \<lparr> be_hex_decode = (\<lambda>_. Inl ''hex''), be_keypair_from_bytes = (\<lambda>_. Inr ()), be_generated_keypair = (),
     be_peer_id = (\<lambda>_. [7]), be_transport = (\<lambda>_. Inr ()), be_behaviour = (\<lambda>_ _ _. Inr ()), be_accept = (\<lambda>_. Inr ()),
     be_swarm = (\<lambda>_. Inr ()) \<rparr>"

definition demo_protocol :: stream_protocol where
  "demo_protocol = ''/flashblocks/1.0.0''"

definition demo_node_builder :: "addr_part list node_builder" where
  "demo_node_builder = with_known_peers [[OtherPart ''ip4'', P2pPart [1]]]
     (with_protocol demo_protocol (with_agent_version ''op-rbuilder/1.0.0'' builder_new))"

definition demo_swarm :: "addr_part list swarm_start" where
  "demo_swarm = \<lparr> sw_listen_on = (\<lambda>_. Inr ()), sw_dial = (\<lambda>_. Inr ()) \<rparr>"

definition demo_net :: "nat net" where
  "demo_net = \<lparr> send_line = (\<lambda>_ st _. Inr (st + 1)), completion = rev \<rparr>"

definition demo_msg :: "nat message_ops" where
  "demo_msg = \<lparr> protocol = (\<lambda>_. demo_protocol), to_string = (\<lambda>n. Inr (replicate n CHR ''x'')), from_str = (\<lambda>l. Inr (length l)) \<rparr>"

fun split_lines :: "string \<Rightarrow> string \<Rightarrow> (string + string) list" where
  "split_lines acc [] = (if acc = [] then [] else [Inr acc])"
| "split_lines acc (c # cs) = (if c = line_break then Inr acc # split_lines [] cs else split_lines (acc @ [c]) cs)"

definition demo_codec :: lines_codec where
  "demo_codec = \<lparr> line_encode = (\<lambda>l. l @ [line_break]), lines_decode = split_lines [] \<rparr>"

definition demo_node :: "(addr_part list, nat) node" where
  "demo_node = \<lparr> nd_peer_id = [7], nd_listen_addrs = [[OtherPart ''tcp'']], nd_known_peers = [[OtherPart ''ip4'', P2pPart [1]]],
     nd_outgoing_streams = streams_new, nd_incoming_handlers = [demo_protocol], nd_protocols = [demo_protocol] \<rparr>"

definition demo_node_state :: "(addr_part list, nat) node_state" where
  "demo_node_state = \<lparr> ns_known_peers_info = [([1], [OtherPart ''ip4''])], ns_streams = streams_new,
     ns_actions = [ListenOn [OtherPart ''tcp''], AddPeerAddress [1] [OtherPart ''ip4''], Dial [OtherPart ''ip4'']],
     ns_written = [], ns_running = True \<rparr>"

lemma split_line: "line_break \<notin> set l \<Longrightarrow> split_lines acc (l @ line_break # cs) = Inr (acc @ l) # split_lines [] cs"
  by (induction l arbitrary: acc) auto

lemma demo_laws: "completes demo_net" "serde_law demo_msg ns" "lines_law demo_codec"
proof -
  show "completes demo_net" by (simp add: completes_def demo_net_def)
  show "serde_law demo_msg ns" by (simp add: serde_law_def demo_msg_def line_break_def)
  have "\<forall>l \<in> set ls. line_break \<notin> set l \<Longrightarrow> split_lines [] (concat (map (\<lambda>l. l @ [line_break]) ls)) = map Inr ls" for ls
    by (induction ls) (simp_all add: split_line)
  then show "lines_law demo_codec" by (simp add: lines_law_def demo_codec_def)
qed

lemma demo_built: "try_build demo_build_env demo_ma demo_node_builder = Inr (demo_node, [(demo_protocol, 0)])"
  by (simp add: try_build_def demo_build_env_def demo_ma_def demo_node_builder_def demo_node_def keypair_of_def
      accept_step_def listen_addrs_of_def with_known_peers_def with_protocol_def with_agent_version_def builder_new_def)

lemma demo_started: "node_start demo_ma demo_swarm demo_node = (Inr (), demo_node_state)"
  by (simp add: node_start_def start_listen_def start_dial_def demo_ma_def demo_swarm_def demo_node_def demo_node_state_def)

lemma demo_protocols: "nb_protocols demo_node_builder = [demo_protocol]" "nd_protocols demo_node = [demo_protocol]"
  by (simp_all add: demo_node_builder_def with_known_peers_def with_protocol_def with_agent_version_def builder_new_def demo_node_def)

section \<open>Properties\<close>

lemma node_start_wf:
  assumes "try_build env ma b = Inr (node, rxs)" "node_start ma sw node = (Inr (), s)"
  shows "node_wf protos s" "ns_running s" "ns_written s = []" "\<not> has_peer (ns_streams s) p"
proof -
  have "nd_outgoing_streams node = streams_new" using assms(1) by (rule try_build_cases)
  then show "node_wf protos s" "ns_running s" "ns_written s = []" "\<not> has_peer (ns_streams s) p"
    using node_start_ok [OF assms(2)] by (simp_all add: node_wf_def streams)
qed

text \<open>C27: A node that has been built and started runs until it is cancelled: no event, no failing send and no message
  that cannot be encoded ends its loop or makes it panic. At every moment it has at most one entry for a peer, and only
  streams of the protocols it was built with. The order in which writes complete is arbitrary.\<close>

theorem node_runs_until_cancelled:
  assumes "try_build env ma b = Inr (node, rxs)" and "node_start ma sw node = (Inr (), s)" and "completes net"
  shows "let s' = node_run msg net (nd_protocols node) evs s in
    (ns_running s' \<longleftrightarrow> Cancelled \<notin> set evs) \<and> distinct (map fst (peers_to_stream (ns_streams s'))) \<and>
    (\<forall>p q. stream_of (ns_streams s') p q \<noteq> None \<longrightarrow> q \<in> set (nb_protocols b))"
proof -
  have "nd_protocols node = nb_protocols b" using assms(1) by (rule try_build_cases)
  then show ?thesis
    using node_run_wf [OF assms(3) node_start_wf(1) [OF assms(1,2)], of "nd_protocols node" msg evs]
      node_start_wf(2) [OF assms(1,2)]
    by (simp add: node_wf_def peers_distinct_def)
qed

theorem node_runs_until_cancelled_witness:
  "ns_running (node_run demo_msg demo_net [demo_protocol] [ConnectionEstablished [1] (\<lambda>_. Inr 5), Outgoing 3, RetryTick []]
     demo_node_state)"
  using node_runs_until_cancelled [OF demo_built demo_started demo_laws(1),
      of demo_msg "[ConnectionEstablished [1] (\<lambda>_. Inr 5), Outgoing 3, RetryTick []]"]
  by (simp add: demo_protocols Let_def)

text \<open>What a peer reads from the stream of a connection that stays open.\<close>

lemma connected_peer_reads:
  assumes "try_build env ma b = Inr (node, rxs)" and "node_start ma sw node = (Inr (), s)" and "completes net"
    and "\<forall>st l. is_ok (send_line net p st l)" and "\<forall>m. protocol msg m = proto" and "proto \<in> set (nb_protocols b)"
    and "serde_law msg (outgoing evs)" and "lines_law codec"
    and "never_established p before" and "Cancelled \<notin> set before" and "open_stream proto = Inr st"
    and "Cancelled \<notin> set evs" and "ConnectionClosed p \<notin> set evs"
    and "stream = wire codec (writes_to p
      (node_run msg net (nb_protocols b) (before @ ConnectionEstablished p open_stream # evs) s))"
  shows "handle_incoming_stream msg stream = (Inr (), outgoing evs)"
proof -
  let ?run = "node_run msg net (nb_protocols b)"
  have start: "node_wf (nb_protocols b) s" "ns_running s" "ns_written s = []" "\<not> has_peer (ns_streams s) p"
    by (rule node_start_wf [OF assms(1,2)])+
  let ?s1 = "?run before s"
  let ?s2 = "node_step msg net (nb_protocols b) ?s1 (ConnectionEstablished p open_stream)"
  have s1: "node_wf (nb_protocols b) ?s1" "ns_running ?s1"
    using node_run_wf [OF assms(3) start(1), of msg before] start(2) assms(10) by auto
  have silent: "\<not> has_peer (ns_streams ?s1) p" "writes_to p ?s1 = []"
    using run_silent [OF assms(3) start(1,4) assms(9), of msg] start(3) by (auto simp: writes_to_def)
  have s2: "node_wf (nb_protocols b) ?s2" "ns_running ?s2"
    using node_step_wf [OF assms(3) s1(1), of msg "ConnectionEstablished p open_stream"] s1(2) by auto
  have "stream_of (ns_streams ?s2) p proto \<noteq> None" "writes_to p ?s2 = []"
    using open_streams_spec(1) [OF silent(1), of "nb_protocols b" open_stream p proto] silent(2) s1(2) assms(6,11)
    by (auto simp: node_step_def writes_to_def)
  then have "writes_to p (?run evs ?s2) = map (projr \<circ> to_string msg) (outgoing evs)"
    using run_steady [OF assms(3) s2 _ assms(12,13) _ serde_encodes [OF assms(7)]] assms(4,5) by auto
  then show ?thesis using wire_messages [OF assms(7,8)] assms(14) by (simp add: node_run_simps)
qed

text \<open>C28: Messages reach a peer in order and completely: from the moment a connection to a peer is established and a stream
  has been opened on it, the peer reads from that stream exactly the messages the node was given to broadcast, as long as the
  connection is not closed, whatever else happens on the network. And however the tasks that read the peer's incoming streams
  interleave, the peer's channel holds a beginning of these messages, in order. Writing to the stream is taken not to fail;
  JSON encoding and splitting into lines are taken to be undone by decoding.\<close>

theorem broadcast_arrives_in_order:
  assumes "try_build env ma b = Inr (node, rxs)" and "node_start ma sw node = (Inr (), s)" and "completes net"
    and "\<forall>st l. is_ok (send_line net p st l)" and "\<forall>m. protocol msg m = proto" and "proto \<in> set (nb_protocols b)"
    and "serde_law msg (outgoing evs)" and "lines_law codec"
    and "never_established p before" and "Cancelled \<notin> set before" and "open_stream proto = Inr st"
    and "Cancelled \<notin> set evs" and "ConnectionClosed p \<notin> set evs"
    and "stream = wire codec (writes_to p
      (node_run msg net (nb_protocols b) (before @ ConnectionEstablished p open_stream # evs) s))"
  shows "handle_incoming_stream msg stream = (Inr (), outgoing evs) \<and>
    (\<forall>revs i. i < length (accepted revs) \<longrightarrow> snd (accepted revs ! i) = stream \<longrightarrow>
       (\<exists>rest. received i (incoming_run msg revs) @ rest = outgoing evs))"
  using connected_peer_reads [OF assms] incoming_in_order [of _ _ msg] by (metis snd_conv)

theorem broadcast_arrives_in_order_witness:
  "handle_incoming_stream demo_msg (wire demo_codec (writes_to [1] (node_run demo_msg demo_net [demo_protocol]
     [RetryTick [], ConnectionEstablished [1] (\<lambda>_. Inr 5), Outgoing 3, ConnectionClosed [2], Outgoing 4] demo_node_state)))
   = (Inr (), [3, 4])"
proof -
  have "outgoing [Outgoing 3, ConnectionClosed [2], Outgoing (4 :: nat) :: (addr_part list, nat, nat) node_event] = [3, 4]"
    by (simp add: outgoing_def)
  then show ?thesis
    using broadcast_arrives_in_order [OF demo_built demo_started demo_laws(1) _ _ _ demo_laws(2,3),
        of "[1]" demo_protocol "[RetryTick []]" "\<lambda>_. Inr 5" 5 "[Outgoing 3, ConnectionClosed [2], Outgoing 4]"]
    by (simp add: demo_protocols demo_net_def demo_msg_def never_established_def)
qed

text \<open>The swarm reports a peer as connected throughout a history.\<close>

definition stays_connected :: "peer_id \<Rightarrow> ('a, 's, 'm) node_event list \<Rightarrow> bool" where
  "stays_connected p evs \<longleftrightarrow>
     (\<forall>c. RetryTick c \<in> set evs \<longrightarrow> p \<in> set c) \<and> (\<forall>c d. MdnsDiscovered c d \<in> set evs \<longrightarrow> p \<in> set c)"

definition dials :: "peer_id \<Rightarrow> 'a swarm_action list \<Rightarrow> bool" where
  "dials p actions \<longleftrightarrow> DialPeer p \<in> set actions \<or> (\<exists>addr. AddPeerAddress p addr \<in> set actions)"

lemma run_no_dials:
  "stays_connected p evs \<Longrightarrow>
   \<exists>actions. ns_actions (node_run msg net protos evs s) = ns_actions s @ actions \<and> \<not> dials p actions"
proof (induction evs arbitrary: s)
  case (Cons ev evs)
  let ?t = "node_step msg net protos s ev"
  have "\<exists>a. ns_actions ?t = ns_actions s @ a \<and> \<not> dials p a"
    using Cons.prems
    by (cases ev) (auto simp: node_step_def stays_connected_def dials_def retry_dials_def handle_discovered_def
      split: prod.split if_splits)
  moreover have "stays_connected p evs" using Cons.prems by (auto simp: stays_connected_def)
  note Cons.IH [OF this, of ?t]
  ultimately show ?case by (auto simp: node_run_simps dials_def)
qed (simp add: node_run_simps dials_def)

text \<open>C29: After a connection to a peer has been closed the node has no stream to it until a connection is established anew,
  even if another connection to the same peer has been open all along: nothing is written to it, and as long as the swarm
  reports the peer as connected, neither the retry timer nor discovery dials it again.\<close>

theorem closed_connection_silences_peer:
  assumes "try_build env ma b = Inr (node, rxs)" and "node_start ma sw node = (Inr (), s)" and "completes net"
    and "Cancelled \<notin> set before" and "never_established p evs" and "stays_connected p evs"
    and "s1 = node_run msg net (nb_protocols b) (before @ [ConnectionClosed p]) s"
    and "s2 = node_run msg net (nb_protocols b) evs s1"
  shows "writes_to p s2 = writes_to p s1 \<and> (\<exists>actions. ns_actions s2 = ns_actions s1 @ actions \<and> \<not> dials p actions)"
proof -
  have start: "node_wf (nb_protocols b) s" "ns_running s" "ns_written s = []" "\<not> has_peer (ns_streams s) p"
    by (rule node_start_wf [OF assms(1,2)])+
  let ?s0 = "node_run msg net (nb_protocols b) before s"
  have s0: "node_wf (nb_protocols b) ?s0" "ns_running ?s0"
    using node_run_wf [OF assms(3) start(1), of msg before] start(2) assms(4) by auto
  have s1: "s1 = node_step msg net (nb_protocols b) ?s0 (ConnectionClosed p)"
    using assms(7) by (simp add: node_run_simps)
  have "node_wf (nb_protocols b) s1" unfolding s1 by (rule node_step_wf(1) [OF assms(3) s0(1)])
  moreover have "\<not> has_peer (ns_streams s1) p" unfolding s1 using s0(2) by (simp add: node_step_def streams)
  ultimately show ?thesis
    using run_silent [OF assms(3) _ _ assms(5), of "nb_protocols b" s1 msg]
      run_no_dials [OF assms(6), of msg net "nb_protocols b" s1] assms(8) by simp
qed

theorem closed_connection_silences_peer_witness:
  "writes_to [1] (node_run demo_msg demo_net [demo_protocol] [RetryTick [[1]], Outgoing 4]
     (node_run demo_msg demo_net [demo_protocol]
        [ConnectionEstablished [1] (\<lambda>_. Inr 5), ConnectionEstablished [1] (\<lambda>_. Inr 6), Outgoing 3, ConnectionClosed [1]]
        demo_node_state)) = [''xxx'']"
proof -
  let ?before = "[ConnectionEstablished [1] (\<lambda>_. Inr 5), ConnectionEstablished [1] (\<lambda>_. Inr 6), Outgoing 3]"
  have "writes_to [1] (node_run demo_msg demo_net [demo_protocol] (?before @ [ConnectionClosed [1]]) demo_node_state) = [''xxx'']"
    by (simp add: node_run_simps node_step_def demo_node_state_def open_streams_def has_peer_def streams_new_def
        insert_peer_and_stream_def broadcast_message_def demo_msg_def demo_net_def take_stream_def put_back_def demo_protocol_def
        writes_to_def numeral_eq_Suc)
  then show ?thesis
    using closed_connection_silences_peer [OF demo_built demo_started demo_laws(1) _ _ _ refl refl,
        of ?before "[1]" "[RetryTick [[1]], Outgoing 4]" demo_msg]
    by (simp add: demo_protocols never_established_def stays_connected_def)
qed

end
