(* ===== verification/Ws_Publisher.thy ===== *)
theory Ws_Publisher
  imports Prelude
begin

text \<open>
  The websocket publisher (\<^verbatim>\<open>builders/flashblocks/wspub.rs\<close>) as a state machine: the publisher, the
  loop that accepts connections, and one task per connection, with the counters they share. A step is one atomic
  action of one of them, so that every interleaving of the tasks is a sequence of steps. Sockets and the broadcast channel
  belong to libraries; what they answer comes with the events. Whether the channel accepts a message depends on the number
  of its receivers and is an argument.
\<close>

section \<open>Model\<close>

text \<open>A task first checks the limit, then counts itself, then runs its loop, and finally uncounts itself.\<close>

datatype conn_phase = Spawned | Passed | Registered | Streaming | Leaving | Gone | Rejected

record ws_conn =
  cn_phase :: conn_phase
  cn_out :: "string list"

record ws_state =
  ws_sent :: u64
  ws_subs :: u64
  ws_term :: bool
  ws_listening :: bool
  ws_accepting :: bool
  ws_handshaking :: bool
  ws_conns :: "ws_conn list"

datatype recv_result = Payload string | ChannelClosed | Lagged

datatype socket_message = CloseFrame | SocketError | OtherMessage | EndOfStream

datatype ws_event =
  DropPublisher
| ListenerSeesTerm
| Accept
| AcceptError
| Handshake bool
| CheckLimit nat
| Register nat
| StartLoop nat bool
| ConnSeesTerm nat
| Receive nat recv_result bool
| SocketRead nat socket_message
| Unregister nat

definition ws_new :: ws_state where
  "ws_new = \<lparr> ws_sent = 0, ws_subs = 0, ws_term = False, ws_listening = True, ws_accepting = True,
     ws_handshaking = False, ws_conns = [] \<rparr>"

definition holds_receiver :: "ws_conn \<Rightarrow> bool" where
  "holds_receiver c = (case cn_phase c of
     Spawned \<Rightarrow> True | Passed \<Rightarrow> True | Registered \<Rightarrow> True | Streaming \<Rightarrow> True | Leaving \<Rightarrow> False | Gone \<Rightarrow> False | Rejected \<Rightarrow> False)"

text \<open>The receivers of the channel: that of the accepting loop, which is never read, that of a connection in its
  handshake, and those of the tasks.\<close>

definition receivers :: "ws_state \<Rightarrow> nat" where
  "receivers s = of_bool (ws_listening s) + of_bool (ws_handshaking s) + length (filter holds_receiver (ws_conns s))"

definition publish :: "(nat \<Rightarrow> bool) \<Rightarrow> ws_state \<Rightarrow> string + string \<Rightarrow> string + nat" where
  "publish pipe_accepts s serialized =
     and_then serialized (\<lambda>utf8_bytes.
       if pipe_accepts (receivers s) then Inr (length utf8_bytes) else Inl ''ConnectionAborted'')"

definition set_phase :: "ws_state \<Rightarrow> nat \<Rightarrow> conn_phase \<Rightarrow> ws_state" where
  "set_phase s i ph = s \<lparr> ws_conns := (ws_conns s)[i := (ws_conns s ! i) \<lparr> cn_phase := ph \<rparr>] \<rparr>"

definition in_phase :: "ws_state \<Rightarrow> nat \<Rightarrow> conn_phase \<Rightarrow> bool" where
  "in_phase s i ph \<longleftrightarrow> i < length (ws_conns s) \<and> cn_phase (ws_conns s ! i) = ph"

text \<open>The loop that accepts connections does the handshake itself, before it looks at the next connection or at the
  termination signal. An error of \<^verbatim>\<open>accept\<close> does not match the pattern of its branch of
  \<^verbatim>\<open>select!\<close>, which disables the branch until another one is taken; the only other one is the termination
  signal.\<close>

definition listener_step :: "ws_state \<Rightarrow> ws_event \<Rightarrow> ws_state" where
  "listener_step s ev =
     (case ev of
        ListenerSeesTerm \<Rightarrow>
          if ws_listening s \<and> \<not> ws_handshaking s \<and> ws_term s then s \<lparr> ws_listening := False \<rparr> else s
      | Accept \<Rightarrow>
          if ws_listening s \<and> ws_accepting s \<and> \<not> ws_handshaking s then s \<lparr> ws_handshaking := True \<rparr> else s
      | AcceptError \<Rightarrow>
          if ws_listening s \<and> \<not> ws_handshaking s then s \<lparr> ws_accepting := False \<rparr> else s
      | Handshake ok \<Rightarrow>
          if ws_handshaking s
          then (if ok
                then s \<lparr> ws_handshaking := False, ws_conns := ws_conns s @ [\<lparr> cn_phase = Spawned, cn_out = [] \<rparr>] \<rparr>
                else s \<lparr> ws_handshaking := False \<rparr>)
          else s
      | _ \<Rightarrow> s)"

text \<open>The listener's task first prepares the socket it was given, and panics if the socket refuses: the task ends, and its receiver is
  gone. The runs below start from a socket that does not.\<close>

definition listener_start :: "string + unit \<Rightarrow> string + unit \<Rightarrow> string + unit \<Rightarrow> ws_state \<Rightarrow> string + ws_state" where
  "listener_start set_nonblocking from_std local_addr s =
     and_then (map_err (\<lambda>_. ''Failed to set TcpListener socket to non-blocking'') set_nonblocking) (\<lambda>_.
     and_then (map_err (\<lambda>_. ''Failed to convert TcpListener to tokio TcpListener'') from_std) (\<lambda>_.
     and_then (map_err (\<lambda>_. ''Failed to get local address of listener'') local_addr) (\<lambda>_. Inr s)))"

definition listener_task_start :: "string + unit \<Rightarrow> string + unit \<Rightarrow> string + unit \<Rightarrow> ws_state \<Rightarrow> ws_state" where
  "listener_task_start set_nonblocking from_std local_addr s =
     (case listener_start set_nonblocking from_std local_addr s of Inl _ \<Rightarrow> s \<lparr> ws_listening := False \<rparr> | Inr s' \<Rightarrow> s')"

definition broadcast_step :: "ws_state \<Rightarrow> ws_event \<Rightarrow> ws_state" where
  "broadcast_step s ev =
     (case ev of
        StartLoop i has_addr \<Rightarrow>
          if in_phase s i Registered then set_phase s i (if has_addr then Streaming else Leaving) else s
      | ConnSeesTerm i \<Rightarrow> if in_phase s i Streaming \<and> ws_term s then set_phase s i Leaving else s
      | Receive i res sent_ok \<Rightarrow>
          if \<not> in_phase s i Streaming then s
          else (case res of
                  Payload payload \<Rightarrow>
                    (let s' = s \<lparr> ws_sent := ws_sent s + 1 \<rparr> in
                     if sent_ok
                     then s' \<lparr> ws_conns := (ws_conns s')[i := (ws_conns s' ! i) \<lparr> cn_out := cn_out (ws_conns s' ! i) @ [payload] \<rparr>] \<rparr>
                     else set_phase s' i Leaving)
                | ChannelClosed \<Rightarrow> set_phase s i Leaving
                | Lagged \<Rightarrow> s)
      | SocketRead i message \<Rightarrow>
          if \<not> in_phase s i Streaming then s
          else (case message of
                  CloseFrame \<Rightarrow> set_phase s i Leaving
                | SocketError \<Rightarrow> set_phase s i Leaving
                | OtherMessage \<Rightarrow> s
                | EndOfStream \<Rightarrow> s)
      | _ \<Rightarrow> s)"

definition task_step :: "u16 option \<Rightarrow> ws_state \<Rightarrow> ws_event \<Rightarrow> ws_state" where
  "task_step subscriber_limit s ev =
     (case ev of
        CheckLimit i \<Rightarrow>
          if in_phase s i Spawned
          then set_phase s i (if is_some_and subscriber_limit (\<lambda>limit. ucast limit \<le> ws_subs s) then Rejected else Passed)
          else s
      | Register i \<Rightarrow> if in_phase s i Passed then (set_phase s i Registered) \<lparr> ws_subs := ws_subs s + 1 \<rparr> else s
      | Unregister i \<Rightarrow> if in_phase s i Leaving then (set_phase s i Gone) \<lparr> ws_subs := ws_subs s - 1 \<rparr> else s
      | _ \<Rightarrow> broadcast_step s ev)"

definition ws_step :: "u16 option \<Rightarrow> ws_state \<Rightarrow> ws_event \<Rightarrow> ws_state" where
  "ws_step subscriber_limit s ev =
     (case ev of
        DropPublisher \<Rightarrow> s \<lparr> ws_term := True \<rparr>
      | ListenerSeesTerm \<Rightarrow> listener_step s ev
      | Accept \<Rightarrow> listener_step s ev
      | AcceptError \<Rightarrow> listener_step s ev
      | Handshake ok \<Rightarrow> listener_step s ev
      | _ \<Rightarrow> task_step subscriber_limit s ev)"

definition ws_run :: "u16 option \<Rightarrow> ws_event list \<Rightarrow> ws_state" where
  "ws_run subscriber_limit evs = foldl (ws_step subscriber_limit) ws_new evs"

text \<open>A listener that could not start leaves the publisher without receivers, and nothing can be published; one that could changes nothing.\<close>

lemma listener_start_decides:
  assumes "s = listener_task_start a b c ws_new" "\<And>n. pipe_accepts n \<longleftrightarrow> 0 < n"
  shows "is_ok (publish pipe_accepts s (Inr bs)) \<longleftrightarrow> is_ok a \<and> is_ok b \<and> is_ok c" "is_ok a \<and> is_ok b \<and> is_ok c \<Longrightarrow> s = ws_new"
  using assms by (cases a; cases b; cases c; simp add: listener_task_start_def listener_start_def publish_def receivers_def ws_new_def)+

section \<open>Counting\<close>

definition counted :: "ws_conn \<Rightarrow> bool" where
  "counted c \<longleftrightarrow> cn_phase c \<in> {Registered, Streaming, Leaving}"

lemma length_filter_update:
  "i < length cs \<Longrightarrow> length (filter P (cs[i := c])) + of_bool (P (cs ! i)) = length (filter P cs) + of_bool (P c)"
proof (induction cs arbitrary: i)
  case (Cons a cs)
  then show ?case by (cases i) auto
qed simp

definition ws_inv :: "ws_state \<Rightarrow> bool" where
  "ws_inv s \<longleftrightarrow> ws_subs s = of_nat (length (filter counted (ws_conns s))) \<and> (ws_term s \<or> ws_listening s)"

lemma ws_inv_set_phase:
  assumes "ws_inv s" "in_phase s i ph"
  shows "ws_inv ((set_phase s i ph') \<lparr> ws_subs := ws_subs s + of_bool (ph' \<in> {Registered, Streaming, Leaving})
    - of_bool (ph \<in> {Registered, Streaming, Leaving}) \<rparr>)"
proof -
  let ?c = "(ws_conns s ! i) \<lparr> cn_phase := ph' \<rparr>"
  have "length (filter counted ((ws_conns s)[i := ?c])) + of_bool (ph \<in> {Registered, Streaming, Leaving}) =
      length (filter counted (ws_conns s)) + of_bool (ph' \<in> {Registered, Streaming, Leaving})"
    using length_filter_update [of i "ws_conns s" counted ?c] assms(2) by (simp add: in_phase_def counted_def)
  from arg_cong [OF this, of "of_nat :: nat \<Rightarrow> u64"]
  have "of_nat (length (filter counted ((ws_conns s)[i := ?c]))) + of_bool (ph \<in> {Registered, Streaming, Leaving}) =
      (of_nat (length (filter counted (ws_conns s))) + of_bool (ph' \<in> {Registered, Streaming, Leaving}) :: u64)"
    by (simp only: of_nat_add of_nat_of_bool)
  from add_implies_diff [OF this] show ?thesis
    using assms(1) by (simp add: ws_inv_def set_phase_def)
qed

text \<open>A step changes the phase of one task along its course, appends a task, or leaves the tasks alone.\<close>

lemma ws_inv_move:
  assumes "ws_inv s" "in_phase s i ph" "ph \<in> {Registered, Streaming, Leaving} \<longleftrightarrow> ph' \<in> {Registered, Streaming, Leaving}"
  shows "ws_inv (set_phase s i ph')"
proof -
  have "(set_phase s i ph') \<lparr> ws_subs := ws_subs s \<rparr> = set_phase s i ph'" by (simp add: set_phase_def)
  then show ?thesis using ws_inv_set_phase [OF assms(1,2), of ph'] assms(3) by auto
qed

lemma ws_inv_step:
  assumes "ws_inv s"
  shows "ws_inv (ws_step lim s ev)"
proof (cases ev)
  case (Register i)
  then show ?thesis
    using assms ws_inv_set_phase [OF assms, of i Passed Registered] by (simp add: ws_step_def task_step_def)
next
  case (Unregister i)
  then show ?thesis
    using assms ws_inv_set_phase [OF assms, of i Leaving Gone] by (simp add: ws_step_def task_step_def)
next
  case (CheckLimit i)
  then show ?thesis
    using assms ws_inv_move [OF assms, of i Spawned] by (simp add: ws_step_def task_step_def)
next
  case (StartLoop i ok)
  then show ?thesis
    using assms ws_inv_move [OF assms, of i Registered] by (simp add: ws_step_def task_step_def broadcast_step_def)
next
  case (ConnSeesTerm i)
  then show ?thesis
    using assms ws_inv_move [OF assms, of i Streaming] by (simp add: ws_step_def task_step_def broadcast_step_def)
next
  case (SocketRead i m)
  then show ?thesis
    using assms ws_inv_move [OF assms, of i Streaming]
    by (simp add: ws_step_def task_step_def broadcast_step_def split: socket_message.split)
next
  case (Receive i res ok)
  let ?s = "s \<lparr> ws_sent := ws_sent s + 1 \<rparr>"
  have s': "ws_inv ?s" "in_phase ?s i ph = in_phase s i ph" for ph using assms by (simp_all add: ws_inv_def in_phase_def)
  have out: "ws_inv (?s \<lparr> ws_conns := (ws_conns s)[i := (ws_conns s ! i) \<lparr> cn_out := o' \<rparr>] \<rparr>)"
    if "in_phase s i Streaming" for o'
    using that assms length_filter_update [of i "ws_conns s" counted "(ws_conns s ! i) \<lparr> cn_out := o' \<rparr>"]
    by (simp add: ws_inv_def in_phase_def counted_def)
  show ?thesis
    using Receive assms ws_inv_move [OF assms, of i Streaming] ws_inv_move [OF s'(1), of i Streaming] s'(2) out
    by (simp add: ws_step_def task_step_def broadcast_step_def Let_def split: recv_result.split)
qed (use assms in \<open>auto simp: ws_step_def listener_step_def ws_inv_def counted_def\<close>)

lemma ws_inv_run: "ws_inv (ws_run lim evs)"
proof -
  have "ws_inv s \<Longrightarrow> ws_inv (foldl (ws_step lim) s evs)" for s
    by (induction evs arbitrary: s) (simp_all add: ws_inv_step)
  moreover have "ws_inv ws_new" by (simp add: ws_inv_def ws_new_def)
  ultimately show ?thesis by (simp add: ws_run_def)
qed

lemma ws_run_append: "ws_run lim (evs @ evs') = foldl (ws_step lim) (ws_run lim evs) evs'"
  by (simp add: ws_run_def)

lemma set_phase_sel [simp]:
  "ws_term (set_phase s i ph) = ws_term s" "ws_listening (set_phase s i ph) = ws_listening s"
  "ws_accepting (set_phase s i ph) = ws_accepting s" "ws_handshaking (set_phase s i ph) = ws_handshaking s"
  "ws_subs (set_phase s i ph) = ws_subs s" "length (ws_conns (set_phase s i ph)) = length (ws_conns s)"
  by (simp_all add: set_phase_def)

text \<open>The tasks do not touch what the accepting loop and the publisher own.\<close>

lemma task_step_sel [simp]:
  "ws_term (task_step lim s ev) = ws_term s" "ws_listening (task_step lim s ev) = ws_listening s"
  "ws_accepting (task_step lim s ev) = ws_accepting s" "ws_handshaking (task_step lim s ev) = ws_handshaking s"
  "length (ws_conns (task_step lim s ev)) = length (ws_conns s)"
  by (cases ev; simp add: task_step_def broadcast_step_def Let_def split: recv_result.split socket_message.split)+

lemma ws_term_run: "DropPublisher \<notin> set evs \<Longrightarrow> ws_term (foldl (ws_step lim) s evs) = ws_term s"
proof (induction evs arbitrary: s)
  case (Cons ev evs)
  have "ws_term (ws_step lim s ev) = ws_term s"
    using Cons.prems by (cases ev) (auto simp: ws_step_def listener_step_def)
  then show ?case using Cons by simp
qed simp

section \<open>One subscriber\<close>

definition streaming :: "nat \<Rightarrow> ws_state \<Rightarrow> bool" where
  "streaming i s \<longleftrightarrow> in_phase s i Streaming"

text \<open>Events that do not end the subscription of a connection, and the payloads it receives.\<close>

definition keeps_open :: "nat \<Rightarrow> ws_event \<Rightarrow> bool" where
  "keeps_open i ev = (case ev of
     Receive j res ok \<Rightarrow> j \<noteq> i \<or> (res \<noteq> ChannelClosed \<and> ok)
   | SocketRead j m \<Rightarrow> j \<noteq> i \<or> m \<in> {OtherMessage, EndOfStream}
   | ConnSeesTerm j \<Rightarrow> j \<noteq> i
   | _ \<Rightarrow> True)"

definition payloads_for :: "nat \<Rightarrow> ws_event list \<Rightarrow> string list" where
  "payloads_for i evs =
     concat (map (\<lambda>ev. case ev of Receive j (Payload p) _ \<Rightarrow> if j = i then [p] else [] | _ \<Rightarrow> []) evs)"

lemma subscriber_step:
  assumes "streaming i s" "keeps_open i ev"
  shows "streaming i (ws_step lim s ev) \<and> cn_out (ws_conns (ws_step lim s ev) ! i) = cn_out (ws_conns s ! i) @ payloads_for i [ev]"
  using assms
  by (cases ev)
    (auto simp: streaming_def in_phase_def keeps_open_def payloads_for_def ws_step_def task_step_def broadcast_step_def
      listener_step_def set_phase_def nth_list_update nth_append Let_def split: recv_result.split socket_message.split)

text \<open>An open subscription forwards every payload the channel gives it, once and in order.\<close>

lemma subscriber_gets_payloads:
  assumes "streaming i s" "\<forall>ev \<in> set evs. keeps_open i ev"
  shows "streaming i (foldl (ws_step lim) s evs) \<and>
    cn_out (ws_conns (foldl (ws_step lim) s evs) ! i) = cn_out (ws_conns s ! i) @ payloads_for i evs"
  using assms
proof (induction evs arbitrary: s)
  case (Cons ev evs)
  then show ?case
    using subscriber_step [of i s ev lim] Cons.IH [of "ws_step lim s ev"] by (simp add: payloads_for_def)
qed (simp add: payloads_for_def)

section \<open>The subscriber limit\<close>

definition subscribers :: "ws_state \<Rightarrow> nat" where
  "subscribers s = length (filter counted (ws_conns s))"

text \<open>Histories in which no other step comes between the check of a task and its registration.\<close>

definition admission :: "ws_event \<Rightarrow> bool" where
  "admission ev = (case ev of CheckLimit _ \<Rightarrow> True | Register _ \<Rightarrow> True | _ \<Rightarrow> False)"

inductive atomic_admissions :: "ws_event list \<Rightarrow> bool" where
  none: "atomic_admissions []"
| other: "atomic_admissions evs \<Longrightarrow> \<not> admission ev \<Longrightarrow> atomic_admissions (evs @ [ev])"
| admit: "atomic_admissions evs \<Longrightarrow> atomic_admissions (evs @ [CheckLimit i, Register i])"

definition no_one_passed :: "ws_state \<Rightarrow> bool" where
  "no_one_passed s \<longleftrightarrow> (\<forall>c \<in> set (ws_conns s). cn_phase c \<noteq> Passed)"

lemma subscribers_set_phase:
  "in_phase s i ph \<Longrightarrow> subscribers (set_phase s i ph') + of_bool (ph \<in> {Registered, Streaming, Leaving}) =
    subscribers s + of_bool (ph' \<in> {Registered, Streaming, Leaving})"
  using length_filter_update [of i "ws_conns s" counted "(ws_conns s ! i) \<lparr> cn_phase := ph' \<rparr>"]
  by (simp add: in_phase_def subscribers_def set_phase_def counted_def)

lemma no_one_passed_set_phase: "no_one_passed s \<Longrightarrow> ph \<noteq> Passed \<Longrightarrow> no_one_passed (set_phase s i ph)"
  using set_update_subset_insert [of "ws_conns s" i "(ws_conns s ! i) \<lparr> cn_phase := ph \<rparr>"]
  by (auto simp: no_one_passed_def set_phase_def)

lemma other_step:
  assumes "no_one_passed s" "\<not> admission ev"
  shows "no_one_passed (ws_step lim s ev) \<and> subscribers (ws_step lim s ev) \<le> subscribers s"
proof (cases ev)
  case (Receive i res ok)
  let ?s = "s \<lparr> ws_sent := ws_sent s + 1 \<rparr>"
  let ?c = "\<lambda>payload. (ws_conns s ! i) \<lparr> cn_out := cn_out (ws_conns s ! i) @ [payload] \<rparr>"
  have phases: "in_phase s i Streaming \<Longrightarrow> no_one_passed (?s \<lparr> ws_conns := (ws_conns s)[i := ?c p] \<rparr>)"
    "in_phase s i Streaming \<Longrightarrow> subscribers (?s \<lparr> ws_conns := (ws_conns s)[i := ?c p] \<rparr>) = subscribers s" for p
    using assms(1) set_update_subset_insert [of "ws_conns s" i "?c p"] length_filter_update [of i "ws_conns s" counted "?c p"]
    by (auto simp: no_one_passed_def in_phase_def subscribers_def counted_def)
  have same: "no_one_passed ?s" "in_phase ?s i ph = in_phase s i ph" "subscribers ?s = subscribers s" for ph
    using assms(1) by (simp_all add: no_one_passed_def in_phase_def subscribers_def)
  show ?thesis
    using Receive assms phases same no_one_passed_set_phase [of s Leaving i] no_one_passed_set_phase [of ?s Leaving i]
      subscribers_set_phase [of s i Streaming Leaving] subscribers_set_phase [of ?s i Streaming Leaving]
    by (simp add: ws_step_def task_step_def broadcast_step_def Let_def split: recv_result.split)
next
  case (Unregister i)
  have "subscribers (s' \<lparr> ws_subs := n \<rparr>) = subscribers s'" "no_one_passed (s' \<lparr> ws_subs := n \<rparr>) = no_one_passed s'" for s' n
    by (simp_all add: subscribers_def no_one_passed_def)
  then show ?thesis
    using Unregister assms no_one_passed_set_phase [of s Gone i] subscribers_set_phase [of s i Leaving Gone]
    by (auto simp: ws_step_def task_step_def)
next
  case (StartLoop i ok)
  then show ?thesis
    using assms no_one_passed_set_phase [of s _ i] subscribers_set_phase [of s i Registered Streaming]
      subscribers_set_phase [of s i Registered Leaving]
    by (auto simp: ws_step_def task_step_def broadcast_step_def)
next
  case (ConnSeesTerm i)
  then show ?thesis
    using assms no_one_passed_set_phase [of s Leaving i] subscribers_set_phase [of s i Streaming Leaving]
    by (simp add: ws_step_def task_step_def broadcast_step_def)
next
  case (SocketRead i m)
  then show ?thesis
    using assms no_one_passed_set_phase [of s Leaving i] subscribers_set_phase [of s i Streaming Leaving]
    by (simp add: ws_step_def task_step_def broadcast_step_def split: socket_message.split)
qed (use assms in \<open>auto simp: ws_step_def listener_step_def no_one_passed_def subscribers_def counted_def admission_def\<close>)

lemma admit_step:
  fixes limit :: u16 and i :: nat
  assumes "no_one_passed s" "ws_inv s" "subscribers s \<le> unat limit"
  defines "s' \<equiv> ws_step (Some limit) (ws_step (Some limit) s (CheckLimit i)) (Register i)"
  shows "no_one_passed s' \<and> subscribers s' \<le> unat limit"
proof (cases "in_phase s i Spawned")
  case True
  have "unat limit < 2 ^ 64" using unat_le_max [of limit] by simp
  then have small: "unat (ws_subs s) = subscribers s" "unat (ucast limit :: u64) = unat limit"
    using assms(2,3) by (simp_all add: ws_inv_def subscribers_def unat_of_nat)
  let ?p = "set_phase s i Passed"
  have reg: "set_phase ?p i Registered = set_phase s i Registered" "in_phase ?p i Passed"
    using True by (simp_all add: set_phase_def in_phase_def)
  have "\<not> in_phase (set_phase s i Rejected) i Passed" using True by (simp add: set_phase_def in_phase_def)
  moreover have "subscribers (s'' \<lparr> ws_subs := n \<rparr>) = subscribers s''" "no_one_passed (s'' \<lparr> ws_subs := n \<rparr>) = no_one_passed s''" for s'' n
    by (simp_all add: subscribers_def no_one_passed_def)
  ultimately show ?thesis
    using True reg small assms(1,3) no_one_passed_set_phase [of s Registered i] no_one_passed_set_phase [of s Rejected i]
      subscribers_set_phase [OF True, of Registered] subscribers_set_phase [OF True, of Rejected]
    by (auto simp: s'_def ws_step_def task_step_def word_le_nat_alt)
next
  case False
  have "\<not> in_phase s i Passed" using assms(1) by (auto simp: no_one_passed_def in_phase_def)
  then show ?thesis using False assms(1,3) by (simp add: s'_def ws_step_def task_step_def)
qed

lemma limit_kept:
  "atomic_admissions evs \<Longrightarrow> no_one_passed (ws_run (Some limit) evs) \<and> subscribers (ws_run (Some limit) evs) \<le> unat (limit :: u16)"
proof (induction rule: atomic_admissions.induct)
  case none
  show ?case by (simp add: ws_run_def ws_new_def no_one_passed_def subscribers_def)
next
  case (other evs ev)
  then show ?case using other_step [of "ws_run (Some limit) evs" ev "Some limit"] by (simp add: ws_run_append)
next
  case (admit evs i)
  then show ?case using admit_step [OF _ ws_inv_run, of "Some limit" evs limit i] by (simp add: ws_run_append)
qed

text \<open>Any number of tasks that check before the first of them registers get past any limit.\<close>

definition crowd :: "nat \<Rightarrow> ws_event list" where
  "crowd k = concat (replicate k [Accept, Handshake True]) @ map CheckLimit [0..<k] @ map Register [0..<k]"

lemma crowd_accepted:
  "foldl (ws_step lim) (ws_new \<lparr> ws_conns := replicate m \<lparr> cn_phase = Spawned, cn_out = [] \<rparr> \<rparr>)
     (concat (replicate k [Accept, Handshake True])) =
   ws_new \<lparr> ws_conns := replicate (m + k) \<lparr> cn_phase = Spawned, cn_out = [] \<rparr> \<rparr>"
proof (induction k arbitrary: m)
  case (Suc k)
  then show ?case
    using Suc [of "Suc m"] by (simp add: ws_step_def listener_step_def ws_new_def replicate_append_same)
qed simp

lemma crowd_checked:
  assumes "0 < (limit :: u16)"
  shows "foldl (ws_step (Some limit)) (ws_new \<lparr> ws_conns := replicate (j + n) \<lparr> cn_phase = Spawned, cn_out = [] \<rparr> \<rparr>) (map CheckLimit [0..<j]) =
   ws_new \<lparr> ws_conns := replicate j \<lparr> cn_phase = Passed, cn_out = [] \<rparr> @ replicate n \<lparr> cn_phase = Spawned, cn_out = [] \<rparr> \<rparr>"
proof (induction j arbitrary: n)
  case (Suc j)
  have "\<not> ucast limit \<le> (0 :: u64)" using assms by (simp add: word_le_nat_alt word_less_nat_alt)
  then have "ws_step (Some limit) (ws_new \<lparr> ws_conns := replicate j \<lparr> cn_phase = Passed, cn_out = [] \<rparr> @
        \<lparr> cn_phase = Spawned, cn_out = [] \<rparr> # replicate n \<lparr> cn_phase = Spawned, cn_out = [] \<rparr> \<rparr>) (CheckLimit j) =
      ws_new \<lparr> ws_conns := (replicate j \<lparr> cn_phase = Passed, cn_out = [] \<rparr> @ [\<lparr> cn_phase = Passed, cn_out = [] \<rparr>]) @
        replicate n \<lparr> cn_phase = Spawned, cn_out = [] \<rparr> \<rparr>"
    by (simp add: ws_step_def task_step_def in_phase_def set_phase_def ws_new_def nth_append list_update_append)
  then show ?case using Suc [of "Suc n"] by (simp add: replicate_append_same)
qed simp

lemma crowd_registered:
  "foldl (ws_step lim) (ws_new \<lparr> ws_conns := replicate (j + n) \<lparr> cn_phase = Passed, cn_out = [] \<rparr> \<rparr>) (map Register [0..<j]) =
   ws_new \<lparr> ws_conns := replicate j \<lparr> cn_phase = Registered, cn_out = [] \<rparr> @ replicate n \<lparr> cn_phase = Passed, cn_out = [] \<rparr>,
            ws_subs := of_nat j \<rparr>"
proof (induction j arbitrary: n)
  case (Suc j)
  have "ws_step lim (ws_new \<lparr> ws_conns := replicate j \<lparr> cn_phase = Registered, cn_out = [] \<rparr> @
        \<lparr> cn_phase = Passed, cn_out = [] \<rparr> # replicate n \<lparr> cn_phase = Passed, cn_out = [] \<rparr>, ws_subs := of_nat j \<rparr>) (Register j) =
      ws_new \<lparr> ws_conns := (replicate j \<lparr> cn_phase = Registered, cn_out = [] \<rparr> @ [\<lparr> cn_phase = Registered, cn_out = [] \<rparr>]) @
        replicate n \<lparr> cn_phase = Passed, cn_out = [] \<rparr>, ws_subs := of_nat j + 1 \<rparr>"
    by (simp add: ws_step_def task_step_def in_phase_def set_phase_def ws_new_def nth_append list_update_append)
  then show ?case using Suc [of "Suc n"] by (simp add: replicate_append_same add.commute)
qed (simp add: ws_new_def)

lemma crowd_gets_in:
  assumes "0 < (limit :: u16)"
  shows "ws_run (Some limit) (crowd k) =
    ws_new \<lparr> ws_conns := replicate k \<lparr> cn_phase = Registered, cn_out = [] \<rparr>, ws_subs := of_nat k \<rparr>"
proof -
  have "ws_new \<lparr> ws_conns := [] \<rparr> = ws_new" by (simp add: ws_new_def)
  then show ?thesis
    using crowd_accepted [of "Some limit" 0 k] crowd_checked [OF assms, of k 0] crowd_registered [of "Some limit" k 0]
    by (simp add: ws_run_def crowd_def)
qed

section \<open>Properties\<close>

text \<open>C30: Publishing a flashblock never fails for want of subscribers: as long as the publisher exists, whatever connections
  come, are refused or break, every payload that can be serialised is accepted and its size returned. The count of
  subscriptions is at every moment the number of tasks that have registered and not yet unregistered. The channel is
  taken to accept a message if it has a receiver.\<close>

theorem publishing_never_fails:
  assumes "\<forall>n > 0. pipe_accepts n" and "DropPublisher \<notin> set evs"
  shows "publish pipe_accepts (ws_run limit evs) (Inr payload) = Inr (length payload) \<and>
    ws_subs (ws_run limit evs) = of_nat (length (filter counted (ws_conns (ws_run limit evs))))"
proof -
  have "\<not> ws_term (ws_run limit evs)"
    using ws_term_run [OF assms(2), of limit ws_new] by (simp add: ws_run_def ws_new_def)
  then show ?thesis
    using ws_inv_run [of limit evs] assms(1) by (simp add: ws_inv_def publish_def receivers_def)
qed

theorem publishing_never_fails_witness:
  "publish (\<lambda>n. 0 < n) (ws_run (Some 1) [Accept, Handshake True, CheckLimit 0, Register 0, StartLoop 0 False, Unregister 0]) (Inr ''{}'')
   = Inr 2"
  using publishing_never_fails [of "\<lambda>n. 0 < n" "[Accept, Handshake True, CheckLimit 0, Register 0, StartLoop 0 False, Unregister 0]"
      "Some 1" "''{}''"] by simp

text \<open>C31: The subscriber limit holds if no two tasks are admitted at the same time. It does not hold otherwise: a task
  reads the number of subscribers and later adds itself to it, and with any positive limit any number of tasks can do the first
  before one does the second, and all are admitted.\<close>

theorem subscriber_limit_race:
  fixes limit :: u16
  shows "(atomic_admissions evs \<longrightarrow> length (filter counted (ws_conns (ws_run (Some limit) evs))) \<le> unat limit) \<and>
    (0 < limit \<longrightarrow> length (filter counted (ws_conns (ws_run (Some limit) (crowd k)))) = k)"
  using limit_kept [of evs limit] crowd_gets_in [of limit k] by (auto simp: subscribers_def counted_def)

theorem subscriber_limit_race_witness:
  "length (filter counted (ws_conns (ws_run (Some 1) [Accept, Handshake True, CheckLimit 0, Register 0]))) \<le> 1 \<and>
   length (filter counted (ws_conns (ws_run (Some 1) (crowd 3)))) = 3"
proof -
  have "atomic_admissions ((([] @ [Accept]) @ [Handshake True]) @ [CheckLimit 0, Register 0])"
    by (intro atomic_admissions.intros) (simp_all add: admission_def)
  then show ?thesis using subscriber_limit_race [of _ 1 3] by simp
qed

text \<open>C32: The accepting loop can stall. After one error of \<^verbatim>\<open>accept\<close>, and during a handshake that the client does not
  finish, no further connection ever gets a task, whatever happens otherwise.\<close>

theorem listener_stalls:
  assumes "s = ws_run limit before" and "ws_listening s" and "ws_accepting s" and "\<not> ws_handshaking s"
    and "ev = AcceptError \<or> (ev = Accept \<and> (\<forall>ok. Handshake ok \<notin> set evs))"
  shows "length (ws_conns (ws_run limit (before @ ev # evs))) = length (ws_conns s)"
proof -
  have stuck: "length (ws_conns (foldl (ws_step limit) t evs)) = length (ws_conns t)"
    if "(\<not> ws_accepting t \<and> \<not> ws_handshaking t) \<or> (ws_handshaking t \<and> (\<forall>ok. Handshake ok \<notin> set evs))" for t evs
    using that
  proof (induction evs arbitrary: t)
    case (Cons e evs)
    have "length (ws_conns (ws_step limit t e)) = length (ws_conns t)"
      "(\<not> ws_accepting (ws_step limit t e) \<and> \<not> ws_handshaking (ws_step limit t e)) \<or>
       (ws_handshaking (ws_step limit t e) \<and> (\<forall>ok. Handshake ok \<notin> set evs))"
      using Cons.prems by (cases e; auto simp: ws_step_def listener_step_def)+
    then show ?case using Cons.IH [of "ws_step limit t e"] by simp
  qed simp
  have "length (ws_conns (ws_step limit s ev)) = length (ws_conns s)"
    using assms(5) by (auto simp: ws_step_def listener_step_def)
  then show ?thesis
    using stuck [of "ws_step limit s ev" evs] assms by (auto simp: ws_run_append ws_step_def listener_step_def)
qed

theorem listener_stalls_witness:
  "length (ws_conns (ws_run None [Accept, Handshake True, AcceptError, Accept, Handshake True])) = 1"
proof -
  have "ws_run None [Accept, Handshake True] = ws_new \<lparr> ws_conns := [\<lparr> cn_phase = Spawned, cn_out = [] \<rparr>] \<rparr>"
    by (simp add: ws_run_def ws_step_def listener_step_def ws_new_def)
  then show ?thesis
    using listener_stalls [OF refl, of None "[Accept, Handshake True]" AcceptError "[Accept, Handshake True]"]
    by (simp add: ws_new_def)
qed

end
