(* ===== verification/Attestation.thy ===== *)
theory Attestation
  imports Tx_Signer
begin

text \<open>
  Attestation quotes: fetching and parsing them (\<^verbatim>\<open>flashtestations/attestation.rs\<close>), the gauges that show
  them (\<^verbatim>\<open>record_tee_metrics\<close> in \<^verbatim>\<open>metrics.rs\<close>), and the server that provides them
  (\<^verbatim>\<open>src/crates/tdx-quote-provider/src\<close>). Hexadecimal coding, HTTP, the device and the file system are
  arguments.
\<close>

section \<open>Model: quotes\<close>

datatype att_error =
  InvalidQuoteLength nat nat
| FailedToExtract string
| AttPanic string
| RequestFailed string
| ErrorStatus nat

record parsed_quote =
  mr_td :: bytes
  rt_mr0 :: bytes
  rt_mr1 :: bytes
  rt_mr2 :: bytes
  rt_mr3 :: bytes
  mr_config_id :: bytes
  mr_owner :: bytes
  mr_owner_config :: bytes
  xfam :: u64
  td_attributes :: u64

text \<open>The bytes of a field as an array of fixed size: the range must exist and have the size of the array.\<close>

definition field_at :: "bytes \<Rightarrow> nat \<Rightarrow> nat \<Rightarrow> string \<Rightarrow> att_error + bytes" where
  "field_at body offset len name =
     (if length body < offset + len then Inl (AttPanic ''range end index out of range for slice'')
      else let bs = take len (drop offset body) in
           if length bs = len then Inr bs else Inl (FailedToExtract name))"

definition header_length :: nat where "header_length = 48"
definition td_report10_length :: nat where "td_report10_length = 584"

definition parse_report_body :: "bytes \<Rightarrow> att_error + parsed_quote" where
  "parse_report_body raw_quote =
     (if length raw_quote < header_length + td_report10_length
      then Inl (InvalidQuoteLength (length raw_quote) (header_length + td_report10_length))
      else
        let report_body = drop header_length raw_quote in
        and_then (field_at report_body 136 48 ''mr_td'') (\<lambda>td.
        and_then (field_at report_body 328 48 ''rt_mr0'') (\<lambda>r0.
        and_then (field_at report_body 376 48 ''rt_mr1'') (\<lambda>r1.
        and_then (field_at report_body 424 48 ''rt_mr2'') (\<lambda>r2.
        and_then (field_at report_body 472 48 ''rt_mr3'') (\<lambda>r3.
        and_then (field_at report_body 184 48 ''mr_config_id'') (\<lambda>cid.
        and_then (field_at report_body 232 48 ''mr_owner'') (\<lambda>own.
        and_then (field_at report_body 280 48 ''mr_owner_config'') (\<lambda>ownc.
        and_then (field_at report_body 128 8 ''xfam'') (\<lambda>xf.
        and_then (field_at report_body 120 8 ''td_attributes'') (\<lambda>att.
        Inr \<lparr> mr_td = td, rt_mr0 = r0, rt_mr1 = r1, rt_mr2 = r2, rt_mr3 = r3, mr_config_id = cid, mr_owner = own,
              mr_owner_config = ownc, xfam = from_be_bytes xf, td_attributes = from_be_bytes att \<rparr>)))))))))))"

definition workload_bytes :: "parsed_quote \<Rightarrow> bytes" where
  "workload_bytes q = mr_td q @ rt_mr0 q @ rt_mr1 q @ rt_mr2 q @ rt_mr3 q @ mr_config_id q @
     to_be_bytes (xfam q) @ to_be_bytes (td_attributes q)"

definition compute_workload_id_from_parsed :: "signer_ops \<Rightarrow> parsed_quote \<Rightarrow> b256" where
  "compute_workload_id_from_parsed so q = keccak_256 so (workload_bytes q)"

definition compute_workload_id :: "signer_ops \<Rightarrow> bytes \<Rightarrow> att_error + b256" where
  "compute_workload_id so raw_quote =
     and_then (parse_report_body raw_quote) (\<lambda>q. Inr (compute_workload_id_from_parsed so q))"

section \<open>Model: fetching a quote\<close>

record hex_ops =
  hx_encode :: "bytes \<Rightarrow> string"
  hx_decode :: "string \<Rightarrow> string + bytes"

record attestation_config =
  ac_debug :: bool
  ac_quote_provider :: "string option"

definition debug_quote_service_url :: string where
  "debug_quote_service_url = ''http://ns31695324.ip-141-94-163.eu:10080/attest''"

text \<open>A provider is the address of a service.\<close>

definition get_attestation_provider :: "attestation_config \<Rightarrow> att_error + string" where
  "get_attestation_provider cfg =
     (if ac_debug cfg then Inr (unwrap_or debug_quote_service_url (ac_quote_provider cfg))
      else ok_or (AttPanic ''remote quote provider must be specified when not in debug mode'') (ac_quote_provider cfg))"

record http_reply =
  rp_status :: nat
  rp_body :: bytes

definition get_attestation ::
  "hex_ops \<Rightarrow> (string \<Rightarrow> string + http_reply) \<Rightarrow> string \<Rightarrow> bytes \<Rightarrow> att_error + bytes" where
  "get_attestation hx http service_url report_data =
     and_then (map_err RequestFailed (http (service_url @ ''/'' @ hx_encode hx report_data))) (\<lambda>response.
       if 400 \<le> rp_status response \<and> rp_status response < 600 then Inl (ErrorStatus (rp_status response))
       else Inr (rp_body response))"

text \<open>The gauges, each set to one, by name and label.\<close>

definition record_tee_metrics ::
  "signer_ops \<Rightarrow> hex_ops \<Rightarrow> (address \<Rightarrow> string) \<Rightarrow> bytes \<Rightarrow> address \<Rightarrow> att_error + (string \<times> string \<times> string) list" where
  "record_tee_metrics so hx show_address raw_quote tee_address =
     and_then (parse_report_body raw_quote) (\<lambda>q.
       Inr [(''op_rbuilder_tee_address'', ''tee_address'', show_address tee_address),
            (''op_rbuilder_tee_workload_id'', ''workload_id'', hx_encode hx (to_be_bytes (compute_workload_id_from_parsed so q))),
            (''op_rbuilder_tee_mr_td'', ''mr_td'', hx_encode hx (mr_td q)),
            (''op_rbuilder_tee_rt_mr0'', ''rt_mr0'', hx_encode hx (rt_mr0 q))])"

section \<open>Model: the quote provider\<close>

datatype provider_error = GetAttestationFailed string | ReadMockAttestationFailed string

datatype quote_provider = TdxAttestationProvider | MockAttestationProvider string

record quote_source =
  tdx_report :: "bytes \<Rightarrow> string + bytes"
  read_file :: "string \<Rightarrow> string + bytes"

definition provider_get_attestation :: "quote_source \<Rightarrow> quote_provider \<Rightarrow> bytes \<Rightarrow> provider_error + bytes" where
  "provider_get_attestation src prov report_data =
     (case prov of
        TdxAttestationProvider \<Rightarrow> map_err GetAttestationFailed (tdx_report src report_data)
      | MockAttestationProvider path \<Rightarrow> map_err ReadMockAttestationFailed (read_file src path))"

record server_config =
  sc_listen_addr :: string
  sc_use_mock :: bool
  sc_mock_attestation_path :: string

definition server_config_default :: server_config where
  "server_config_default = \<lparr> sc_listen_addr = ''127.0.0.1:8181'', sc_use_mock = False, sc_mock_attestation_path = '''' \<rparr>"

definition provider_of_config :: "bool \<Rightarrow> string \<Rightarrow> quote_provider" where
  "provider_of_config mock path = (if mock then MockAttestationProvider path else TdxAttestationProvider)"

definition server_new :: "server_config \<Rightarrow> quote_provider" where
  "server_new cfg = provider_of_config (sc_use_mock cfg) (sc_mock_attestation_path cfg)"

datatype reply_body = EmptyBody | Message string | OctetStream bytes

text \<open>The messages of the source are the \<^verbatim>\<open>message\<close> fields of JSON objects.\<close>

definition healthz_handler :: "nat \<times> reply_body" where
  "healthz_handler = (200, EmptyBody)"

definition attest_handler :: "hex_ops \<Rightarrow> quote_source \<Rightarrow> quote_provider \<Rightarrow> string \<Rightarrow> nat \<times> reply_body" where
  "attest_handler hx src prov appdata =
     (case hx_decode hx appdata of
        Inl _ \<Rightarrow> (400, Message ''Invalid hex in report data for attestation'')
      | Inr data \<Rightarrow>
          if length data \<noteq> 64 then (400, Message ''Invalid report data length for attestation'')
          else (case provider_get_attestation src prov data of
                  Inr attestation \<Rightarrow> (200, OctetStream attestation)
                | Inl _ \<Rightarrow> (500, Message ''Failed to get TDX attestation'')))"

section \<open>Parsing\<close>

abbreviation report_slice :: "bytes \<Rightarrow> nat \<Rightarrow> nat \<Rightarrow> bytes" where
  "report_slice bs offset len \<equiv> take len (drop (48 + offset) bs)"

text \<open>Every quote that is long enough is parsed, and every register has its size.\<close>

lemma field_at_ok: "offset + len \<le> length body \<Longrightarrow> field_at body offset len name = Inr (take len (drop offset body))"
  by (simp add: field_at_def)

lemma parse_report_body_spec:
  "parse_report_body raw =
     (if length raw < 632 then Inl (InvalidQuoteLength (length raw) 632)
      else Inr \<lparr> mr_td = report_slice raw 136 48, rt_mr0 = report_slice raw 328 48, rt_mr1 = report_slice raw 376 48, rt_mr2 = report_slice raw 424 48,
        rt_mr3 = report_slice raw 472 48, mr_config_id = report_slice raw 184 48, mr_owner = report_slice raw 232 48,
        mr_owner_config = report_slice raw 280 48, xfam = from_be_bytes (report_slice raw 128 8), td_attributes = from_be_bytes (report_slice raw 120 8) \<rparr>)"
  by (simp add: parse_report_body_def header_length_def td_report10_length_def field_at_ok Let_def add.commute)

text \<open>The bytes the workload ID is computed from, read directly off the raw quote.\<close>

definition measured_bytes :: "bytes \<Rightarrow> bytes" where
  "measured_bytes raw = report_slice raw 136 48 @ report_slice raw 328 192 @ report_slice raw 184 48 @ report_slice raw 128 8 @ report_slice raw 120 8"

lemma take_drop_join: "take m (drop a xs) @ take n (drop (a + m) xs) = take (m + n) (drop a xs)"
  by (simp add: take_add add.commute)

lemma measured_registers:
  "take 48 (drop 376 raw) @ take 48 (drop 424 raw) @ take 48 (drop 472 raw) @ take 48 (drop 520 raw) @ ys =
   take 192 (drop 376 raw) @ ys"
  using take_drop_join [of 48 376 raw 48] take_drop_join [of 96 376 raw 48] take_drop_join [of 144 376 raw 48]
  by (simp flip: append_assoc)

lemma workload_bytes_measured:
  assumes "632 \<le> length raw" "parse_report_body raw = Inr q"
  shows "workload_bytes q = measured_bytes raw"
proof -
  have be: "to_be_bytes (from_be_bytes (report_slice raw off 8) :: u64) = report_slice raw off 8" if "off \<le> 576" for off
    by (rule to_from_be_bytes) (use assms(1) that in simp_all)
  show ?thesis
    using assms be [of 128] be [of 120]
    by (auto simp: parse_report_body_spec workload_bytes_def measured_bytes_def measured_registers)
qed

section \<open>Properties\<close>

text \<open>C33: The workload ID is the hash of fixed ranges of the raw quote: the measurement of the domain, the four runtime
  registers, the configuration ID, the extended features and the attributes, in this order. Header, owner fields and
  whatever follows the report body have no influence on it. A quote that is too short is refused; no other quote is,
  whatever its bytes, and all its registers have 48 bytes.\<close>

theorem workload_id_of_quote:
  "compute_workload_id so raw =
     (if length raw < 632 then Inl (InvalidQuoteLength (length raw) 632)
      else Inr (keccak_256 so (take 48 (drop 184 raw) @ take 192 (drop 376 raw) @ take 48 (drop 232 raw) @
             take 8 (drop 176 raw) @ take 8 (drop 168 raw)))) \<and>
   (case parse_report_body raw of
      Inl e \<Rightarrow> length raw < 632
    | Inr q \<Rightarrow> \<not> length raw < 632 \<and> map length [mr_td q, rt_mr0 q, rt_mr1 q, rt_mr2 q, rt_mr3 q, mr_config_id q, mr_owner q, mr_owner_config q]
        = [48, 48, 48, 48, 48, 48, 48, 48])"
proof (cases "length raw < 632")
  case True
  then show ?thesis by (simp add: compute_workload_id_def parse_report_body_spec)
next
  case False
  then obtain q where q: "parse_report_body raw = Inr q" by (simp add: parse_report_body_spec)
  have "compute_workload_id so raw = Inr (keccak_256 so (measured_bytes raw))"
    using workload_bytes_measured [OF _ q] q False by (simp add: compute_workload_id_def compute_workload_id_from_parsed_def)
  moreover have "map length [mr_td q, rt_mr0 q, rt_mr1 q, rt_mr2 q, rt_mr3 q, mr_config_id q, mr_owner q, mr_owner_config q]
        = [48, 48, 48, 48, 48, 48, 48, 48]"
    using q False by (auto simp: parse_report_body_spec)
  ultimately show ?thesis using q False by (simp add: measured_bytes_def)
qed

end
