(* ===== verification/Strings.thy ===== *)
theory Strings
  imports Prelude
begin

text \<open>
  The string functions of the standard library that the start-up code uses: trimming, splitting, searching, collecting, and decimal
  numbers of 16 bits. A character is a code point below 256.
\<close>

section \<open>Model: white space\<close>

definition is_whitespace :: "char \<Rightarrow> bool" where
  "is_whitespace c \<longleftrightarrow> c \<in> {CHR 0x20, CHR 0x09, CHR 0x0A, CHR 0x0B, CHR 0x0C, CHR 0x0D, CHR 0x85, CHR 0xA0}"

definition trim :: "string \<Rightarrow> string" where
  "trim str = rev (dropWhile is_whitespace (rev (dropWhile is_whitespace str)))"

section \<open>Model: splitting and searching\<close>

fun split_where :: "(char \<Rightarrow> bool) \<Rightarrow> string \<Rightarrow> string list" where
  "split_where sep [] = [[]]"
| "split_where sep (c # cs) =
     (if sep c then [] # split_where sep cs
      else (case split_where sep cs of [] \<Rightarrow> [[c]] | part # parts \<Rightarrow> (c # part) # parts))"

definition split_char :: "char \<Rightarrow> string \<Rightarrow> string list" where
  "split_char sep str = split_where (\<lambda>c. c = sep) str"

definition split_whitespace :: "string \<Rightarrow> string list" where
  "split_whitespace str = filter (\<lambda>part. part \<noteq> []) (split_where is_whitespace str)"

fun contains :: "string \<Rightarrow> string \<Rightarrow> bool" where
  "contains [] pat = (pat = [])"
| "contains (c # cs) pat = (take (length pat) (c # cs) = pat \<or> contains cs pat)"

fun position_of :: "('a \<Rightarrow> bool) \<Rightarrow> 'a list \<Rightarrow> nat option" where
  "position_of P [] = None"
| "position_of P (x # xs) = (if P x then Some 0 else map_option Suc (position_of P xs))"

text \<open>Collecting results stops at the first error.\<close>

primrec collect_ok :: "('a \<Rightarrow> 'e + 'b) \<Rightarrow> 'a list \<Rightarrow> 'e + 'b list" where
  "collect_ok f [] = Inr []"
| "collect_ok f (x # xs) = and_then (f x) (\<lambda>y. and_then (collect_ok f xs) (\<lambda>ys. Inr (y # ys)))"

section \<open>Model: decimal numbers\<close>

fun decimal :: "nat \<Rightarrow> string" where
  "decimal n = (if n < 10 then [char_of (48 + n)] else decimal (n div 10) @ [char_of (48 + n mod 10)])"

definition is_digit :: "char \<Rightarrow> bool" where
  "is_digit c \<longleftrightarrow> of_char c \<in> {48 .. (57 :: nat)}"

definition digits_value :: "string \<Rightarrow> nat" where
  "digits_value cs = foldl (\<lambda>n c. n * 10 + (of_char c - 48)) 0 cs"

text \<open>An optional sign, at least one digit, and a value that fits.\<close>

definition parse_u16 :: "string \<Rightarrow> u16 option" where
  "parse_u16 str =
     (let ds = (case str of c # cs \<Rightarrow> if c = CHR ''+'' then cs else str | [] \<Rightarrow> []) in
      if ds = [] \<or> \<not> list_all is_digit ds then None
      else if digits_value ds < 65536 then Some (of_nat (digits_value ds)) else None)"

section \<open>Lemmas\<close>

declare decimal.simps [simp del]

lemma trim_no_whitespace: "\<forall>c \<in> set str. \<not> is_whitespace c \<Longrightarrow> trim str = str"
proof -
  have "\<forall>c \<in> set xs. \<not> is_whitespace c \<Longrightarrow> dropWhile is_whitespace xs = xs" for xs by (cases xs) auto
  from this [of str] this [of "rev str"] show "\<forall>c \<in> set str. \<not> is_whitespace c \<Longrightarrow> trim str = str"
    by (simp add: trim_def)
qed

lemma split_where_none: "\<forall>c \<in> set str. \<not> sep c \<Longrightarrow> split_where sep str = [str]"
  by (induction str) auto

lemma split_where_append: "\<forall>c \<in> set part. \<not> sep c \<Longrightarrow> sep c \<Longrightarrow> split_where sep (part @ c # rest) = part # split_where sep rest"
  by (induction part) auto

lemma split_char_append: "sep \<notin> set part \<Longrightarrow> split_char sep (part @ sep # rest) = part # split_char sep rest"
  unfolding split_char_def by (rule split_where_append) auto

lemma split_where_not_nil [simp]: "split_where sep str \<noteq> []"
  by (cases str) (auto split: list.split)

text \<open>Splitting loses nothing.\<close>

lemma split_char_spec:
  "concat (map (\<lambda>part. part @ [sep]) (split_char sep str)) = str @ [sep] \<and> (\<forall>part \<in> set (split_char sep str). sep \<notin> set part)"
proof (induction str)
  case (Cons c str)
  then show ?case
    by (cases "split_char sep str") (auto simp: split_char_def split: list.split)
qed (simp add: split_char_def)

lemma contains_append: "contains (xs @ pat @ ys) pat"
proof (induction xs)
  case Nil
  have "take (length pat) (pat @ ys) = pat" by simp
  then show ?case by (cases "pat @ ys") (simp_all del: take_append)
qed simp

lemma contains_iff: "contains str pat \<longleftrightarrow> (\<exists>xs ys. str = xs @ pat @ ys)"
proof
  show "contains str pat \<Longrightarrow> \<exists>xs ys. str = xs @ pat @ ys"
  proof (induction str)
    case (Cons c str)
    then show ?case
      by (metis append_Cons append_Nil append_take_drop_id contains.simps(2))
  qed simp
qed (use contains_append in blast)

lemma position_of_eq: "position_of P xs = Some i \<longleftrightarrow> i < length xs \<and> P (xs ! i) \<and> (\<forall>j < i. \<not> P (xs ! j))"
proof (induction xs arbitrary: i)
  case (Cons x xs)
  then show ?case
    by (cases i) (auto simp: less_Suc_eq_0_disj all_conj_distrib)
qed simp

lemma collect_ok_all: "map g xs = map Some ys \<Longrightarrow> collect_ok (\<lambda>x. ok_or e (g x)) xs = Inr ys"
  by (induction xs arbitrary: ys) auto

lemma digit_char: "n < 10 \<Longrightarrow> of_char (char_of (48 + n) :: char) = (48 + n :: nat)" for n :: nat
  by simp

lemma digits_value_snoc: "digits_value (cs @ [c]) = digits_value cs * 10 + (of_char c - 48)"
  by (simp add: digits_value_def)

lemma decimal_value: "digits_value (decimal n) = n"
proof (induction n rule: decimal.induct)
  case (1 n)
  show ?case
  proof (cases "n < 10")
    case True
    then show ?thesis by (simp add: decimal.simps [of n] digits_value_def)
  next
    case False
    have "digits_value (decimal n) = digits_value (decimal (n div 10)) * 10 + n mod 10"
      using False by (simp add: decimal.simps [of n] digits_value_snoc)
    then show ?thesis using 1 False by simp
  qed
qed

lemma decimal_digits: "decimal n \<noteq> [] \<and> list_all is_digit (decimal n)"
proof (induction n rule: decimal.induct)
  case (1 n)
  have "is_digit (char_of (48 + k))" if "k < 10" for k :: nat using that by (simp add: is_digit_def)
  then show ?case using 1 by (subst (1 2) decimal.simps) simp
qed

lemma decimal_no_char: "\<not> is_digit c \<Longrightarrow> c \<notin> set (decimal n)"
  using decimal_digits [of n] by (auto simp: list_all_iff)

text \<open>Printing and parsing a port.\<close>

lemma parse_decimal: "parse_u16 (decimal (unat p)) = Some p"
proof -
  have "\<not> is_digit CHR ''+''" by (simp add: is_digit_def)
  then have "(case decimal (unat p) of c # cs \<Rightarrow> if c = CHR ''+'' then cs else decimal (unat p) | [] \<Rightarrow> []) = decimal (unat p)"
    using decimal_no_char [of "CHR ''+''" "unat p"] by (auto split: list.split)
  moreover have "unat p < 65536" using unsigned_less [of p] by simp
  ultimately show ?thesis by (simp add: parse_u16_def decimal_digits decimal_value)
qed

end
