(* ===== verification/Bootstrap.thy ===== *)
theory Bootstrap
  imports Attestation Flashtestations Fb_Timing Strings
begin

text \<open>
  Starting the flashtestations (\<^verbatim>\<open>flashtestations/service.rs\<close>): the key of the trusted environment, the
  quote that binds it, and registering it through an RPC endpoint (\<^verbatim>\<open>flashtestations/tx_manager.rs\<close>). Files,
  randomness, the clock and the endpoint are arguments.
\<close>

section \<open>Model: registration over RPC\<close>

datatype tx_manager_error =
  TmRpcError string
| TxReverted b256
| TxConfirmationError string
| TxRpcError string
| TmSignerError string
| TmSignatureError string
| TmPanic string

record tx_manager =
  tm_tee_service_signer :: signer
  tm_builder_signer :: signer
  tm_rpc_url :: string
  tm_registry_address :: address

record tx_request =
  tr_from :: "address option"
  tr_to :: address
  tr_input :: bytes

text \<open>The endpoint: attaching a wallet, connecting, calling a contract, and sending a transaction, which gives a hash and
  later a receipt with a status and a hash, or an error instead.\<close>

record registry_rpc =
  rr_wallet :: "b256 \<Rightarrow> string + unit"
  rr_connect :: "string \<Rightarrow> string + unit"
  rr_call :: "tx_request \<Rightarrow> string + bytes"
  rr_send :: "tx_request \<Rightarrow> string + b256 \<times> (string + bool \<times> b256)"

definition u256_from_be_slice :: "bytes \<Rightarrow> tx_manager_error + u256" where
  "u256_from_be_slice bs =
     (if foldl (\<lambda>a b. a * 256 + unat b) 0 bs < 2 ^ 256 then Inr (from_be_bytes bs) else Inl (TmPanic ''value too large for uint256''))"

definition b256_from_slice :: "bytes \<Rightarrow> tx_manager_error + b256" where
  "b256_from_slice bs = (if length bs = 32 then Inr (from_be_bytes bs) else Inl (TmPanic ''slice length must be 32''))"

definition contract_request :: "tx_manager \<Rightarrow> bytes \<Rightarrow> tx_request" where
  "contract_request tm input = \<lparr> tr_from = None, tr_to = tm_registry_address tm, tr_input = input \<rparr>"

fun process_pending_tx :: "string + b256 \<times> (string + bool \<times> b256) \<Rightarrow> tx_manager_error + b256" where
  "process_pending_tx (Inl e) = Inl (TxRpcError e)"
| "process_pending_tx (Inr (hash, Inl e)) = Inl (TxConfirmationError e)"
| "process_pending_tx (Inr (hash, Inr (status, receipt_hash))) =
     (if status then Inr receipt_hash else Inl (TxReverted hash))"

definition register_tee_service ::
  "signer_ops \<Rightarrow> ft_abi \<Rightarrow> registry_rpc \<Rightarrow> tx_manager \<Rightarrow> u64 \<Rightarrow> bytes \<Rightarrow> bytes \<Rightarrow> tx_manager_error + unit" where
  "register_tee_service so abi rpc tm unix_now attestation extra_registration_data =
     and_then (map_err TmSignerError (rr_wallet rpc (sn_secret (tm_builder_signer tm)))) (\<lambda>_.
     and_then (map_err TmRpcError (rr_connect rpc (tm_rpc_url tm))) (\<lambda>_.
     and_then (map_err TmRpcError (rr_call rpc (contract_request tm
                 (ft_abi_encode abi (Nonces (sn_address (tm_tee_service_signer tm))))))) (\<lambda>nonce_bytes.
     and_then (u256_from_be_slice nonce_bytes) (\<lambda>nonce.
     let deadline = ucast (unix_now + 3600) in
     and_then (map_err TmRpcError (rr_call rpc (contract_request tm
                 (ft_abi_encode abi (RegistryComputeStructHash attestation extra_registration_data nonce deadline))))) (\<lambda>struct_bytes.
     and_then (b256_from_slice struct_bytes) (\<lambda>struct_hash.
     and_then (map_err TmRpcError (rr_call rpc (contract_request tm
                 (ft_abi_encode abi (RegistryHashTypedDataV4 struct_hash))))) (\<lambda>hash_bytes.
     and_then (b256_from_slice hash_bytes) (\<lambda>message_hash.
     and_then (map_err TmSignatureError (sign_message so (tm_tee_service_signer tm) message_hash)) (\<lambda>sig.
     and_then (process_pending_tx (rr_send rpc
                 \<lparr> tr_from = Some (sn_address (tm_tee_service_signer tm)), tr_to = tm_registry_address tm,
                   tr_input = ft_abi_encode abi (PermitRegisterTEEService attestation extra_registration_data nonce deadline
                     (signature_as_bytes abi sig)) \<rparr>)) (\<lambda>_.
     Inr ()))))))))))"

section \<open>Model: the key\<close>

text \<open>Reading and writing a file may fail: a read gives nothing, a write leaves whatever it leaves.\<close>

record key_store =
  ks_read :: "string \<Rightarrow> string option"
  ks_write :: "string option \<Rightarrow> string \<Rightarrow> string option"

type_synonym files = "string \<Rightarrow> string option"

definition load_tee_key :: "signer_ops \<Rightarrow> hex_ops \<Rightarrow> key_store \<Rightarrow> string option \<Rightarrow> signer option" where
  "load_tee_key so hx ks content =
     Option.bind content (\<lambda>text.
     Option.bind (ks_read ks text) (\<lambda>key_hex.
       case hx_decode hx (trim key_hex) of
         Inl _ \<Rightarrow> None
       | Inr bs \<Rightarrow>
           if length bs \<noteq> 32 then None
           else (case try_from_secret so (from_be_bytes bs) of Inl _ \<Rightarrow> None | Inr sn \<Rightarrow> Some sn)))"

definition load_or_generate_tee_key ::
  "signer_ops \<Rightarrow> hex_ops \<Rightarrow> key_store \<Rightarrow> b256 \<Rightarrow> string \<Rightarrow> bool \<Rightarrow> bytes \<Rightarrow> files \<Rightarrow> (string + signer) \<times> files" where
  "load_or_generate_tee_key so hx ks random key_path debug debug_seed fs =
     (if debug then (generate_key_from_seed so debug_seed, fs)
      else case load_tee_key so hx ks (fs key_path) of
        Some sn \<Rightarrow> (Inr sn, fs)
      | None \<Rightarrow>
          let sn = generate_signer so random;
              key_hex = hx_encode hx (to_be_bytes (sn_secret sn)) in
          (Inr sn, fs(key_path := ks_write ks (fs key_path) key_hex)))"

section \<open>Model: the start\<close>

datatype boot_error = BootPanic string | BootAttestation att_error

definition att_boot_error :: "att_error \<Rightarrow> boot_error" where
  "att_boot_error e = (case e of AttPanic msg \<Rightarrow> BootPanic msg | _ \<Rightarrow> BootAttestation e)"

definition report_data :: "address \<Rightarrow> b256 \<Rightarrow> bytes" where
  "report_data tee_address ext_data_hash = to_be_bytes tee_address @ to_be_bytes ext_data_hash @ replicate 12 0"

record boot_env =
  bv_signing :: signer_ops
  bv_hex :: hex_ops
  bv_http :: "string \<Rightarrow> string + http_reply"
  bv_abi :: ft_abi
  bv_rpc :: registry_rpc
  bv_keys :: key_store
  bv_random :: b256
  bv_unix_now :: u64
  bv_show_address :: "address \<Rightarrow> string"

text \<open>A registration that fails is only logged; one that panics ends the start.\<close>

definition boot_register :: "boot_env \<Rightarrow> flashtestations_args \<Rightarrow> signer \<Rightarrow> signer \<Rightarrow> address \<Rightarrow> bytes \<Rightarrow> boot_error + bool" where
  "boot_register bv args tee_signer builder_key registry attestation =
     (case fa_rpc_url args of
        None \<Rightarrow> Inr False
      | Some rpc_url \<Rightarrow>
          (case register_tee_service (bv_signing bv) (bv_abi bv) (bv_rpc bv)
                  \<lparr> tm_tee_service_signer = tee_signer, tm_builder_signer = builder_key, tm_rpc_url = rpc_url,
                    tm_registry_address = registry \<rparr> (bv_unix_now bv) attestation [] of
             Inr _ \<Rightarrow> Inr True
           | Inl (TmPanic msg) \<Rightarrow> Inl (BootPanic msg)
           | Inl _ \<Rightarrow> Inr False))"

definition boot_attest :: "boot_env \<Rightarrow> flashtestations_args \<Rightarrow> signer \<Rightarrow> signer \<Rightarrow> boot_error + ft_builder_tx" where
  "boot_attest bv args tee_signer builder_key =
     and_then (ok_or (BootPanic ''registry address required when flashtestations enabled'') (fa_registry_address args)) (\<lambda>registry.
     and_then (ok_or (BootPanic ''builder policy address required when flashtestations enabled'') (fa_builder_policy_address args)) (\<lambda>policy.
     and_then (map_err att_boot_error (get_attestation_provider
                 \<lparr> ac_debug = fa_debug args, ac_quote_provider = fa_quote_provider args \<rparr>)) (\<lambda>service_url.
     let rd = report_data (sn_address tee_signer) (keccak_256 (bv_signing bv) []) in
     and_then (map_err att_boot_error (get_attestation (bv_hex bv) (bv_http bv) service_url rd)) (\<lambda>attestation.
     and_then (map_err att_boot_error (record_tee_metrics (bv_signing bv) (bv_hex bv) (bv_show_address bv) attestation
                 (sn_address tee_signer))) (\<lambda>_.
     and_then (boot_register bv args tee_signer builder_key registry attestation) (\<lambda>registered.
     Inr \<lparr> ft_attestation = attestation, ft_extra_registration_data = [], ft_tee_service_signer = tee_signer,
           ft_registry_address = registry, ft_builder_policy_address = policy,
           ft_builder_proof_version = fa_builder_proof_version args, ft_registered = registered,
           ft_enable_block_proofs = fa_enable_block_proofs args, ft_builder_signer = builder_key \<rparr>))))))"

definition bootstrap_flashtestations ::
  "boot_env \<Rightarrow> flashtestations_args \<Rightarrow> signer \<Rightarrow> files \<Rightarrow> (boot_error + ft_builder_tx) \<times> files" where
  "bootstrap_flashtestations bv args builder_key fs =
     (case load_or_generate_tee_key (bv_signing bv) (bv_hex bv) (bv_keys bv) (bv_random bv)
             (fa_flashtestations_key_path args) (fa_debug args) (fa_debug_tee_key_seed args) fs of
        (Inl _, fs') \<Rightarrow> (Inl (BootPanic ''Failed to create private key''), fs')
      | (Inr tee_signer, fs') \<Rightarrow> (boot_attest bv args tee_signer builder_key, fs'))"

section \<open>Lemmas\<close>

text \<open>Laws of hexadecimal coding.\<close>

definition hex_law :: "hex_ops \<Rightarrow> bool" where
  "hex_law hx \<longleftrightarrow> (\<forall>bs. hx_decode hx (hx_encode hx bs) = Inr bs \<and> (\<forall>c \<in> set (hx_encode hx bs). \<not> is_whitespace c))"

lemma length_report_data [simp]: "length (report_data a h) = 64"
  by (simp add: report_data_def)

lemma report_data_address: "take 20 (report_data a h) = to_be_bytes a"
  by (simp add: report_data_def)

text \<open>What the quote server answers, as its client sees it.\<close>

definition served_by :: "hex_ops \<Rightarrow> quote_source \<Rightarrow> quote_provider \<Rightarrow> (string \<Rightarrow> string + http_reply) \<Rightarrow> string \<Rightarrow> bool" where
  "served_by hx src prov http url \<longleftrightarrow>
     (\<forall>rd. length rd = 64 \<longrightarrow> (let reply = attest_handler hx src prov (hx_encode hx rd) in
        \<exists>body. http (url @ ''/'' @ hx_encode hx rd) = Inr \<lparr> rp_status = fst reply, rp_body = body \<rparr> \<and>
        (\<forall>bs. snd reply = OctetStream bs \<longrightarrow> body = bs)))"

text \<open>Client and server agree on the report data: the quote that is fetched is the one the provider gives for it.\<close>

lemma fetched_quote:
  assumes "hex_law hx" "served_by hx src prov http url" "length rd = 64" "get_attestation hx http url rd = Inr quote"
  shows "provider_get_attestation src prov rd = Inr quote"
proof -
  have dec: "hx_decode hx (hx_encode hx rd) = Inr rd" using assms(1) by (simp add: hex_law_def)
  obtain body where b: "http (url @ ''/'' @ hx_encode hx rd) =
      Inr \<lparr> rp_status = fst (attest_handler hx src prov (hx_encode hx rd)), rp_body = body \<rparr>"
    "\<And>bs. snd (attest_handler hx src prov (hx_encode hx rd)) = OctetStream bs \<Longrightarrow> body = bs"
    using assms(2,3) unfolding served_by_def Let_def by blast
  show ?thesis
  proof (cases "provider_get_attestation src prov rd")
    case (Inl e)
    then have "attest_handler hx src prov (hx_encode hx rd) = (500, Message ''Failed to get TDX attestation'')"
      using dec assms(3) by (simp add: attest_handler_def)
    then show ?thesis using assms(4) b(1) by (simp add: get_attestation_def)
  next
    case (Inr q)
    then have "attest_handler hx src prov (hx_encode hx rd) = (200, OctetStream q)"
      using dec assms(3) by (simp add: attest_handler_def)
    then show ?thesis using assms(4) b Inr by (simp add: get_attestation_def)
  qed
qed

lemma loaded_key_valid:
  assumes "load_tee_key so hx ks content = Some sn"
  shows "valid_signer so sn"
proof -
  obtain json key_hex where "content = Some json" and key: "ks_read ks json = Some key_hex"
    using assms by (auto simp: load_tee_key_def bind_eq_Some_conv)
  then show ?thesis
    using assms valid_signers(1) [of so _ sn]
    by (cases "hx_decode hx (trim key_hex)"; cases "try_from_secret so (from_be_bytes (projr (hx_decode hx (trim key_hex))))")
      (auto simp: load_tee_key_def split: if_split_asm)
qed

lemma tee_key_valid:
  assumes "load_or_generate_tee_key so hx ks random path dbg seed fs = (Inr sn, fs')"
  shows "valid_signer so sn"
  using assms valid_signers(3) [of so random] valid_signers(4) [of so seed sn] loaded_key_valid [of so hx ks "fs path" sn]
  by (auto simp: load_or_generate_tee_key_def Let_def split: if_split_asm option.split_asm)

text \<open>A registry without code answers every call with no bytes. Then registering panics, where an error would only be logged.\<close>

lemma empty_answers_panic:
  assumes "\<forall>req. rr_call rpc req = Inr []" "rr_wallet rpc (sn_secret (tm_builder_signer tm)) = Inr ()"
    "rr_connect rpc (tm_rpc_url tm) = Inr ()"
  shows "register_tee_service so abi rpc tm now attestation data = Inl (TmPanic ''slice length must be 32'')"
  using assms by (simp add: register_tee_service_def u256_from_be_slice_def b256_from_slice_def)

section \<open>A sample start\<close>

text \<open>Two letters a byte; a device whose quotes end in the report data.\<close>

fun demo_unhex :: "string \<Rightarrow> string + bytes" where
  "demo_unhex [] = Inr []"
| "demo_unhex [c] = Inl ''odd length''"
| "demo_unhex (c # d # cs) =
     and_then (demo_unhex cs) (\<lambda>bs. Inr (of_nat ((of_char c - 65) * 16 + (of_char d - 65)) # bs))"

definition demo_hex :: hex_ops where
  "demo_hex = \<lparr> hx_encode = (\<lambda>bs. concat (map (\<lambda>b. [char_of (65 + unat b div 16), char_of (65 + unat b mod 16)]) bs)),
     hx_decode = demo_unhex \<rparr>"

lemma demo_hex_law: "hex_law demo_hex"
proof -
  have byte: "unat b div 16 < 16" "unat b mod 16 < 16" for b :: u8
    using unat_le_max [of b] by simp_all
  have small: "(65 + unat b div 16) mod 256 = 65 + unat b div 16" "(65 + unat b mod 16) mod 256 = 65 + unat b mod 16" for b :: u8
    using byte [of b] by (intro mod_less; linarith)+
  have letter: "of_char (char_of (65 + n) :: char) = (65 + n :: nat)" "\<not> is_whitespace (char_of (65 + n))" if "n < 16" for n :: nat
  proof -
    show *: "of_char (char_of (65 + n) :: char) = (65 + n :: nat)" using that by simp
    have "is_whitespace c \<Longrightarrow> of_char c < (33 :: nat) \<or> 100 < (of_char c :: nat)" for c by (auto simp: is_whitespace_def)
    from this [of "char_of (65 + n)"] that show "\<not> is_whitespace (char_of (65 + n))" unfolding * by auto
  qed
  have "demo_unhex (hx_encode demo_hex bs) = Inr bs" for bs
    by (induction bs) (simp_all add: demo_hex_def letter byte small del: of_nat_add of_nat_mult)
  moreover have "\<forall>c \<in> set (hx_encode demo_hex bs). \<not> is_whitespace c" for bs
    by (auto simp: demo_hex_def letter byte)
  ultimately show ?thesis by (simp add: hex_law_def demo_hex_def)
qed

definition demo_quotes :: quote_source where
  "demo_quotes = \<lparr> tdx_report = (\<lambda>rd. Inr (replicate 568 1 @ rd)), read_file = (\<lambda>_. Inl ''no file'') \<rparr>"

definition demo_key_store :: key_store where
  "demo_key_store = \<lparr> ks_read = Some, ks_write = (\<lambda>old text. Some text) \<rparr>"

definition demo_registry_rpc :: registry_rpc where
  "demo_registry_rpc = \<lparr> rr_wallet = (\<lambda>_. Inr ()), rr_connect = (\<lambda>_. Inr ()), rr_call = (\<lambda>_. Inr []), rr_send = (\<lambda>_. Inl ''offline'') \<rparr>"

definition demo_boot_abi :: ft_abi where
  "demo_boot_abi = \<lparr> ft_abi_encode = (\<lambda>_. []), decode_registration_valid = (\<lambda>_. None), decode_uint256 = (\<lambda>_. None),
     decode_bytes32 = (\<lambda>_. None), decode_unit = (\<lambda>_. None), signature_as_bytes = (\<lambda>_. []),
     abi_encode_block_data = (\<lambda>_ _ _ _. []), tee_service_registered_topic = 1, block_builder_proof_verified_topic = 2 \<rparr>"

definition demo_boot :: boot_env where
  "demo_boot = \<lparr> bv_signing = demo_signing, bv_hex = demo_hex,
     bv_http = (\<lambda>url. let r = attest_handler demo_hex demo_quotes TdxAttestationProvider (drop 7 url) in
       Inr \<lparr> rp_status = fst r, rp_body = (case snd r of OctetStream bs \<Rightarrow> bs | _ \<Rightarrow> []) \<rparr>),
     bv_abi = demo_boot_abi, bv_rpc = demo_registry_rpc, bv_keys = demo_key_store, bv_random = 6, bv_unix_now = 0,
     bv_show_address = (\<lambda>_. ''0x'') \<rparr>"

definition demo_ft_args :: flashtestations_args where
  "demo_ft_args = \<lparr> fa_flashtestations_enabled = True, fa_debug = False, fa_debug_tee_key_seed = [],
     fa_flashtestations_key_path = ''key'', fa_quote_provider = Some ''attest'', fa_rpc_url = None, fa_enable_block_proofs = True,
     fa_registry_address = Some 5, fa_builder_policy_address = Some 6, fa_builder_proof_version = 1 \<rparr>"

lemma demo_served: "served_by demo_hex demo_quotes TdxAttestationProvider (bv_http demo_boot) ''attest''"
  by (simp add: served_by_def demo_boot_def Let_def)

lemma demo_boot_ok: "\<exists>ft fs'. bootstrap_flashtestations demo_boot demo_ft_args sn (\<lambda>_. None) = (Inr ft, fs')"
proof -
  let ?rd = "\<lambda>a. report_data a (keccak_256 demo_signing [])"
  have "hx_decode demo_hex (hx_encode demo_hex (?rd a)) = Inr (?rd a)" for a using demo_hex_law by (simp add: hex_law_def)
  then have got: "get_attestation (bv_hex demo_boot) (bv_http demo_boot) ''attest'' (?rd a) = Inr (replicate 568 1 @ ?rd a)" for a
    by (simp add: get_attestation_def demo_boot_def Let_def attest_handler_def provider_get_attestation_def demo_quotes_def)
  have sel: "bv_signing demo_boot = demo_signing" by (simp add: demo_boot_def)
  have "\<exists>ft. boot_attest demo_boot demo_ft_args tee sn = Inr ft" for tee
    by (simp add: boot_attest_def demo_ft_args_def get_attestation_provider_def sel got record_tee_metrics_def
        parse_report_body_spec boot_register_def Let_def)
  moreover have "\<exists>tee fs'. load_or_generate_tee_key so hx ks r path False seed (\<lambda>_. None) = (Inr tee, fs')" for so hx ks r path seed
    by (simp add: load_or_generate_tee_key_def load_tee_key_def Let_def)
  then obtain tee fs' where "load_or_generate_tee_key (bv_signing demo_boot) (bv_hex demo_boot) (bv_keys demo_boot) (bv_random demo_boot)
      (fa_flashtestations_key_path demo_ft_args) False (fa_debug_tee_key_seed demo_ft_args) (\<lambda>_. None) = (Inr tee, fs')" by blast
  moreover have "fa_debug demo_ft_args = False" by (simp add: demo_ft_args_def)
  ultimately show ?thesis by (simp add: bootstrap_flashtestations_def)
qed

section \<open>Properties\<close>

text \<open>C34: A start that succeeds with a quote server on trusted hardware has a quote that binds the key the builder registers: the
  quote is what the device reports for 64 bytes that begin with the address of the key and continue with the hash of
  the empty registration data; the key is consistent; and the quote is long enough to be parsed. The path from the builder
  over HTTP and hexadecimal coding to the device and back is covered.\<close>

theorem quote_binds_tee_key:
  assumes "bootstrap_flashtestations bv args builder_key fs = (Inr ft, fs')"
    and "get_attestation_provider \<lparr> ac_debug = fa_debug args, ac_quote_provider = fa_quote_provider args \<rparr> = Inr url"
    and "served_by (bv_hex bv) src TdxAttestationProvider (bv_http bv) url" and "hex_law (bv_hex bv)"
  shows "\<exists>rd. tdx_report src rd = Inr (ft_attestation ft) \<and> length rd = 64 \<and>
    take 20 rd = to_be_bytes (sn_address (ft_tee_service_signer ft)) \<and>
    take 32 (drop 20 rd) = to_be_bytes (keccak_256 (bv_signing bv) []) \<and>
    valid_signer (bv_signing bv) (ft_tee_service_signer ft) \<and> 632 \<le> length (ft_attestation ft)"
proof -
  let ?rd = "report_data (sn_address (ft_tee_service_signer ft)) (keccak_256 (bv_signing bv) [])"
  obtain tee where key: "load_or_generate_tee_key (bv_signing bv) (bv_hex bv) (bv_keys bv) (bv_random bv)
      (fa_flashtestations_key_path args) (fa_debug args) (fa_debug_tee_key_seed args) fs = (Inr tee, fs')"
    and boot: "boot_attest bv args tee builder_key = Inr ft"
    using assms(1) by (auto simp: bootstrap_flashtestations_def split: prod.splits sum.splits)
  obtain gauges where got: "ft_tee_service_signer ft = tee"
      "get_attestation (bv_hex bv) (bv_http bv) url ?rd = Inr (ft_attestation ft)"
      "record_tee_metrics (bv_signing bv) (bv_hex bv) (bv_show_address bv) (ft_attestation ft) (sn_address tee) = Inr gauges"
    using boot assms(2) by (auto simp: boot_attest_def and_then_eq_Inr Let_def)
  have "tdx_report src ?rd = Inr (ft_attestation ft)"
    using fetched_quote [OF assms(4,3) _ got(2)] by (simp add: provider_get_attestation_def)
  moreover have "632 \<le> length (ft_attestation ft)"
    using got(3) by (auto simp: record_tee_metrics_def and_then_eq_Inr parse_report_body_spec split: if_splits)
  moreover have "take 32 (drop 20 ?rd) = to_be_bytes (keccak_256 (bv_signing bv) [])" by (simp add: report_data_def)
  ultimately show ?thesis
    using tee_key_valid [OF key] got(1) report_data_address by (intro exI [of _ ?rd]) simp
qed

theorem quote_binds_tee_key_witness:
  "\<exists>ft fs' rd. bootstrap_flashtestations demo_boot demo_ft_args demo_signer (\<lambda>_. None) = (Inr ft, fs') \<and>
     tdx_report demo_quotes rd = Inr (ft_attestation ft) \<and> take 20 rd = to_be_bytes (sn_address (ft_tee_service_signer ft))"
proof -
  obtain ft fs' where run: "bootstrap_flashtestations demo_boot demo_ft_args demo_signer (\<lambda>_. None) = (Inr ft, fs')"
    using demo_boot_ok by blast
  have url: "get_attestation_provider \<lparr> ac_debug = fa_debug demo_ft_args, ac_quote_provider = fa_quote_provider demo_ft_args \<rparr> = Inr ''attest''"
    by (simp add: get_attestation_provider_def demo_ft_args_def)
  have "bv_hex demo_boot = demo_hex" by (simp add: demo_boot_def)
  then show ?thesis using quote_binds_tee_key [OF run url, of demo_quotes] demo_served demo_hex_law run by auto
qed

text \<open>The key survives a restart: a key that was generated because there was none, or no readable one, and could be
  written, is the key the next start uses, whatever randomness that has. The key is taken to be one the curve library
  accepts, and hexadecimal coding to be undone by decoding.\<close>

theorem tee_key_survives_restart:
  assumes "load_tee_key so hx ks (fs path) = None"
    and "load_or_generate_tee_key so hx ks random path False seed fs = (Inr sn, fs')"
    and "\<And>old text. ks_write ks old text = Some text" and "\<And>text. ks_read ks text = Some text"
    and "hex_law hx" and "secret_key_from_slice so random = Inr random"
  shows "load_or_generate_tee_key so hx ks random' path False seed' fs' = (Inr sn, fs') \<and> sn_secret sn = random"
proof -
  have sn: "sn = generate_signer so random" and fs': "fs' path = Some (hx_encode hx (to_be_bytes random))"
    using assms(1-3) by (auto simp: load_or_generate_tee_key_def Let_def generate_signer_def)
  have "trim (hx_encode hx (to_be_bytes random)) = hx_encode hx (to_be_bytes random)"
    using assms(5) by (intro trim_no_whitespace) (simp add: hex_law_def)
  moreover have "try_from_secret so random = Inr sn"
    using assms(6) sn by (simp add: try_from_secret_def generate_signer_def Let_def)
  ultimately have "load_tee_key so hx ks (fs' path) = Some sn"
    using fs' assms(4,5) from_to_be_bytes [of random] by (simp add: load_tee_key_def hex_law_def)
  then show ?thesis using sn by (simp add: load_or_generate_tee_key_def generate_signer_def Let_def)
qed

theorem tee_key_survives_restart_witness:
  "\<exists>fs. load_or_generate_tee_key demo_signing demo_hex demo_key_store 99 ''key'' False [] fs = (Inr (generate_signer demo_signing 6), fs)"
proof -
  have none: "load_tee_key demo_signing demo_hex demo_key_store None = None" by (simp add: load_tee_key_def)
  obtain fs' where "load_or_generate_tee_key demo_signing demo_hex demo_key_store 6 ''key'' False [] (\<lambda>_. None) =
      (Inr (generate_signer demo_signing 6), fs')"
    by (simp add: load_or_generate_tee_key_def load_tee_key_def Let_def)
  from tee_key_survives_restart [OF none this _ _ demo_hex_law, of 99 "[]"] show ?thesis
    by (auto simp: demo_key_store_def demo_signing_def)
qed

end
