(* ===== verification/Playground.thy ===== *)
theory Playground
  imports Strings Fb_Timing
begin

text \<open>
  The command line (\<^verbatim>\<open>args/mod.rs\<close>) and the defaults taken from a playground directory
  (\<^verbatim>\<open>args/playground.rs\<close>): the directory's files are read, a free port is chosen, and the arguments the user has
  not set are filled in. The file system, the random generator, the ports of the machine and the parsers of JSON, YAML and URLs
  are arguments. Choosing a port loops until one is free; its value \<^const>\<open>None\<close> means that it does not return.
\<close>

section \<open>Model: the environment\<close>

record 'y yaml_ops =
  ya_parse :: "string \<Rightarrow> string + 'y"
  ya_index :: "'y \<Rightarrow> string \<Rightarrow> 'y"
  ya_at :: "'y \<Rightarrow> nat \<Rightarrow> 'y"
  ya_as_sequence :: "'y \<Rightarrow> 'y list option"
  ya_as_str :: "'y \<Rightarrow> string option"

record 'j json_ops =
  js_parse :: "string \<Rightarrow> string + 'j"
  js_get :: "'j \<Rightarrow> string \<Rightarrow> 'j option"
  js_as_u64 :: "'j \<Rightarrow> u64 option"

text \<open>The answers of the machine to an attempt to bind a port and of the random generator depend on how often they were asked.\<close>

record ('c, 't, 'y, 'j) pg_env =
  pe_exists :: "string \<Rightarrow> bool"
  pe_read :: "string \<Rightarrow> string + string"
  pe_parse_chain :: "string \<Rightarrow> string + 'c"
  pe_yaml :: "'y yaml_ops"
  pe_json :: "'j json_ops"
  pe_url_port :: "string \<Rightarrow> string + u16 option"
  pe_hex_decode :: "string \<Rightarrow> string + bytes"
  pe_secret_key :: "bytes \<Rightarrow> string + b256"
  pe_trusted_peer :: "u16 \<Rightarrow> b256 \<Rightarrow> 't"
  pe_port_free :: "nat \<Rightarrow> u16 \<Rightarrow> bool"
  pe_random :: "u16 \<Rightarrow> u16 \<Rightarrow> nat \<Rightarrow> u16"

section \<open>Model: reading the directory\<close>

definition path_join :: "string \<Rightarrow> string \<Rightarrow> string" where
  "path_join base relative = (if base = [] \<or> last base = CHR ''/'' then base @ relative else base @ ''/'' @ relative)"

definition existing_path :: "('c, 't, 'y, 'j) pg_env \<Rightarrow> string \<Rightarrow> string \<Rightarrow> string + string" where
  "existing_path pe base relative =
     (if pe_exists pe (path_join base relative) then Inr (path_join base relative)
      else Inl (''Expected file '' @ relative @ '' is not present in playground directory '' @ base))"

definition read_existing :: "('c, 't, 'y, 'j) pg_env \<Rightarrow> string \<Rightarrow> string \<Rightarrow> string + string" where
  "read_existing pe base relative = and_then (existing_path pe base relative) (pe_read pe)"

definition extract_chain_block_time :: "('c, 't, 'y, 'j) pg_env \<Rightarrow> string \<Rightarrow> string + duration" where
  "extract_chain_block_time pe base =
     and_then (read_existing pe base ''rollup.json'') (\<lambda>content.
     and_then (js_parse (pe_json pe) content) (\<lambda>json.
     and_then (ok_or ''Missing chain_block_time in rollup.json''
       (Option.bind (js_get (pe_json pe) json ''block_time'') (js_as_u64 (pe_json pe)))) (\<lambda>secs.
     Inr (from_secs secs))))"

definition extract_deterministic_p2p_key :: "('c, 't, 'y, 'j) pg_env \<Rightarrow> string \<Rightarrow> string + b256" where
  "extract_deterministic_p2p_key pe base =
     and_then (read_existing pe base ''enode-key-1.txt'') (\<lambda>key.
     and_then (map_err (\<lambda>e. ''Invalid hex key: '' @ e) (pe_hex_decode pe key)) (pe_secret_key pe))"

definition read_docker_compose :: "('c, 't, 'y, 'j) pg_env \<Rightarrow> string \<Rightarrow> string + 'y" where
  "read_docker_compose pe base =
     and_then (read_existing pe base ''docker-compose.yaml'') (\<lambda>content.
       map_err (\<lambda>e. ''Invalid docker-compose file: '' @ e) (ya_parse (pe_yaml pe) content))"

definition service_entry :: "'y yaml_ops \<Rightarrow> 'y \<Rightarrow> string \<Rightarrow> string \<Rightarrow> 'y" where
  "service_entry ya compose service entry = ya_index ya (ya_index ya (ya_index ya compose ''services'') service) entry"

text \<open>The argument that follows a flag.\<close>

definition flag_value :: "string list \<Rightarrow> string \<Rightarrow> string \<Rightarrow> string \<Rightarrow> string + string" where
  "flag_value args flag no_flag no_value =
     and_then (ok_or no_flag (position_of (\<lambda>arg. arg = flag) args)) (\<lambda>index.
       if index + 1 < length args then Inr (args ! (index + 1)) else Inl no_value)"

definition extract_service_command_flag ::
  "('c, 't, 'y, 'j) pg_env \<Rightarrow> string \<Rightarrow> string \<Rightarrow> string \<Rightarrow> string + string" where
  "extract_service_command_flag pe base service flag =
     and_then (read_docker_compose pe base) (\<lambda>compose.
     and_then (ok_or (''docker-compose.yaml is missing command line arguments for '' @ service)
       (ya_as_sequence (pe_yaml pe) (service_entry (pe_yaml pe) compose service ''command''))) (\<lambda>items.
     and_then (collect_ok (\<lambda>item. ok_or ''docker-compose.yaml service command line argument is not a string''
       (ya_as_str (pe_yaml pe) item)) items) (\<lambda>args.
     flag_value args flag (''docker_compose: '' @ flag @ '' not found on '' @ service @ '' service'')
       (''docker_compose: '' @ flag @ '' value not found''))))"

definition extract_authrpc_port :: "('c, 't, 'y, 'j) pg_env \<Rightarrow> string \<Rightarrow> string + u16" where
  "extract_authrpc_port pe base =
     and_then (extract_service_command_flag pe base ''rollup-boost'' ''--builder-url'') (\<lambda>builder_url.
     and_then (map_err (\<lambda>e. ''Invalid builder-url: '' @ e) (pe_url_port pe builder_url)) (\<lambda>port.
     ok_or ''missing builder-url port'' port))"

text \<open>The outside port of a mapping: the second part, in the first mapping that contains a colon and the inside port.\<close>

definition mapped_port :: "u16 \<Rightarrow> string list \<Rightarrow> string + u16" where
  "mapped_port port_value mappings =
     and_then (ok_or ''docker_compose: external port mapping not found for op-geth''
       (find (\<lambda>mapping. contains mapping ('':'' @ decimal (unat port_value))) mappings)) (\<lambda>mapping.
     and_then (if 1 < length (split_char CHR '':'' mapping) then Inr (split_char CHR '':'' mapping ! 1)
       else Inl ''docker_compose: external port mapping for op-geth is not valid'') (\<lambda>part.
     ok_or ''Invalid external port mapping value for op-geth'' (parse_u16 part)))"

definition extract_trusted_peer_port :: "('c, 't, 'y, 'j) pg_env \<Rightarrow> string \<Rightarrow> string + u16" where
  "extract_trusted_peer_port pe base =
     and_then (read_docker_compose pe base) (\<lambda>compose.
     and_then (ok_or ''docker-compose.yaml is missing command line arguments for op-geth''
       (ya_as_str (pe_yaml pe) (ya_at (pe_yaml pe) (service_entry (pe_yaml pe) compose ''op-geth'' ''command'') 1))) (\<lambda>args.
     and_then (flag_value (split_whitespace args) ''--port'' ''docker_compose: --port param not found on op-geth service''
       ''docker_compose: --port value not found'') (\<lambda>value.
     and_then (ok_or ''Invalid port value'' (parse_u16 value)) (\<lambda>port_value.
     and_then (ok_or ''docker-compose.yaml is missing ports mapping for op-geth''
       (ya_as_sequence (pe_yaml pe) (service_entry (pe_yaml pe) compose ''op-geth'' ''ports''))) (\<lambda>items.
     and_then (collect_ok (\<lambda>item. ok_or ''docker-compose.yaml service ports mapping in op-geth is not a string''
       (ya_as_str (pe_yaml pe) item)) items) (\<lambda>mappings.
     mapped_port port_value mappings))))))"

section \<open>Model: ports\<close>

partial_function (option) pick_random_port :: "('c, 't, 'y, 'j) pg_env \<Rightarrow> u16 \<Rightarrow> u16 \<Rightarrow> nat \<Rightarrow> (u16 \<times> nat) option" where
  "pick_random_port pe lo hi n =
     (let port = pe_random pe lo hi n in
      if pe_port_free pe n port then Some (port, Suc n) else pick_random_port pe lo hi (Suc n))"

definition pick_preferred_port :: "('c, 't, 'y, 'j) pg_env \<Rightarrow> u16 \<Rightarrow> u16 \<Rightarrow> u16 \<Rightarrow> nat \<Rightarrow> (u16 \<times> nat) option" where
  "pick_preferred_port pe preferred lo hi n =
     (if \<not> pe_port_free pe n preferred then pick_random_port pe lo hi (Suc n) else Some (preferred, Suc n))"

section \<open>Model: the options\<close>

record ('c, 't) playground_options =
  po_chain :: 'c
  po_http_port :: u16
  po_authrpc_addr :: nat
  po_authrpc_port :: u16
  po_authrpc_jwtsecret :: string
  po_port :: u16
  po_trusted_peer :: 't
  po_chain_block_time :: duration

definition playground_new :: "('c, 't, 'y, 'j) pg_env \<Rightarrow> string \<Rightarrow> (string + ('c, 't) playground_options) option" where
  "playground_new pe path =
     (if \<not> pe_exists pe path then Some (Inl (''Playground data directory '' @ path @ '' does not exist''))
      else case and_then (existing_path pe path ''l2-genesis.json'') (pe_parse_chain pe) of
        Inl e \<Rightarrow> Some (Inl e)
      | Inr chain \<Rightarrow>
          Option.bind (pick_preferred_port pe 2222 3000 9999 0) (\<lambda>(http_port, n).
          case existing_path pe path ''jwtsecret'' of
            Inl e \<Rightarrow> Some (Inl e)
          | Inr jwt \<Rightarrow>
              Option.bind (pick_preferred_port pe 30333 30000 65535 n) (\<lambda>(port, n').
              Some (
                and_then (extract_chain_block_time pe path) (\<lambda>block_time.
                and_then (extract_authrpc_port pe path) (\<lambda>authrpc_port.
                and_then (extract_trusted_peer_port pe path) (\<lambda>peer_port.
                and_then (extract_deterministic_p2p_key pe path) (\<lambda>key.
                Inr \<lparr> po_chain = chain, po_http_port = http_port, po_authrpc_addr = 0, po_authrpc_port = authrpc_port,
                      po_authrpc_jwtsecret = jwt, po_port = port, po_trusted_peer = pe_trusted_peer pe peer_port key,
                      po_chain_block_time = block_time \<rparr>))))))))"

section \<open>Model: the command line\<close>

datatype value_source = DefaultValue | EnvVariable | CommandLine

fun is_default :: "value_source option \<Rightarrow> bool" where
  "is_default (Some DefaultValue) = True"
| "is_default None = True"
| "is_default _ = False"

record ('c, 't) node_command =
  nc_chain :: 'c
  nc_http :: bool
  nc_http_port :: u16
  nc_port :: u16
  nc_auth_addr :: nat
  nc_auth_port :: u16
  nc_auth_jwtsecret :: "string option"
  nc_disable_discovery :: bool
  nc_trusted_peers :: "'t list"
  nc_ext :: op_rbuilder_args

datatype ('c, 't) cli = NodeCommand "('c, 't) node_command" | OtherCommand

definition set_default :: "(string \<Rightarrow> value_source option) \<Rightarrow> string \<Rightarrow> ('n \<Rightarrow> 'n) \<Rightarrow> 'n \<Rightarrow> 'n" where
  "set_default sources arg f node = (if is_default (sources arg) then f node else node)"

definition playground_apply ::
  "(string \<Rightarrow> value_source option) \<Rightarrow> ('c, 't) playground_options \<Rightarrow> ('c, 't) cli \<Rightarrow> ('c, 't) cli" where
  "playground_apply sources opts cli =
     (case cli of
        OtherCommand \<Rightarrow> cli
      | NodeCommand node \<Rightarrow> NodeCommand (
          let node = (if po_trusted_peer opts \<in> set (nc_trusted_peers node) then node
                      else node \<lparr> nc_trusted_peers := nc_trusted_peers node @ [po_trusted_peer opts] \<rparr>);
              node = set_default sources ''chain'' (nc_chain_update (\<lambda>_. po_chain opts)) node;
              node = set_default sources ''http'' (nc_http_update (\<lambda>_. True)) node;
              node = set_default sources ''http_port'' (nc_http_port_update (\<lambda>_. po_http_port opts)) node;
              node = set_default sources ''port'' (nc_port_update (\<lambda>_. po_port opts)) node;
              node = set_default sources ''auth_addr'' (nc_auth_addr_update (\<lambda>_. po_authrpc_addr opts)) node;
              node = set_default sources ''auth_port'' (nc_auth_port_update (\<lambda>_. po_authrpc_port opts)) node;
              node = set_default sources ''auth_jwtsecret'' (nc_auth_jwtsecret_update (\<lambda>_. Some (po_authrpc_jwtsecret opts))) node;
              node = set_default sources ''disable_discovery'' (nc_disable_discovery_update (\<lambda>_. True)) node
          in set_default sources ''chain_block_time''
               (nc_ext_update (chain_block_time_update (\<lambda>_. of_nat (as_millis (po_chain_block_time opts))))) node))"

text \<open>A directory that cannot be used ends the process, with the message as the left value.\<close>

definition populate_defaults ::
  "('c, 't, 'y, 'j) pg_env \<Rightarrow> (string \<Rightarrow> value_source option) \<Rightarrow> ('c, 't) cli \<Rightarrow> (string + ('c, 't) cli) option" where
  "populate_defaults pe sources cli =
     (case cli of
        OtherCommand \<Rightarrow> Some (Inr cli)
      | NodeCommand node \<Rightarrow>
          (case playground (nc_ext node) of
             None \<Rightarrow> Some (Inr cli)
           | Some dir \<Rightarrow>
               Option.bind (playground_new pe dir) (\<lambda>result.
                 Some (and_then result (\<lambda>opts. Inr (playground_apply sources opts cli))))))"

datatype builder_mode = StandardMode | FlashblocksMode

definition builder_mode_of :: "('c, 't) cli \<Rightarrow> builder_mode" where
  "builder_mode_of cli =
     (case cli of
        NodeCommand node \<Rightarrow> if flashblocks_enabled (flashblocks (nc_ext node)) then FlashblocksMode else StandardMode
      | OtherCommand \<Rightarrow> StandardMode)"

section \<open>Lemmas\<close>

text \<open>The random generator stays in its range, and sooner or later draws a port that is free then.\<close>

definition ports_law :: "('c, 't, 'y, 'j) pg_env \<Rightarrow> bool" where
  "ports_law pe \<longleftrightarrow> (\<forall>lo hi n. lo < hi \<longrightarrow>
     lo \<le> pe_random pe lo hi n \<and> pe_random pe lo hi n < hi \<and> (\<exists>m \<ge> n. pe_port_free pe m (pe_random pe lo hi m)))"

text \<open>The preferred port if it was free when it was tried, and otherwise one of the range that was free when it was tried later.\<close>

definition port_from :: "('c, 't, 'y, 'j) pg_env \<Rightarrow> nat \<Rightarrow> u16 \<Rightarrow> u16 \<Rightarrow> u16 \<Rightarrow> u16 \<Rightarrow> bool" where
  "port_from pe n preferred lo hi port \<longleftrightarrow>
     (if pe_port_free pe n preferred then port = preferred
      else lo \<le> port \<and> port < hi \<and> (\<exists>m > n. pe_port_free pe m port))"

lemma pick_random_port_returns:
  assumes "n \<le> m" "pe_port_free pe m (pe_random pe lo hi m)"
  shows "\<exists>k. n \<le> k \<and> pick_random_port pe lo hi n = Some (pe_random pe lo hi k, Suc k) \<and> pe_port_free pe k (pe_random pe lo hi k)"
  using assms
proof (induction "m - n" arbitrary: n)
  case 0
  then show ?case by (auto simp: pick_random_port.simps [of pe lo hi n] Let_def)
next
  case (Suc d)
  show ?case
  proof (cases "pe_port_free pe n (pe_random pe lo hi n)")
    case False
    have "d = m - Suc n" "Suc n \<le> m" using Suc.hyps(2) by linarith+
    from Suc.hyps(1) [OF this Suc.prems(2)] show ?thesis
      using False by (auto simp: pick_random_port.simps [of pe lo hi n] Let_def intro: Suc_leD)
  qed (auto simp: pick_random_port.simps [of pe lo hi n] Let_def)
qed

lemma pick_preferred_port_returns:
  assumes "ports_law pe" "lo < hi"
  shows "\<exists>port n'. pick_preferred_port pe preferred lo hi n = Some (port, n') \<and> n < n' \<and> port_from pe n preferred lo hi port"
proof (cases "pe_port_free pe n preferred")
  case False
  obtain m where "Suc n \<le> m" "pe_port_free pe m (pe_random pe lo hi m)" using assms unfolding ports_law_def by blast
  from pick_random_port_returns [OF this] obtain k where "n < k"
    "pick_random_port pe lo hi (Suc n) = Some (pe_random pe lo hi k, Suc k)" "pe_port_free pe k (pe_random pe lo hi k)" by fastforce
  moreover have "lo \<le> pe_random pe lo hi k" "pe_random pe lo hi k < hi" using assms unfolding ports_law_def by blast+
  ultimately show ?thesis using False by (auto simp: pick_preferred_port_def port_from_def)
qed (auto simp: pick_preferred_port_def port_from_def)

text \<open>What the directory must have.\<close>

definition usable :: "('c, 't, 'y, 'j) pg_env \<Rightarrow> string \<Rightarrow> bool" where
  "usable pe dir \<longleftrightarrow> pe_exists pe dir \<and> is_ok (and_then (existing_path pe dir ''l2-genesis.json'') (pe_parse_chain pe)) \<and>
     is_ok (existing_path pe dir ''jwtsecret'') \<and> is_ok (extract_chain_block_time pe dir) \<and>
     is_ok (extract_authrpc_port pe dir) \<and> is_ok (extract_trusted_peer_port pe dir) \<and> is_ok (extract_deterministic_p2p_key pe dir)"

lemma is_ok_iff: "is_ok r \<longleftrightarrow> (\<exists>x. r = Inr x)"
  by (cases r) auto

lemma and_then_is_ok: "is_ok (and_then r f) \<longleftrightarrow> (\<exists>x. r = Inr x \<and> is_ok (f x))"
  by (cases r) auto

text \<open>What the options of a directory are.\<close>

definition directory_options :: "('c, 't, 'y, 'j) pg_env \<Rightarrow> string \<Rightarrow> ('c, 't) playground_options \<Rightarrow> bool" where
  "directory_options pe dir opts \<longleftrightarrow>
     and_then (existing_path pe dir ''l2-genesis.json'') (pe_parse_chain pe) = Inr (po_chain opts) \<and>
     port_from pe 0 2222 3000 9999 (po_http_port opts) \<and>
     po_authrpc_addr opts = 0 \<and>
     extract_authrpc_port pe dir = Inr (po_authrpc_port opts) \<and>
     existing_path pe dir ''jwtsecret'' = Inr (po_authrpc_jwtsecret opts) \<and>
     (\<exists>n > 0. port_from pe n 30333 30000 65535 (po_port opts)) \<and>
     (\<exists>port key. extract_trusted_peer_port pe dir = Inr port \<and> extract_deterministic_p2p_key pe dir = Inr key \<and>
        po_trusted_peer opts = pe_trusted_peer pe port key) \<and>
     extract_chain_block_time pe dir = Inr (po_chain_block_time opts)"

lemma playground_new_spec:
  assumes "ports_law pe"
  shows "\<exists>r. playground_new pe dir = Some r \<and> (is_ok r \<longleftrightarrow> usable pe dir) \<and> (\<forall>opts. r = Inr opts \<longrightarrow> directory_options pe dir opts)"
proof (cases "pe_exists pe dir \<and> is_ok (and_then (existing_path pe dir ''l2-genesis.json'') (pe_parse_chain pe))")
  case True
  then obtain chain where chain: "pe_exists pe dir" "and_then (existing_path pe dir ''l2-genesis.json'') (pe_parse_chain pe) = Inr chain"
    by (auto simp: is_ok_iff)
  obtain http_port n where http: "pick_preferred_port pe 2222 3000 9999 0 = Some (http_port, n)" "port_from pe 0 2222 3000 9999 http_port" "0 < n"
    using pick_preferred_port_returns [OF assms, of 3000 9999 2222 0] by auto
  obtain port n' where port: "pick_preferred_port pe 30333 30000 65535 n = Some (port, n')" "port_from pe n 30333 30000 65535 port"
    using pick_preferred_port_returns [OF assms, of 30000 65535 30333 n] by auto
  show ?thesis
  proof (cases "existing_path pe dir ''jwtsecret''")
    case (Inl e)
    then show ?thesis using chain http by (simp add: playground_new_def usable_def)
  next
    case (Inr jwt)
    then show ?thesis
      using chain http port
      by (auto simp: playground_new_def usable_def directory_options_def and_then_is_ok and_then_eq_Inr is_ok_iff) blast
  qed
next
  case False
  then show ?thesis
    by (cases "pe_exists pe dir"; cases "and_then (existing_path pe dir ''l2-genesis.json'') (pe_parse_chain pe)")
      (auto simp: playground_new_def usable_def)
qed

text \<open>What applying the options does to each value.\<close>

lemma set_default_keep: "(\<And>n. g (f n) = g n) \<Longrightarrow> g (set_default sources arg f node) = g node"
  by (simp add: set_default_def)

lemmas set_default_keeps =
  set_default_keep [where g = nc_chain]
  set_default_keep [where g = nc_http]
  set_default_keep [where g = nc_http_port]
  set_default_keep [where g = nc_port]
  set_default_keep [where g = nc_auth_addr]
  set_default_keep [where g = nc_auth_port]
  set_default_keep [where g = nc_auth_jwtsecret]
  set_default_keep [where g = nc_disable_discovery]
  set_default_keep [where g = nc_ext]
  set_default_keep [where g = nc_trusted_peers]

lemma set_default_sets:
  "nc_chain (set_default sources arg (nc_chain_update f0) node) = (if is_default (sources arg) then f0 (nc_chain node) else nc_chain node)"
  "nc_http_port (set_default sources arg (nc_http_port_update f1) node) = (if is_default (sources arg) then f1 (nc_http_port node) else nc_http_port node)"
  "nc_port (set_default sources arg (nc_port_update f2) node) = (if is_default (sources arg) then f2 (nc_port node) else nc_port node)"
  "nc_auth_port (set_default sources arg (nc_auth_port_update f3) node) = (if is_default (sources arg) then f3 (nc_auth_port node) else nc_auth_port node)"
  "nc_auth_jwtsecret (set_default sources arg (nc_auth_jwtsecret_update f4) node) = (if is_default (sources arg) then f4 (nc_auth_jwtsecret node) else nc_auth_jwtsecret node)"
  "nc_disable_discovery (set_default sources arg (nc_disable_discovery_update f5) node) = (if is_default (sources arg) then f5 (nc_disable_discovery node) else nc_disable_discovery node)"
  "nc_ext (set_default sources arg (nc_ext_update f6) node) = (if is_default (sources arg) then f6 (nc_ext node) else nc_ext node)"
  "nc_http (set_default sources arg (nc_http_update f7) node) = (if is_default (sources arg) then f7 (nc_http node) else nc_http node)"
  "nc_auth_addr (set_default sources arg (nc_auth_addr_update f8) node) = (if is_default (sources arg) then f8 (nc_auth_addr node) else nc_auth_addr node)"
  by (simp_all add: set_default_def)

lemma apply_spec:
  "\<exists>node'. playground_apply sources opts (NodeCommand node) = NodeCommand node' \<and>
     builder_mode_of (NodeCommand node') = builder_mode_of (NodeCommand node) \<and>
     nc_chain node' = (if is_default (sources ''chain'') then po_chain opts else nc_chain node) \<and>
     nc_http node' = (is_default (sources ''http'') \<or> nc_http node) \<and>
     nc_http_port node' = (if is_default (sources ''http_port'') then po_http_port opts else nc_http_port node) \<and>
     nc_port node' = (if is_default (sources ''port'') then po_port opts else nc_port node) \<and>
     nc_auth_addr node' = (if is_default (sources ''auth_addr'') then po_authrpc_addr opts else nc_auth_addr node) \<and>
     nc_auth_port node' = (if is_default (sources ''auth_port'') then po_authrpc_port opts else nc_auth_port node) \<and>
     nc_auth_jwtsecret node' =
       (if is_default (sources ''auth_jwtsecret'') then Some (po_authrpc_jwtsecret opts) else nc_auth_jwtsecret node) \<and>
     nc_disable_discovery node' = (is_default (sources ''disable_discovery'') \<or> nc_disable_discovery node) \<and>
     nc_ext node' = (if is_default (sources ''chain_block_time'')
       then nc_ext node \<lparr> chain_block_time := of_nat (as_millis (po_chain_block_time opts)) \<rparr> else nc_ext node) \<and>
     nc_trusted_peers node' =
       nc_trusted_peers node @ (if po_trusted_peer opts \<in> set (nc_trusted_peers node) then [] else [po_trusted_peer opts])"
  by (simp add: playground_apply_def Let_def builder_mode_of_def set_default_sets set_default_keeps if_distrib [of flashblocks])

lemma flag_value_found:
  "args = pre @ flag # val # post \<Longrightarrow> flag \<notin> set pre \<Longrightarrow> flag_value args flag e e' = Inr val"
proof -
  assume a: "args = pre @ flag # val # post" "flag \<notin> set pre"
  then have "position_of (\<lambda>arg. arg = flag) args = Some (length pre)"
    by (auto simp: position_of_eq nth_append)
  then show ?thesis using a by (simp add: flag_value_def nth_append)
qed

lemma mapped_port_found:
  assumes "\<forall>m \<in> set before. \<not> contains m ('':'' @ decimal (unat inner))"
    and "mapping = host @ '':'' @ decimal (unat outer) @ '':'' @ decimal (unat inner) @ digits" and "CHR '':'' \<notin> set host"
  shows "mapped_port inner (before @ mapping # after) = Inr outer"
proof -
  have "contains mapping ('':'' @ decimal (unat inner))"
    using contains_append [of "host @ '':'' @ decimal (unat outer)" "'':'' @ decimal (unat inner)" digits] by (simp add: assms(2))
  moreover have "find P before = None" if "\<forall>m \<in> set before. \<not> P m" for P using that by (simp add: find_None_iff)
  moreover have "find P (xs @ ys) = (case find P xs of None \<Rightarrow> find P ys | r \<Rightarrow> r)" for P and xs ys :: "string list"
    by (induction xs) auto
  ultimately have "find (\<lambda>m. contains m ('':'' @ decimal (unat inner))) (before @ mapping # after) = Some mapping"
    using assms(1) by simp
  moreover have "CHR '':'' \<notin> set (decimal (unat outer))" by (rule decimal_no_char) (simp add: is_digit_def)
  then have "split_char CHR '':'' mapping = host # decimal (unat outer) # split_char CHR '':'' (decimal (unat inner) @ digits)"
    using assms(3) by (simp add: assms(2) split_char_append)
  ultimately show ?thesis by (auto simp: mapped_port_def parse_decimal)
qed

section \<open>A sample playground\<close>

datatype demo_yaml = YMap "(string \<times> demo_yaml) list" | YSeq "demo_yaml list" | YStr string

definition demo_yaml_ops :: "demo_yaml \<Rightarrow> demo_yaml yaml_ops" where
  "demo_yaml_ops compose = \<lparr> ya_parse = (\<lambda>_. Inr compose),
     ya_index = (\<lambda>y k. case y of YMap m \<Rightarrow> (case map_of m k of Some v \<Rightarrow> v | None \<Rightarrow> YStr []) | _ \<Rightarrow> YStr []),
     ya_at = (\<lambda>y i. case y of YSeq ys \<Rightarrow> if i < length ys then ys ! i else YStr [] | _ \<Rightarrow> YStr []),
     ya_as_sequence = (\<lambda>y. case y of YSeq ys \<Rightarrow> Some ys | _ \<Rightarrow> None),
     ya_as_str = (\<lambda>y. case y of YStr t \<Rightarrow> Some t | _ \<Rightarrow> None) \<rparr>"

definition demo_compose :: "string \<Rightarrow> string list \<Rightarrow> demo_yaml" where
  "demo_compose geth_args mappings = YMap [(''services'', YMap [
     (''rollup-boost'', YMap [(''command'', YSeq [YStr ''--builder-url'', YStr ''http://host:4444''])]),
     (''op-geth'', YMap [(''command'', YSeq [YStr ''-c'', YStr geth_args]), (''ports'', YSeq (map YStr mappings))])])]"

text \<open>The first attempt to bind a port fails.\<close>

definition demo_pg :: "demo_yaml \<Rightarrow> (unit, u16 \<times> b256, demo_yaml, u64) pg_env" where
  "demo_pg compose = \<lparr> pe_exists = (\<lambda>_. True), pe_read = (\<lambda>_. Inr []), pe_parse_chain = (\<lambda>_. Inr ()), pe_yaml = demo_yaml_ops compose,
     pe_json = \<lparr> js_parse = (\<lambda>_. Inr 2), js_get = (\<lambda>j k. if k = ''block_time'' then Some j else None), js_as_u64 = Some \<rparr>,
     pe_url_port = (\<lambda>_. Inr (Some 4444)), pe_hex_decode = (\<lambda>_. Inr [1]), pe_secret_key = (\<lambda>_. Inr 1), pe_trusted_peer = Pair,
     pe_port_free = (\<lambda>n _. 0 < n), pe_random = (\<lambda>lo hi n. lo) \<rparr>"

definition demo_node_command :: "(unit, u16 \<times> b256) node_command" where
  "demo_node_command = \<lparr> nc_chain = (), nc_http = False, nc_http_port = 8545, nc_port = 30303, nc_auth_addr = 1, nc_auth_port = 8551,
     nc_auth_jwtsecret = None, nc_disable_discovery = False, nc_trusted_peers = [],
     nc_ext = op_rbuilder_args_default \<lparr> playground := Some ''devnet'' \<rparr> \<rparr>"

lemma demo_ports: "ports_law (demo_pg compose)"
  by (auto simp: ports_law_def demo_pg_def intro: exI [of "\<lambda>m. _ \<le> m \<and> 0 < m", OF conjI [OF le_SucI [OF order_refl] zero_less_Suc]])

lemma demo_docker: "read_docker_compose (demo_pg compose) dir = Inr compose"
  by (simp add: read_docker_compose_def read_existing_def existing_path_def demo_pg_def demo_yaml_ops_def)

section \<open>Properties\<close>

text \<open>C38: Filling in the playground's defaults always ends. It ends the process exactly when the directory or something in it is missing
  or malformed. Otherwise each of the nine values is kept if the user has set it, and filled in if not: the chain and the
  secret are the directory's files, HTTP is on and discovery off, the engine listens on all addresses at the port of the directory's builder URL, a port is the
  preferred one if that was free, and otherwise one of its range that was free when it was tried, and the block time is that of the directory in
  milliseconds. No other argument of the builder changes, so its mode stays as it was. The peers the user trusts stay trusted, and the
  directory's peer, of the mapped port and the deterministic key, is added unless it is one of them.
  The random generator is taken to stay in its range and to draw a free port sooner or later.\<close>

theorem playground_defaults_fill_in:
  assumes "ports_law pe" and "playground (nc_ext node) = Some dir"
  shows "\<exists>r. populate_defaults pe sources (NodeCommand node) = Some r \<and> (is_ok r \<longleftrightarrow> usable pe dir) \<and>
    (\<forall>cli'. r = Inr cli' \<longrightarrow> builder_mode_of cli' = builder_mode_of (NodeCommand node) \<and>
      (\<exists>node'. cli' = NodeCommand node' \<and>
        (if is_default (sources ''chain'')
         then and_then (existing_path pe dir ''l2-genesis.json'') (pe_parse_chain pe) = Inr (nc_chain node')
         else nc_chain node' = nc_chain node) \<and>
        nc_http node' = (is_default (sources ''http'') \<or> nc_http node) \<and>
        (if is_default (sources ''http_port'') then port_from pe 0 2222 3000 9999 (nc_http_port node')
         else nc_http_port node' = nc_http_port node) \<and>
        (if is_default (sources ''port'') then \<exists>n > 0. port_from pe n 30333 30000 65535 (nc_port node') else nc_port node' = nc_port node) \<and>
        nc_auth_addr node' = (if is_default (sources ''auth_addr'') then 0 else nc_auth_addr node) \<and>
        (if is_default (sources ''auth_port'') then extract_authrpc_port pe dir = Inr (nc_auth_port node')
         else nc_auth_port node' = nc_auth_port node) \<and>
        (if is_default (sources ''auth_jwtsecret'')
         then \<exists>path. existing_path pe dir ''jwtsecret'' = Inr path \<and> nc_auth_jwtsecret node' = Some path
         else nc_auth_jwtsecret node' = nc_auth_jwtsecret node) \<and>
        nc_disable_discovery node' = (is_default (sources ''disable_discovery'') \<or> nc_disable_discovery node) \<and>
        (if is_default (sources ''chain_block_time'')
         then \<exists>t. extract_chain_block_time pe dir = Inr t \<and> chain_block_time (nc_ext node') = of_nat (t div 1000000)
         else nc_ext node' = nc_ext node) \<and>
        nc_ext node' \<lparr> chain_block_time := 0 \<rparr> = nc_ext node \<lparr> chain_block_time := 0 \<rparr> \<and>
        (\<exists>port key. extract_trusted_peer_port pe dir = Inr port \<and> extract_deterministic_p2p_key pe dir = Inr key \<and>
           nc_trusted_peers node' = nc_trusted_peers node @
             (if pe_trusted_peer pe port key \<in> set (nc_trusted_peers node) then [] else [pe_trusted_peer pe port key]))))"
proof -
  obtain r where r: "playground_new pe dir = Some r" "is_ok r \<longleftrightarrow> usable pe dir"
    and opts: "\<And>opts. r = Inr opts \<Longrightarrow> directory_options pe dir opts"
    using playground_new_spec [OF assms(1), of dir] by blast
  show ?thesis
  proof (cases r)
    case (Inl e)
    then show ?thesis using r assms(2) by (simp add: populate_defaults_def)
  next
    case (Inr opt)
    obtain node' where node': "playground_apply sources opt (NodeCommand node) = NodeCommand node'"
      "builder_mode_of (NodeCommand node') = builder_mode_of (NodeCommand node)"
      and sel: "nc_chain node' = (if is_default (sources ''chain'') then po_chain opt else nc_chain node)"
      "nc_http node' = (is_default (sources ''http'') \<or> nc_http node)"
      "nc_http_port node' = (if is_default (sources ''http_port'') then po_http_port opt else nc_http_port node)"
      "nc_port node' = (if is_default (sources ''port'') then po_port opt else nc_port node)"
      "nc_auth_addr node' = (if is_default (sources ''auth_addr'') then po_authrpc_addr opt else nc_auth_addr node)"
      "nc_auth_port node' = (if is_default (sources ''auth_port'') then po_authrpc_port opt else nc_auth_port node)"
      "nc_auth_jwtsecret node' =
         (if is_default (sources ''auth_jwtsecret'') then Some (po_authrpc_jwtsecret opt) else nc_auth_jwtsecret node)"
      "nc_disable_discovery node' = (is_default (sources ''disable_discovery'') \<or> nc_disable_discovery node)"
      "nc_ext node' = (if is_default (sources ''chain_block_time'')
         then nc_ext node \<lparr> chain_block_time := of_nat (as_millis (po_chain_block_time opt)) \<rparr> else nc_ext node)"
      "nc_trusted_peers node' =
         nc_trusted_peers node @ (if po_trusted_peer opt \<in> set (nc_trusted_peers node) then [] else [po_trusted_peer opt])"
      using apply_spec [of sources opt node] by blast
    show ?thesis
      using Inr r assms(2) opts [OF Inr] node'
      by (auto simp: populate_defaults_def directory_options_def sel as_millis_def)
  qed
qed

lemma demo_split: "split_whitespace ''geth --port 30303'' = [''geth'', ''--port'', ''30303'']"
    "split_whitespace ''geth --port 3030'' = [''geth'', ''--port'', ''3030'']"
  by (simp_all add: split_whitespace_def is_whitespace_def)

lemma demo_decimal: "decimal 30303 = ''30303''" "decimal 3030 = ''3030''" "decimal 30304 = ''30304''" "decimal 5000 = ''5000''"
  by (simp_all add: decimal.simps char_of_def bit_0)

lemma demo_usable: "usable (demo_pg (demo_compose ''geth --port 30303'' [''127.0.0.1:30304:30303''])) ''devnet''"
proof -
  note geth = demo_pg_def demo_yaml_ops_def demo_compose_def service_entry_def read_docker_compose_def read_existing_def
  have "mapped_port 30303 [''127.0.0.1:30304:30303''] = Inr 30304"
    using mapped_port_found [of "[]" 30303 "''127.0.0.1:30304:30303''" "''127.0.0.1''" 30304 "[]" "[]"] by (simp add: demo_decimal)
  moreover have "parse_u16 ''30303'' = Some 30303" using parse_decimal [of 30303] by (simp add: demo_decimal)
  ultimately have "extract_trusted_peer_port (demo_pg (demo_compose ''geth --port 30303'' [''127.0.0.1:30304:30303''])) ''devnet'' = Inr 30304"
    by (simp add: extract_trusted_peer_port_def existing_path_def geth demo_split flag_value_def)
  then show ?thesis
    by (simp add: usable_def extract_chain_block_time_def extract_authrpc_port_def extract_service_command_flag_def
        extract_deterministic_p2p_key_def existing_path_def geth flag_value_def)
qed

theorem playground_defaults_fill_in_witness:
  "\<exists>node'. populate_defaults (demo_pg (demo_compose ''geth --port 30303'' [''127.0.0.1:30304:30303'']))
       (\<lambda>arg. if arg = ''http_port'' then Some CommandLine else None) (NodeCommand demo_node_command) = Some (Inr (NodeCommand node')) \<and>
     nc_http_port node' = 8545 \<and> 30000 \<le> nc_port node' \<and> chain_block_time (nc_ext node') = 2000"
proof -
  let ?pe = "demo_pg (demo_compose ''geth --port 30303'' [''127.0.0.1:30304:30303''])"
  let ?src = "\<lambda>arg. if arg = ''http_port'' then Some CommandLine else None"
  have play: "playground (nc_ext demo_node_command) = Some ''devnet''" by (simp add: demo_node_command_def)
  have "nc_http_port demo_node_command = 8545" by (simp add: demo_node_command_def)
  moreover have "extract_chain_block_time ?pe ''devnet'' = Inr (from_secs 2)"
    by (simp add: extract_chain_block_time_def read_existing_def existing_path_def demo_pg_def)
  moreover have "30000 \<le> p" if "port_from ?pe n 30333 30000 65535 p" for n p using that by (auto simp: port_from_def split: if_splits)
  ultimately show ?thesis
    using playground_defaults_fill_in [OF demo_ports play, of _ ?src] demo_usable
    by (fastforce simp: is_ok_iff from_secs_def)
qed

text \<open>C39: The port of the trusted peer is the outside port of the first mapping that contains a colon followed by the digits of the inside port.
  With mappings of the form host, outside port, inside port this is the mapping of the inside port if no other mapping comes before it
  that contains these digits. But the mapping found need not end there: one whose inside port only begins with the same digits is
  taken for it.\<close>

theorem trusted_peer_port_found:
  fixes inner outer :: u16
  assumes "read_docker_compose pe dir = Inr compose"
    and "ya_as_str (pe_yaml pe) (ya_at (pe_yaml pe) (service_entry (pe_yaml pe) compose ''op-geth'' ''command'') 1) = Some args"
    and "split_whitespace args = pre @ ''--port'' # decimal (unat inner) # post" and "''--port'' \<notin> set pre"
    and "ya_as_sequence (pe_yaml pe) (service_entry (pe_yaml pe) compose ''op-geth'' ''ports'') = Some items"
    and "map (ya_as_str (pe_yaml pe)) items = map Some (before @ mapping # after)"
    and "\<forall>m \<in> set before. \<not> contains m ('':'' @ decimal (unat inner))" and "CHR '':'' \<notin> set host"
    and "mapping = host @ '':'' @ decimal (unat outer) @ '':'' @ decimal (unat inner) @ digits"
  shows "extract_trusted_peer_port pe dir = Inr outer"
  using assms(1,2,5)
  by (simp add: extract_trusted_peer_port_def parse_decimal flag_value_found [OF assms(3,4)] collect_ok_all [OF assms(6)]
      mapped_port_found [OF assms(7,9,8)])

theorem trusted_peer_port_found_witness:
  "extract_trusted_peer_port (demo_pg (demo_compose ''geth --port 30303'' [''127.0.0.1:8545:8545'', ''127.0.0.1:30304:30303''])) ''d'' = Inr 30304 \<and>
   extract_trusted_peer_port (demo_pg (demo_compose ''geth --port 3030'' [''127.0.0.1:5000:30303'', ''127.0.0.1:6000:3030''])) ''d'' = Inr 5000"
proof -
  note geth = demo_pg_def demo_yaml_ops_def demo_compose_def service_entry_def
  have other: "\<not> contains ''127.0.0.1:8545:8545'' '':30303''" by (simp)
  have "extract_trusted_peer_port (demo_pg (demo_compose ''geth --port 30303'' [''127.0.0.1:8545:8545'', ''127.0.0.1:30304:30303''])) ''d'' = Inr 30304"
    by (rule trusted_peer_port_found [OF demo_docker, where pre = "[''geth'']" and inner = 30303 and args = "''geth --port 30303''"
          and items = "map YStr [''127.0.0.1:8545:8545'', ''127.0.0.1:30304:30303'']" and post = "[]" and after = "[]" and digits = "[]"
          and before = "[''127.0.0.1:8545:8545'']" and mapping = "''127.0.0.1:30304:30303''" and host = "''127.0.0.1''"]) (simp_all add: geth demo_split demo_decimal other)
  moreover have "extract_trusted_peer_port (demo_pg (demo_compose ''geth --port 3030'' [''127.0.0.1:5000:30303'', ''127.0.0.1:6000:3030''])) ''d'' = Inr 5000"
    by (rule trusted_peer_port_found [OF demo_docker, where pre = "[''geth'']" and inner = 3030 and args = "''geth --port 3030''"
          and items = "map YStr [''127.0.0.1:5000:30303'', ''127.0.0.1:6000:3030'']" and post = "[]" and before = "[]" and digits = "''3''"
          and mapping = "''127.0.0.1:5000:30303''" and after = "[''127.0.0.1:6000:3030'']" and host = "''127.0.0.1''"]) (simp_all add: geth demo_split demo_decimal)
  ultimately show ?thesis by blast
qed

end
