(* ===== verification/Engine_Api.thy ===== *)
theory Engine_Api
  imports Prelude
begin

text \<open>
  The engine API of the builder (\<^verbatim>\<open>primitives/reth/engine_api_builder.rs\<close>): the methods it declares, the names they are
  registered under, and how each is passed on to the node's engine. Values only the engine looks into have type \<open>'v\<close>. The engine
  and the decoding of parameters are arguments; registering a trait prefixes the name of each method with the namespace and
  an underscore.
\<close>

section \<open>Model\<close>

datatype engine_method =
  NewPayloadV2 | NewPayloadV3 | NewPayloadV4
| ForkchoiceUpdatedV1 | ForkchoiceUpdatedV2 | ForkchoiceUpdatedV3
| GetPayloadV2 | GetPayloadV3 | GetPayloadV4
| GetPayloadBodiesByHashV1 | GetPayloadBodiesByRangeV1
| SignalSuperchainV1 | GetClientVersionV1 | ExchangeCapabilities

text \<open>A call with its parameters.\<close>

datatype 'v engine_request =
  NewPayloadV2Req 'v
| NewPayloadV3Req 'v "b256 list" b256
| NewPayloadV4Req 'v "b256 list" b256 'v
| ForkchoiceUpdatedV1Req 'v "'v option"
| ForkchoiceUpdatedV2Req 'v "'v option"
| ForkchoiceUpdatedV3Req 'v "'v option"
| GetPayloadV2Req u64
| GetPayloadV3Req u64
| GetPayloadV4Req u64
| GetPayloadBodiesByHashV1Req "b256 list"
| GetPayloadBodiesByRangeV1Req u64 u64
| SignalSuperchainV1Req 'v
| GetClientVersionV1Req 'v
| ExchangeCapabilitiesReq "string list"

text \<open>The node's engine, one function for a method.\<close>

record 'v engine =
  new_payload_v2 :: "'v \<Rightarrow> string + 'v"
  new_payload_v3 :: "'v \<Rightarrow> b256 list \<Rightarrow> b256 \<Rightarrow> string + 'v"
  new_payload_v4 :: "'v \<Rightarrow> b256 list \<Rightarrow> b256 \<Rightarrow> 'v \<Rightarrow> string + 'v"
  fork_choice_updated_v1 :: "'v \<Rightarrow> 'v option \<Rightarrow> string + 'v"
  fork_choice_updated_v2 :: "'v \<Rightarrow> 'v option \<Rightarrow> string + 'v"
  fork_choice_updated_v3 :: "'v \<Rightarrow> 'v option \<Rightarrow> string + 'v"
  get_payload_v2 :: "u64 \<Rightarrow> string + 'v"
  get_payload_v3 :: "u64 \<Rightarrow> string + 'v"
  get_payload_v4 :: "u64 \<Rightarrow> string + 'v"
  get_payload_bodies_by_hash_v1 :: "b256 list \<Rightarrow> string + 'v"
  get_payload_bodies_by_range_v1 :: "u64 \<Rightarrow> u64 \<Rightarrow> string + 'v"
  signal_superchain_v1 :: "'v \<Rightarrow> string + 'v"
  get_client_version_v1 :: "'v \<Rightarrow> string + 'v"
  exchange_capabilities :: "string list \<Rightarrow> string + 'v"

primrec engine_api_ext :: "'v engine \<Rightarrow> 'v engine_request \<Rightarrow> string + 'v" where
  "engine_api_ext inner (NewPayloadV2Req payload) = new_payload_v2 inner payload"
| "engine_api_ext inner (NewPayloadV3Req payload versioned_hashes root) = new_payload_v3 inner payload versioned_hashes root"
| "engine_api_ext inner (NewPayloadV4Req payload versioned_hashes root requests) =
     new_payload_v4 inner payload versioned_hashes root requests"
| "engine_api_ext inner (ForkchoiceUpdatedV1Req state attributes) = fork_choice_updated_v1 inner state attributes"
| "engine_api_ext inner (ForkchoiceUpdatedV2Req state attributes) = fork_choice_updated_v2 inner state attributes"
| "engine_api_ext inner (ForkchoiceUpdatedV3Req state attributes) = fork_choice_updated_v3 inner state attributes"
| "engine_api_ext inner (GetPayloadV2Req payload_id) = get_payload_v2 inner payload_id"
| "engine_api_ext inner (GetPayloadV3Req payload_id) = get_payload_v3 inner payload_id"
| "engine_api_ext inner (GetPayloadV4Req payload_id) = get_payload_v4 inner payload_id"
| "engine_api_ext inner (GetPayloadBodiesByHashV1Req block_hashes) = get_payload_bodies_by_hash_v1 inner block_hashes"
| "engine_api_ext inner (GetPayloadBodiesByRangeV1Req start count) = get_payload_bodies_by_range_v1 inner start count"
| "engine_api_ext inner (SignalSuperchainV1Req signal) = signal_superchain_v1 inner signal"
| "engine_api_ext inner (GetClientVersionV1Req client) = get_client_version_v1 inner client"
| "engine_api_ext inner (ExchangeCapabilitiesReq capabilities) = exchange_capabilities inner capabilities"

definition engine_methods :: "(string \<times> engine_method) list" where
  "engine_methods =
     [(''newPayloadV2'', NewPayloadV2), (''newPayloadV3'', NewPayloadV3), (''newPayloadV4'', NewPayloadV4),
      (''forkchoiceUpdatedV1'', ForkchoiceUpdatedV1), (''forkchoiceUpdatedV2'', ForkchoiceUpdatedV2),
      (''forkchoiceUpdatedV3'', ForkchoiceUpdatedV3), (''getPayloadV2'', GetPayloadV2), (''getPayloadV3'', GetPayloadV3),
      (''getPayloadV4'', GetPayloadV4), (''getPayloadBodiesByHashV1'', GetPayloadBodiesByHashV1),
      (''getPayloadBodiesByRangeV1'', GetPayloadBodiesByRangeV1), (''engine_signalSuperchainV1'', SignalSuperchainV1),
      (''getClientVersionV1'', GetClientVersionV1), (''exchangeCapabilities'', ExchangeCapabilities)]"

text \<open>The module the trait is turned into.\<close>

definition into_rpc_module ::
  "'v engine \<Rightarrow> (engine_method \<Rightarrow> 'q \<Rightarrow> string + 'v engine_request) \<Rightarrow> (string \<times> ('q \<Rightarrow> string + 'v)) list" where
  "into_rpc_module inner decode =
     map (\<lambda>(name, m). (''engine_'' @ name, \<lambda>params. and_then (decode m params) (engine_api_ext inner))) engine_methods"

definition serve ::
  "'v engine \<Rightarrow> (engine_method \<Rightarrow> 'q \<Rightarrow> string + 'v engine_request) \<Rightarrow> string \<Rightarrow> 'q \<Rightarrow> string + 'v" where
  "serve inner decode name params =
     (case map_of (into_rpc_module inner decode) name of None \<Rightarrow> Inl ''Method not found'' | Some handler \<Rightarrow> handler params)"

text \<open>
  Building the API: the validator is built first, then the node's engine is made from it, the version of the client and the
  capabilities. The node's version, its capabilities, the parts of the node and the engine's constructor are arguments.
\<close>

record client_version =
  cv_code :: string
  cv_name :: string
  cv_version :: string
  cv_commit :: string

record node_version =
  name_client :: string
  cargo_pkg_version :: string
  vergen_git_sha :: string

definition build_engine_api ::
  "string \<Rightarrow> node_version \<Rightarrow> string list \<Rightarrow> ('node \<Rightarrow> string + 'validator) \<Rightarrow>
   ('node \<Rightarrow> client_version \<Rightarrow> string list \<Rightarrow> 'validator \<Rightarrow> 'v engine) \<Rightarrow> 'node \<Rightarrow> string + 'v engine" where
  "build_engine_api client_code node_meta capabilities build_validator engine_new node =
     and_then (build_validator node) (\<lambda>engine_validator.
       let client = \<lparr> cv_code = client_code, cv_name = name_client node_meta, cv_version = cargo_pkg_version node_meta,
                      cv_commit = vergen_git_sha node_meta \<rparr>
       in Inr (engine_new node client capabilities engine_validator))"

section \<open>Lemmas\<close>

text \<open>The names of the execution engine's specification.\<close>

fun spec_name :: "engine_method \<Rightarrow> string" where
  "spec_name NewPayloadV2 = ''engine_newPayloadV2''"
| "spec_name NewPayloadV3 = ''engine_newPayloadV3''"
| "spec_name NewPayloadV4 = ''engine_newPayloadV4''"
| "spec_name ForkchoiceUpdatedV1 = ''engine_forkchoiceUpdatedV1''"
| "spec_name ForkchoiceUpdatedV2 = ''engine_forkchoiceUpdatedV2''"
| "spec_name ForkchoiceUpdatedV3 = ''engine_forkchoiceUpdatedV3''"
| "spec_name GetPayloadV2 = ''engine_getPayloadV2''"
| "spec_name GetPayloadV3 = ''engine_getPayloadV3''"
| "spec_name GetPayloadV4 = ''engine_getPayloadV4''"
| "spec_name GetPayloadBodiesByHashV1 = ''engine_getPayloadBodiesByHashV1''"
| "spec_name GetPayloadBodiesByRangeV1 = ''engine_getPayloadBodiesByRangeV1''"
| "spec_name SignalSuperchainV1 = ''engine_signalSuperchainV1''"
| "spec_name GetClientVersionV1 = ''engine_getClientVersionV1''"
| "spec_name ExchangeCapabilities = ''engine_exchangeCapabilities''"

text \<open>Every method answers under its specified name with what the node's engine answers, except one: signalling the superchain is
  registered with the namespace twice, so that under its specified name there is no method.\<close>

lemma engine_methods_served:
  "serve inner decode (spec_name m) params =
     (if m = SignalSuperchainV1 then Inl ''Method not found'' else and_then (decode m params) (engine_api_ext inner))"
  by (cases m) (simp_all add: serve_def into_rpc_module_def engine_methods_def)

lemma superchain_signal_name:
  "serve inner decode ''engine_engine_signalSuperchainV1'' params = and_then (decode SignalSuperchainV1 params) (engine_api_ext inner)"
  by (simp add: serve_def into_rpc_module_def engine_methods_def)

text \<open>No two methods of the module share a name.\<close>

lemma rpc_names_distinct: "distinct (map fst (into_rpc_module inner decode))"
  by (simp add: into_rpc_module_def engine_methods_def)

end
