(* ===== verification/Service.thy ===== *)
theory Service
  imports Bundle Sync Generator Standard P2p_Props Ws_Publisher Bootstrap Playground Engine_Api
begin

text \<open>
  How the parts are put together: the two payload services (\<^verbatim>\<open>builders/flashblocks/service.rs\<close>,
  \<^verbatim>\<open>builders/standard/service.rs\<close>), which choose the builder transactions, start the peer-to-peer node and the publisher and
  hand the configuration on, and the launcher (\<^verbatim>\<open>launcher.rs\<close>). What the node provides (its EVM, pool, provider) comes as a
  builder whose remaining fields are filled in.
\<close>

section \<open>Model: builder transactions\<close>

text \<open>Both services start the flashtestations if they are enabled and there is a key. A start that fails is only logged.\<close>

definition service_flashtestations_tx ::
  "boot_env \<Rightarrow> flashtestations_args \<Rightarrow> signer option \<Rightarrow> files \<Rightarrow> (boot_error + ft_builder_tx option) \<times> files" where
  "service_flashtestations_tx bv args key fs =
     (case key of
        None \<Rightarrow> (Inr None, fs)
      | Some builder_key \<Rightarrow>
          if \<not> fa_flashtestations_enabled args then (Inr None, fs)
          else (case bootstrap_flashtestations bv args builder_key fs of
                  (Inr ft, fs') \<Rightarrow> (Inr (Some ft), fs')
                | (Inl (BootPanic msg), fs') \<Rightarrow> (Inl (BootPanic msg), fs')
                | (Inl (BootAttestation e), fs') \<Rightarrow> (Inr None, fs')))"




section \<open>Model: the peer-to-peer node of the service\<close>










section \<open>Model: the services\<close>

datatype service_error = ServiceError string | ServicePanic string


definition boot_service_error :: "boot_error \<Rightarrow> service_error" where
  "boot_service_error e = (case e of BootPanic msg \<Rightarrow> ServicePanic msg | BootAttestation _ \<Rightarrow> ServiceError ''attestation'')"






text \<open>The standard service has no network of its own; its jobs are those of the node.\<close>

definition std_builder_new ::
  "('db, 'st, 'i) std_builder \<Rightarrow> unit builder_config \<Rightarrow> ('db, 'st, unit, unit) simulate_builder_txs \<Rightarrow> ('db, 'st, 'i) std_builder" where
  "std_builder_new parts cfg sim =
     parts \<lparr> sd_config := cfg, sd_builder_signer := map_option sn_address (cfg_builder_signer cfg), sd_builder_tx := sim \<rparr>"

definition std_service_spawn ::
  "boot_env \<Rightarrow> ('db, 'st) builder_ops \<Rightarrow> 'db \<Rightarrow> ('db, 'st, 'i) std_builder \<Rightarrow> unit builder_config \<Rightarrow> files
   \<Rightarrow> (service_error + ('db, 'st, 'i) std_builder) \<times> files" where
  "std_service_spawn bv bops prov parts cfg fs =
     (case service_flashtestations_tx bv (flashtestations_config cfg) (cfg_builder_signer cfg) fs of
        (Inl e, fs') \<Rightarrow> (Inl (boot_service_error e), fs')
      | (Inr ft, fs') \<Rightarrow>
          (Inr (std_builder_new parts cfg (standard_sim bops (bv_abi bv)
             \<lparr> sb_base_signer = cfg_builder_signer cfg, sb_flashtestations = ft \<rparr> prov)), fs'))"

section \<open>Model: the launcher\<close>

definition record_flag_gauge_metrics :: "op_rbuilder_args \<Rightarrow> (string \<times> int) list" where
  "record_flag_gauge_metrics args =
     [(''op_rbuilder_flags_flashblocks_enabled'', of_bool (flashblocks_enabled (flashblocks args))),
      (''op_rbuilder_flags_flashtestations_enabled'', of_bool (fa_flashtestations_enabled (arg_flashtestations args))),
      (''op_rbuilder_flags_enable_revert_protection'', of_bool (enable_revert_protection args))]"

text \<open>What a launch sets up besides the service: whether the pool and the RPC handle conditional transactions, whether the revert
  protection RPC is registered, and whether the pool is monitored.\<close>

record launch_plan =
  lp_gauges :: "(string \<times> int) list"
  lp_rpc_conditional :: bool
  lp_pool_conditional :: bool
  lp_revert_rpc :: bool
  lp_monitor :: bool

definition entrypoint ::
  "(op_rbuilder_args \<Rightarrow> string + 's) \<Rightarrow> bool \<Rightarrow> op_rbuilder_args \<Rightarrow> service_error + launch_plan \<times> 's builder_config" where
  "entrypoint specific_try_from enable_tx_conditional args =
     and_then (map_err (\<lambda>_. ServicePanic ''Failed to convert rollup args to builder config'')
                 (builder_config_try_from specific_try_from args)) (\<lambda>cfg.
     Inr (\<lparr> lp_gauges = record_flag_gauge_metrics args, lp_rpc_conditional = enable_tx_conditional,
            lp_pool_conditional = enable_tx_conditional \<or> enable_revert_protection args,
            lp_revert_rpc = enable_revert_protection args, lp_monitor = log_pool_transactions args \<rparr>, cfg))"

datatype launched =
  LaunchedStandard launch_plan "unit builder_config"
| LaunchedFlashblocks launch_plan "fb_config builder_config"

definition run_mode :: "(string \<Rightarrow> nat option) \<Rightarrow> bool \<Rightarrow> ('c, 't) cli \<Rightarrow> service_error + launched option" where
  "run_mode parse_ip enable_tx_conditional cli =
     (case cli of
        OtherCommand \<Rightarrow> Inr None
      | NodeCommand node \<Rightarrow>
          (case builder_mode_of cli of
             StandardMode \<Rightarrow>
               and_then (entrypoint (\<lambda>_. Inr ()) enable_tx_conditional (nc_ext node)) (\<lambda>(plan, cfg). Inr (Some (LaunchedStandard plan cfg)))
           | FlashblocksMode \<Rightarrow>
               and_then (entrypoint (fb_config_try_from parse_ip) enable_tx_conditional (nc_ext node)) (\<lambda>(plan, cfg).
                 Inr (Some (LaunchedFlashblocks plan cfg)))))"

text \<open>A launch fills in the playground defaults before it looks at the mode. A directory that cannot be used ends the process.\<close>

definition launch ::
  "('c, 't, 'y, 'j) pg_env \<Rightarrow> (string \<Rightarrow> value_source option) \<Rightarrow> (string \<Rightarrow> nat option) \<Rightarrow> bool \<Rightarrow> ('c, 't) cli
   \<Rightarrow> (service_error + launched option) option" where
  "launch pe sources parse_ip enable_tx_conditional cli =
     Option.bind (populate_defaults pe sources cli) (\<lambda>parsed.
       Some (and_then (map_err ServiceError parsed) (run_mode parse_ip enable_tx_conditional)))"

text \<open>A receipt query at a node that was launched with a plan, after some events of the pool. The cache the monitor fills, which holds a
  hundred entries, is the one the RPC looks into. Without the RPC there is no such query.\<close>

definition reverted_cache_capacity :: nat where "reverted_cache_capacity = 100"

definition launched_receipt ::
  "launch_plan \<Rightarrow> ('p, 'c) rpc_env \<Rightarrow> pool_event list \<Rightarrow> b256 \<Rightarrow> (rpc_error + op_receipt option) option" where
  "launched_receipt plan e events hash =
     (let reverted_cache = cache_new e reverted_cache_capacity in
      if lp_revert_rpc plan
      then Some (transaction_receipt e (if lp_monitor plan then monitor_tx_pool e events reverted_cache else reverted_cache) hash)
      else None)"

section \<open>Lemmas\<close>












text \<open>A known peer whose address has no peer ID ends the node at its start; the service that started it goes on.\<close>

lemma known_peer_without_id_ends_node:
  assumes "nd_known_peers node = pre @ addr # post" "\<forall>a \<in> set pre. \<exists>q a'. ma_pop ma a = (Some (P2pPart q), a') \<and> is_ok (sw_dial sw a')"
    and "\<forall>a \<in> set (nd_listen_addrs node). is_ok (sw_listen_on sw a)" and "\<forall>q. fst (ma_pop ma addr) \<noteq> Some (P2pPart q)"
  shows "\<exists>s. node_start ma sw node = (Inl (Eyre ''no peer ID for known peer''), s) \<and> \<not> ns_running s"
proof -
  let ?s0 = "\<lparr> ns_known_peers_info = [], ns_streams = nd_outgoing_streams node, ns_actions = [], ns_written = [], ns_running = False \<rparr>"
  have "\<exists>s'. for_in (start_listen sw) as s = (Continue, s') \<and> ns_running s' = ns_running s"
    if "\<forall>a \<in> set as. is_ok (sw_listen_on sw a)" for as and s :: "('a, 'b) node_state"
    using that
  proof (induction as arbitrary: s)
    case (Cons a as)
    then show ?case
      using Cons.IH [of "s \<lparr> ns_actions := ns_actions s @ [ListenOn a] \<rparr>"]
      by (cases "sw_listen_on sw a") (simp_all add: start_listen_def [of sw s a])
  qed simp
  from this [OF assms(3), of ?s0] obtain s1 where l: "for_in (start_listen sw) (nd_listen_addrs node) ?s0 = (Continue, s1)" "\<not> ns_running s1"
    by auto
  have bad: "start_dial ma sw s addr = (Return (Eyre ''no peer ID for known peer''), s)" for s :: "('a, 'b) node_state"
    using assms(4) by (auto simp: start_dial_def split: prod.split option.split addr_part.split)
  have "\<exists>s'. for_in (start_dial ma sw) (as @ addr # post) s = (Return (Eyre ''no peer ID for known peer''), s') \<and> ns_running s' = ns_running s"
    if "\<forall>a \<in> set as. \<exists>q a'. ma_pop ma a = (Some (P2pPart q), a') \<and> is_ok (sw_dial sw a')" for as and s :: "('a, 'b) node_state"
    using that
  proof (induction as arbitrary: s)
    case (Cons a as)
    then obtain q a' where "ma_pop ma a = (Some (P2pPart q), a')" "sw_dial sw a' = Inr ()" by (auto simp: is_ok_iff)
    then show ?case
      using Cons.prems Cons.IH [of "s \<lparr> ns_actions := ns_actions s @ [AddPeerAddress q a', Dial a'],
        ns_known_peers_info := ns_known_peers_info s @ [(q, a')] \<rparr>"]
      by (simp add: start_dial_def [of ma sw s a] Let_def)
  qed (simp add: bad)
  from this [OF assms(2), of s1] show ?thesis using l assms(1) by (auto simp: node_start_def Let_def)
qed

section \<open>A sample service\<close>











section \<open>Properties\<close>





text \<open>C37: With revert protection the receipt query for a transaction without receipt reports that it was dropped from the pool
  only if logging of pool transactions is switched on as well, since the task that remembers dropped transactions is started by that
  flag alone, and only for a transaction the pool has dropped. With logging it does report it, as long as no more transactions have been dropped than
  the cache has room for, a hundred. In every other case the caller gets no receipt and no reason. The cache is taken to be empty at first, to hold
  nothing that was not inserted, and to lose nothing before it is full.\<close>

theorem dropped_reported_only_with_logging:
  assumes "cache_law e entries cap" and "node_receipt e hash = Inr None"
    and "entrypoint specific_try_from enable_tx_conditional args = Inr (plan, cfg)" and "enable_revert_protection args"
    and "dropped = Some (Inl (InvalidParams ''the transaction was dropped from the pool''))"
  shows "launched_receipt plan e events hash \<in> {dropped, Some (Inr None)} \<and>
    (launched_receipt plan e events hash = dropped \<longrightarrow> log_pool_transactions args \<and> hash \<in> discarded events) \<and>
    (log_pool_transactions args \<and> hash \<in> discarded events \<and> card (discarded events) \<le> 100 \<longrightarrow>
      launched_receipt plan e events hash = dropped)"
proof -
  have plan: "lp_revert_rpc plan" "lp_monitor plan = log_pool_transactions args"
    using assms(3,4) by (auto simp: entrypoint_def and_then_eq_Inr)
  define r where "r = transaction_receipt e (monitor_tx_pool e (if lp_monitor plan then events else []) (cache_new e 100)) hash"
  have "launched_receipt plan e events hash = Some r"
    using plan by (simp add: launched_receipt_def reverted_cache_capacity_def r_def monitor_tx_pool_def)
  moreover have "discarded [] = {}" by (simp add: discarded_def)
  ultimately show ?thesis
    using receipt_after_monitor [OF assms(1,2) r_def] plan assms(5) by (auto split: if_splits)
qed

theorem dropped_reported_only_with_logging_witness:
  "\<exists>plan cfg plan' cfg'.
     entrypoint (\<lambda>_. Inr ()) False (op_rbuilder_args_default \<lparr> enable_revert_protection := True \<rparr>) = Inr (plan, cfg) \<and>
     launched_receipt plan demo_rpc [Discarded 3] 3 = Some (Inr None) \<and>
     entrypoint (\<lambda>_. Inr ()) False (op_rbuilder_args_default \<lparr> enable_revert_protection := True, log_pool_transactions := True \<rparr>) =
       Inr (plan', cfg') \<and>
     launched_receipt plan' demo_rpc [Discarded 3] 3 = Some (Inl (InvalidParams ''the transaction was dropped from the pool''))"
proof -
  let ?args = "op_rbuilder_args_default \<lparr> enable_revert_protection := True \<rparr>"
  let ?args' = "?args \<lparr> log_pool_transactions := True \<rparr>"
  obtain plan cfg where run: "entrypoint (\<lambda>_. Inr ()) False ?args = Inr (plan, cfg)" by (simp add: entrypoint_def builder_config_try_from_def)
  obtain plan' cfg' where run': "entrypoint (\<lambda>_. Inr ()) False ?args' = Inr (plan', cfg')" by (simp add: entrypoint_def builder_config_try_from_def)
  have none: "node_receipt demo_rpc 3 = Inr None" by (simp add: demo_rpc_def)
  have flags: "enable_revert_protection ?args" "enable_revert_protection ?args'" "\<not> log_pool_transactions ?args" "log_pool_transactions ?args'"
    by (simp_all add: op_rbuilder_args_default_def)
  have disc: "discarded [Discarded 3] = {3}" by (simp add: discarded_def)
  have "launched_receipt plan demo_rpc [Discarded 3] 3 = Some (Inr None)"
    using dropped_reported_only_with_logging [OF demo_cache_law none run flags(1) refl, of "[Discarded 3]"] flags(3) by auto
  moreover have "launched_receipt plan' demo_rpc [Discarded 3] 3 = Some (Inl (InvalidParams ''the transaction was dropped from the pool''))"
    using dropped_reported_only_with_logging [OF demo_cache_law none run' flags(2) refl, of "[Discarded 3]"] flags(4) disc by simp
  ultimately show ?thesis using run run' by auto
qed

end
