(* ===== verification/Agreement.thy ===== *)
theory Agreement
  imports Sync
begin

text \<open>
  Agreement between builders: what the flashblocks build of one node hands over (\<^verbatim>\<open>builders/flashblocks/payload.rs\<close>), the
  payload handler of another (\<^verbatim>\<open>builders/flashblocks/payload_handler.rs\<close>) accepts. The relation \<open>runs_to\<close> is the
  execution both have in common, with the receipts it leaves.
\<close>

section \<open>Executions with their receipts\<close>

inductive runs_to ::
  "('db, 'st, 'c) op_ctx \<Rightarrow> 'db \<Rightarrow> u64 \<Rightarrow> (recovered \<times> exec_result) list \<Rightarrow> op_receipt list \<Rightarrow> 'db \<Rightarrow> bool" for ctx where
  nothing: "runs_to ctx db cum [] [] db"
| step: "transact (evm ctx) db tx = Inr (r, st) \<Longrightarrow> nonce = None \<or> depositor_nonce ctx db tx = Inr nonce \<Longrightarrow>
    runs_to ctx (commit (evm ctx) db st) (cum + gas_used r) es rcs db' \<Longrightarrow>
    runs_to ctx db cum ((tx, r) # es) (build_receipt ctx (inner_tx tx) r nonce (cum + gas_used r) # rcs) db'"

inductive_cases runs_to_stepE: "runs_to ctx db cum (e # es) rcs db'"

lemma runs_to_length: "runs_to ctx db cum es rcs db' \<Longrightarrow> length rcs = length es"
  by (induction rule: runs_to.induct) simp_all

lemma runs_to_append:
  assumes "runs_to ctx db cum es rcs db1" "runs_to ctx db1 (cum + (\<Sum>e \<leftarrow> es. gas_used (snd e))) es' rcs' db2"
  shows "runs_to ctx db cum (es @ es') (rcs @ rcs') db2"
  using assms by (induction rule: runs_to.induct) (auto intro: runs_to.step simp: add.assoc)

lemma included_runs_to:
  assumes "included ctx guard p es q"
  shows "\<exists>rcs. receipts (fst q) = receipts (fst p) @ rcs \<and> runs_to ctx (snd p) (cumulative_gas_used (fst p)) es rcs (snd q)"
  using assms
proof (induction rule: included.induct)
  case (snoc p es info db tx r st da nonce fees)
  let ?rc = "build_receipt ctx (inner_tx tx) r nonce (cumulative_gas_used info + gas_used r)"
  obtain rcs where rcs: "receipts info = receipts (fst p) @ rcs" "runs_to ctx (snd p) (cumulative_gas_used (fst p)) es rcs db"
    using snoc.IH by auto
  have cum: "cumulative_gas_used info = cumulative_gas_used (fst p) + (\<Sum>e \<leftarrow> es. gas_used (snd e))"
    using included_lists(3) [OF snoc.hyps(1)] by simp
  have "runs_to ctx db (cumulative_gas_used info) [(tx, r)] [?rc] (commit (evm ctx) db st)"
    by (rule runs_to.step [OF snoc.hyps(2,4) runs_to.nothing])
  then show ?case
    using runs_to_append [OF rcs(2), of "[(tx, r)]" "[?rc]"] rcs(1) cum by (intro exI [of _ "rcs @ [?rc]"]) simp
qed (auto intro: runs_to.nothing)

text \<open>Only the chain and the time of a context matter.\<close>

lemma build_receipt_cong:
  assumes "evm c = evm ctx" "spec c = spec ctx" "at_timestamp (attributes c) = at_timestamp (attributes ctx)"
  shows "build_receipt c = build_receipt ctx" "depositor_nonce c = depositor_nonce ctx"
  using assms by (simp_all add: fun_eq_iff build_receipt_def depositor_nonce_def is_canyon_active_def is_regolith_active_def
      split: option.split)

lemma runs_to_cong:
  assumes "runs_to ctx db cum es rcs db'"
    and "evm c = evm ctx" "spec c = spec ctx" "at_timestamp (attributes c) = at_timestamp (attributes ctx)"
  shows "runs_to c db cum es rcs db'"
  using assms(1)
proof (induction rule: runs_to.induct)
  case (step db tx r st nonce cum es rcs db')
  then show ?case
    using runs_to.step [of c db tx r st nonce cum es rcs db'] assms(2) by (simp add: build_receipt_cong [OF assms(2-4)])
qed (rule runs_to.nothing)

section \<open>The peer's loop\<close>

text \<open>The receipt builder of the chain gives deposits, and only them, a receipt with a nonce.\<close>

definition deposit_receipt_law :: "('db, 'st) evm_ops \<Rightarrow> bool" where
  "deposit_receipt_law ops \<longleftrightarrow>
     (\<forall>tx r g. is_deposit tx \<longrightarrow> rb_build_receipt ops tx r g = None) \<and> (\<forall>d. rb_build_deposit_receipt ops d = RDeposit d)"

definition carries_nonce :: "op_receipt \<Rightarrow> bool" where
  "carries_nonce rc = (case rc of RDeposit d \<Rightarrow> dr_deposit_nonce d \<noteq> None | _ \<Rightarrow> False)"

lemma depositor_nonce_of_receipt:
  assumes "deposit_receipt_law (evm ctx)" "nonce = None \<or> depositor_nonce ctx db tx = Inr nonce"
    and "is_regolith_active ctx \<Longrightarrow> is_deposit (inner_tx tx) \<Longrightarrow> carries_nonce (build_receipt ctx (inner_tx tx) r nonce g)"
  shows "depositor_nonce ctx db tx = Inr nonce"
proof (cases "is_regolith_active ctx \<and> is_deposit (inner_tx tx)")
  case True
  then have "carries_nonce (RDeposit \<lparr> dr_inner = \<lparr> rc_status = is_success r, rc_cumulative_gas_used = g, rc_logs = into_logs r \<rparr>,
      dr_deposit_nonce = nonce, dr_deposit_receipt_version = (if is_canyon_active ctx then Some 1 else None) \<rparr>)"
    using assms(1,3) by (simp add: build_receipt_def deposit_receipt_law_def)
  then show ?thesis using assms(2) by (auto simp: carries_nonce_def)
next
  case False
  then have "depositor_nonce ctx db tx = Inr None" by (auto simp: depositor_nonce_def)
  then show ?thesis using assms(2) by auto
qed

lemma sync_step_accepts:
  assumes "syncs_with ctx ts c" "transact (evm c) (ss_db s) tx = Inr (r, st)" "depositor_nonce c (ss_db s) tx = Inr nonce"
    and "try_recover (evm c) (inner_tx tx) = Some (signer tx)" "sy_max_gas_per_txn ctx = None"
    and "unat (cumulative_gas_used (ss_info s)) + unat (gas_used r) \<le> unat gas_limit"
  shows "sync_step ctx gas_limit ts s (inner_tx tx) =
    (Continue, s \<lparr> ss_info := push_executed (ss_info s) tx (gas_used r) 0 (build_receipt c (inner_tx tx) r nonce),
                   ss_db := commit (evm c) (ss_db s) st \<rparr>)"
proof -
  let ?cum = "cumulative_gas_used (ss_info s) + gas_used r"
  have tx: "Recovered (inner_tx tx) (signer tx) = tx" by (cases tx) simp
  have n: "sync_depositor_nonce ctx ts (ss_db s) (inner_tx tx) (signer tx) = Inr nonce"
    using assms(3) by (simp add: sync_nonce_eq [OF assms(1)] tx)
  have fits: "unat (cumulative_gas_used (ss_info s)) + unat (gas_used r) < 2 ^ 64"
    using assms(6) unat_le_max [of gas_limit] by simp
  then have cum: "unat ?cum = unat (cumulative_gas_used (ss_info s)) + unat (gas_used r)"
    by (intro unat_add_no_wrap) simp
  have "checked_add (cumulative_gas_used (ss_info s)) (gas_used r) = Some ?cum" using fits cum by (simp add: checked_add_Some)
  moreover have "\<not> gas_limit < ?cum" using assms(6) cum by (simp add: not_less word_le_nat_alt)
  moreover have "evm c = sy_evm ctx" using assms(1) by (simp add: syncs_with_def)
  ultimately show ?thesis
    using assms(2,4,5) n tx by (simp add: sync_step_def sync_receipt_eq [OF assms(1)])
qed

text \<open>What the peer's loop has to find: the signatures give the senders, deposits have their nonces, and the gas fits.\<close>

definition acceptable :: "('db, 'st, 'c) op_ctx \<Rightarrow> u64 \<Rightarrow> u64 \<Rightarrow> (recovered \<times> exec_result) list \<Rightarrow> op_receipt list \<Rightarrow> bool" where
  "acceptable c gas_limit cum es rcs \<longleftrightarrow>
     (\<forall>e \<in> set es. try_recover (evm c) (inner_tx (fst e)) = Some (signer (fst e))) \<and>
     (is_regolith_active c \<longrightarrow> list_all2 (\<lambda>e rc. is_deposit (inner_tx (fst e)) \<longrightarrow> carries_nonce rc) es rcs) \<and>
     unat cum + (\<Sum>e \<leftarrow> es. unat (gas_used (snd e))) \<le> unat gas_limit"

lemma sync_loop_accepts:
  assumes "runs_to c db cum es rcs db'" "syncs_with ctx ts c" "deposit_receipt_law (evm c)" "sy_max_gas_per_txn ctx = None"
    and "acceptable c gas_limit cum es rcs" "cumulative_gas_used (ss_info s) = cum" "ss_db s = db"
  shows "\<exists>t. for_in (sync_step ctx gas_limit ts) (map (inner_tx \<circ> fst) es) s = (Continue, t) \<and> ss_db t = db' \<and>
    executed_transactions (ss_info t) = executed_transactions (ss_info s) @ map (inner_tx \<circ> fst) es \<and>
    executed_senders (ss_info t) = executed_senders (ss_info s) @ map (signer \<circ> fst) es \<and>
    receipts (ss_info t) = receipts (ss_info s) @ rcs \<and>
    cumulative_gas_used (ss_info t) = cum + (\<Sum>e \<leftarrow> es. gas_used (snd e)) \<and>
    extra (ss_info t) = extra (ss_info s) \<and> optional_blob_fields (ss_info t) = optional_blob_fields (ss_info s)"
  using assms(1,5-7)
proof (induction arbitrary: s rule: runs_to.induct)
  case (step db tx r st nonce cum es rcs db')
  let ?rc = "build_receipt c (inner_tx tx) r nonce"
  let ?s = "s \<lparr> ss_info := push_executed (ss_info s) tx (gas_used r) 0 ?rc, ss_db := commit (evm c) (ss_db s) st \<rparr>"
  have ok: "try_recover (evm c) (inner_tx tx) = Some (signer tx)"
      "is_regolith_active c \<Longrightarrow> is_deposit (inner_tx tx) \<Longrightarrow> carries_nonce (?rc (cum + gas_used r))"
    and gas: "unat cum + unat (gas_used r) + (\<Sum>e \<leftarrow> es. unat (gas_used (snd e))) \<le> unat gas_limit"
    using step.prems(1) by (auto simp: acceptable_def)
  have "depositor_nonce c db tx = Inr nonce"
    by (rule depositor_nonce_of_receipt [OF assms(3) step.hyps(2) ok(2)])
  then have one: "sync_step ctx gas_limit ts s (inner_tx tx) = (Continue, ?s)"
    using step.hyps(1) step.prems(2,3) gas ok(1) assms(4) by (intro sync_step_accepts [OF assms(2)]) simp_all
  have "unat (cum + gas_used r) = unat cum + unat (gas_used r)"
    using gas unat_le_max [of gas_limit] by (intro unat_add_no_wrap) simp
  then have "acceptable c gas_limit (cum + gas_used r) es rcs" using step.prems(1) by (auto simp: acceptable_def)
  moreover have "cumulative_gas_used (ss_info ?s) = cum + gas_used r" "ss_db ?s = commit (evm c) db st"
    using step.prems by (simp_all add: push_executed_def Let_def)
  ultimately obtain t where t: "for_in (sync_step ctx gas_limit ts) (map (inner_tx \<circ> fst) es) ?s = (Continue, t)" "ss_db t = db'"
    "executed_transactions (ss_info t) = executed_transactions (ss_info ?s) @ map (inner_tx \<circ> fst) es"
    "executed_senders (ss_info t) = executed_senders (ss_info ?s) @ map (signer \<circ> fst) es"
    "receipts (ss_info t) = receipts (ss_info ?s) @ rcs"
    "cumulative_gas_used (ss_info t) = cum + gas_used r + (\<Sum>e \<leftarrow> es. gas_used (snd e))"
    "extra (ss_info t) = extra (ss_info ?s)" "optional_blob_fields (ss_info t) = optional_blob_fields (ss_info ?s)"
    using step.IH [of ?s] by blast
  then show ?case
    using one step.prems(2) by (intro exI [of _ t]) (simp add: add.assoc comp_def)
qed simp

section \<open>The builder's side\<close>

text \<open>The record and the database are what an execution from the start leaves.\<close>

definition has_run :: "('db, 'st, 'c) op_ctx \<Rightarrow> 'db \<Rightarrow> ('db, 'x) seq_state \<Rightarrow> bool" where
  "has_run ctx db0 s \<longleftrightarrow>
     (\<exists>es. runs_to ctx db0 0 es (receipts (ss_info s)) (ss_db s) \<and>
        executed_transactions (ss_info s) = map (inner_tx \<circ> fst) es \<and> executed_senders (ss_info s) = map (signer \<circ> fst) es \<and>
        cumulative_gas_used (ss_info s) = (\<Sum>e \<leftarrow> es. gas_used (snd e)))"

lemma has_run_cong:
  "has_run ctx db0 s \<Longrightarrow> evm c = evm ctx \<Longrightarrow> spec c = spec ctx \<Longrightarrow> attributes c = attributes ctx \<Longrightarrow> has_run c db0 s"
  unfolding has_run_def by (elim exE conjE, intro exI conjI) (rule runs_to_cong, assumption, simp_all)

lemma has_run_included:
  assumes "has_run ctx db0 s" "included c guard (ss_info s, ss_db s) es (ss_info t, ss_db t)"
    and "evm c = evm ctx" "spec c = spec ctx" "attributes c = attributes ctx"
  shows "has_run ctx db0 t"
proof -
  obtain es0 where es0: "runs_to ctx db0 0 es0 (receipts (ss_info s)) (ss_db s)"
    "executed_transactions (ss_info s) = map (inner_tx \<circ> fst) es0" "executed_senders (ss_info s) = map (signer \<circ> fst) es0"
    "cumulative_gas_used (ss_info s) = (\<Sum>e \<leftarrow> es0. gas_used (snd e))"
    using assms(1) unfolding has_run_def by blast
  obtain rcs where rcs: "receipts (ss_info t) = receipts (ss_info s) @ rcs"
    "runs_to c (ss_db s) (cumulative_gas_used (ss_info s)) es rcs (ss_db t)"
    using included_runs_to [OF assms(2)] by auto
  have "runs_to ctx (ss_db s) (cumulative_gas_used (ss_info s)) es rcs (ss_db t)"
    using rcs(2) by (rule runs_to_cong) (simp_all add: assms(3-5))
  then have "runs_to ctx db0 0 (es0 @ es) (receipts (ss_info t)) (ss_db t)"
    using runs_to_append [OF es0(1)] es0(4) rcs(1) by simp
  then show ?thesis
    unfolding has_run_def using es0 included_lists [OF assms(2)] by (intro exI [of _ "es0 @ es"]) simp
qed

lemma has_run_grows: "has_run ctx db0 s \<Longrightarrow> grows c s t \<Longrightarrow> evm c = evm ctx \<Longrightarrow> spec c = spec ctx \<Longrightarrow> attributes c = attributes ctx \<Longrightarrow> has_run ctx db0 t"
  by (auto simp: grows_def seq_includes_def intro: has_run_included)

lemma has_run_record:
  "has_run ctx db0 s \<Longrightarrow> ss_db t = ss_db s \<Longrightarrow> ss_info t = (ss_info s) \<lparr> extra := x \<rparr> \<Longrightarrow> has_run ctx db0 t"
  "has_run ctx db0 s \<Longrightarrow> ss_db t = ss_db s \<Longrightarrow> ss_info t = (ss_info s) \<lparr> da_footprint_scalar := v \<rparr> \<Longrightarrow> has_run ctx db0 t"
  by (simp_all add: has_run_def)

lemma has_run_sequencer:
  assumes "execute_sequencer_transactions ctx x db0 = (Inr (ss_info s), ss_db s)"
  shows "has_run ctx db0 s"
proof -
  obtain es info where es: "included ctx (sequencer_guard ctx) (with_capacity x, db0) es (info, ss_db s)"
    and info: "ss_info s = info \<lparr> da_footprint_scalar := da_footprint_scalar (ss_info s) \<rparr>"
    using sequencer_includes [OF assms] by blast
  have "has_run ctx db0 \<lparr> ss_info = with_capacity x, ss_db = db0 \<rparr>"
    by (auto simp: has_run_def with_capacity_def intro: runs_to.nothing)
  then have "has_run ctx db0 \<lparr> ss_info = info, ss_db = ss_db s \<rparr>"
    by (rule has_run_included [where c = ctx and es = es]) (use es in simp_all)
  then show ?thesis by (rule has_run_record(2)) (use info in simp_all)
qed

text \<open>A payload that was sealed with a state root after such an execution.\<close>

definition sealed_payload :: "('db, 'st, 'i) fb_builder \<Rightarrow> payload_attrs \<Rightarrow> parent_header \<Rightarrow> built_payload \<Rightarrow> bool" where
  "sealed_payload b attrs par p \<longleftrightarrow>
     (\<exists>ctx db0 s m s'. job_ctx b attrs par ctx \<and> start_db b attrs par = Some db0 \<and> has_run ctx db0 s \<and>
        build_block (fb_block_ops b) ctx True s = (Inr (p, m), s'))"

lemma build_block_has_run:
  assumes "build_block (fb_block_ops b) ctx True s = (Inr (p, m), s')" "restore_law (fb_block_ops b)" "has_run c db0 s"
    and "job_ctx b attrs par ctx" "job_ctx b attrs par c" "start_db b attrs par = Some db0"
  shows "has_run c db0 s'" "sealed_payload b attrs par p"
proof -
  note bb = build_block_ok [OF assms(1)]
  show "has_run c db0 s'" by (rule has_run_record(1) [OF assms(3) bb(2) [OF assms(2)] bb(1)])
  have "has_run ctx db0 s"
    using assms(3) by (rule has_run_cong) (use assms(4,5) in \<open>simp_all add: job_ctx_def\<close>)
  then show "sealed_payload b attrs par p" using assms(1,4,6) unfolding sealed_payload_def by blast
qed

lemma fallback_sealed:
  assumes "build_fallback b job ctx out0 = (r, out)" "job_ctx b attrs par ctx" "nothing_out out0"
    and "simulation_pure (fb_builder_tx b)" "restore_law (fb_block_ops b)" "\<not> disable_state_root (specific (fb_config_of b))"
  shows "\<forall>p \<in> set (fo_sent out). sealed_payload b attrs par p"
    and "r = Inr t \<Longrightarrow> \<exists>db0. start_db b attrs par = Some db0 \<and> has_run ctx db0 t"
proof -
  have "(\<forall>p \<in> set (fo_sent out). sealed_payload b attrs par p) \<and>
      (\<forall>t. r = Inr t \<longrightarrow> (\<exists>db0. start_db b attrs par = Some db0 \<and> has_run ctx db0 t))"
    using assms(1-3)
  proof (cases rule: build_fallback_cases)
    case (built db0 s s1 p m s2)
    have "grows ctx s s1"
      using built(3) grows_refl [of ctx s] add_builder_grows [OF assms(4), of ctx s False] by (simp split: if_splits)
    with has_run_sequencer [OF built(2)] have "has_run ctx db0 s1" by (rule has_run_grows) simp_all
    moreover have "build_block (fb_block_ops b) ctx True s1 = (Inr (p, m), s2)" using built(4) assms(6) by simp
    ultimately show ?thesis
      using build_block_has_run [OF _ assms(5) _ assms(2) assms(2) built(1)] built(1,6,7) by auto
  qed (simp add: nothing_out_def)
  then show "\<forall>p \<in> set (fo_sent out). sealed_payload b attrs par p"
    "r = Inr t \<Longrightarrow> \<exists>db0. start_db b attrs par = Some db0 \<and> has_run ctx db0 t" by simp_all
qed

lemma same_job_ctx: "same_job ctx c \<Longrightarrow> job_ctx b attrs par ctx \<Longrightarrow> job_ctx b attrs par c"
  by (auto simp: same_job_def job_ctx_def)

lemma next_flashblock_sealed:
  assumes "build_next_flashblock b c sg s = Some (Inr (Some x), t)" "simulation_pure (fb_builder_tx b)" "restore_law (fb_block_ops b)"
    and "\<not> fx_disable_state_root (extra_ctx c)" "has_run ctx db0 (fs_seq s)"
    and "job_ctx b attrs par c" "job_ctx b attrs par ctx" "start_db b attrs par = Some db0"
  shows "has_run ctx db0 (fs_seq t) \<and> \<not> fx_disable_state_root x \<and>
    (\<exists>q. fo_sent (fs_out t) = fo_sent (fs_out s) @ [q] \<and> sealed_payload b attrs par q)"
  using assms(1,2)
proof (cases rule: build_next_flashblock_cases)
  case (finished u lims)
  let ?s1 = "snd (add_builder_txs (fb_builder_tx b) c False (fs_seq u))"
  obtain q m where q: "build_block (fb_block_ops b) c True ?s1 = (Inr (q, m), fs_seq t)"
      "fo_sent (fs_out t) = fo_sent (fs_out u) @ [q]" "x = next_targets (extra_ctx c) lims"
    using finished(3) by (rule fb_finish_built) (use assms(4) in auto)
  have "grows c (fs_seq s) ?s1" using grows_trans [OF finished(1) add_builder_grows [OF assms(2)]] .
  with assms(5) have "has_run ctx db0 ?s1" by (rule has_run_grows) (use assms(6,7) in \<open>simp_all add: job_ctx_def\<close>)
  note run = build_block_has_run [OF q(1) assms(3) this assms(6,7,8)]
  have "fo_sent (fs_out u) = fo_sent (fs_out s)" using arg_cong [OF finished(2), of fo_sent] by simp
  then show ?thesis using run q(2,3) assms(4) by simp
qed simp

lemma build_loop_sealed:
  assumes "build_loop b sgs ctx s = Some (r, s')" "simulation_pure (fb_builder_tx b)" "restore_law (fb_block_ops b)"
    and "\<not> fx_disable_state_root (extra_ctx ctx)" "has_run ctx db0 (fs_seq s)" "job_ctx b attrs par ctx" "start_db b attrs par = Some db0"
    and "\<forall>p \<in> set (fo_sent (fs_out s)). sealed_payload b attrs par p"
  shows "\<forall>p \<in> set (fo_sent (fs_out s')). sealed_payload b attrs par p"
  using assms(1)
proof (rule build_loop_rule [where base = ctx and I = "\<lambda>x s. \<not> fx_disable_state_root x \<and> has_run ctx db0 (fs_seq s) \<and>
      (\<forall>p \<in> set (fo_sent (fs_out s)). sealed_payload b attrs par p)"])
  let ?I = "\<lambda>x s. \<not> fx_disable_state_root x \<and> has_run ctx db0 (fs_seq s) \<and> (\<forall>p \<in> set (fo_sent (fs_out s)). sealed_payload b attrs par p)"
  show "?I x t" if "same_job ctx c" "?I (extra_ctx c) s" "build_next_flashblock b c sg s = Some (Inr (Some x), t)" for c sg s x t
    using next_flashblock_sealed [OF that(3) assms(2,3) _ _ same_job_ctx [OF that(1) assms(6)] assms(6,7)] that(2) by auto
  show "\<forall>p \<in> set (fo_sent (fs_out t)). sealed_payload b attrs par p"
    if "?I (extra_ctx c) s" "build_next_flashblock b c sg s = Some (Inr None, t)" for c sg s t
    using build_next_flashblock_sent [OF that(2)] that(1) by (simp add: hands_over_def)
  show "\<forall>p \<in> set (fo_sent (fs_out t)). sealed_payload b attrs par p"
    if "?I (extra_ctx c) s" "build_next_flashblock b c sg s = Some (Inl e, t)" for c sg s e t
    using build_next_flashblock_sent [OF that(2)] that(1) by (simp add: hands_over_def)
qed (use assms(4,5,8) same_job_refl in auto)

lemma build_payload_sealed:
  assumes "build_payload b job limiter = Some (r, out)" "p \<in> set (fo_sent out)"
    and "simulation_pure (fb_builder_tx b)" "restore_law (fb_block_ops b)" "\<not> disable_state_root (specific (fb_config_of b))"
  shows "sealed_payload b (jb_attributes job) (jb_parent job) p"
  using assms(1)
proof (cases rule: build_payload_cases)
  case (no_context e)
  then show ?thesis using assms(2) by simp
next
  case (fallback ctx r0)
  then show ?thesis using fallback_sealed(1) [OF fallback(2,1) nothing_out_start assms(3-5)] assms(2) by blast
next
  case (flashblocks ctx s out1 n off dl x0 ctx' s')
  note fb = fallback_sealed [OF flashblocks(2,1) nothing_out_start assms(3-5)]
  obtain db0 where db0: "start_db b (jb_attributes job) (jb_parent job) = Some db0" "has_run ctx db0 s" using fb(2) by blast
  have "has_run ctx' db0 s"
    using db0(2) by (rule has_run_cong) (use flashblocks(1,6) in \<open>simp_all add: job_ctx_def\<close>)
  moreover have "\<not> fx_disable_state_root x0"
    using flashblocks(5) assms(5) by (auto simp: first_targets_def Let_def split: if_splits)
  then have "\<not> fx_disable_state_root (extra_ctx ctx')" by (simp add: flashblocks(7))
  ultimately show ?thesis
    using build_loop_sealed [OF flashblocks(8) assms(3,4) _ _ flashblocks(6) db0(1)] fb(1) flashblocks(9) assms(2) by simp
qed

section \<open>Sealing the block again\<close>

text \<open>The peer runs the chain of the builder and has the parent.\<close>

definition same_chain :: "('db, 'st, 'i) fb_builder \<Rightarrow> parent_header \<Rightarrow> 'db sync_env \<Rightarrow> ('db, 'st) syncer_ctx \<Rightarrow> bool" where
  "same_chain b par se sctx \<longleftrightarrow>
     sy_evm sctx = fb_evm b \<and> sy_chain_spec sctx = fb_chain_spec b \<and> se_chain_spec se = fb_chain_spec b \<and>
     se_block_ops se = fb_block_ops b \<and> se_next_evm_env se = fb_next_evm_env b \<and> se_pre_execution se = fb_pre_execution b \<and>
     se_state_by_block_hash se (ph_hash par) = fb_state_by_block_hash b (ph_hash par) \<and>
     se_header_by_id se (ph_hash par) = Inr (Some par)"

text \<open>The environment of a block has the gas limit and the beneficiary it was asked for.\<close>

definition env_law :: "(parent_header \<Rightarrow> next_block_env_attrs \<Rightarrow> string + block_env) \<Rightarrow> bool" where
  "env_law next_env \<longleftrightarrow>
     (\<forall>par a e. next_env par a = Inr e \<longrightarrow> be_gas_limit e = nb_gas_limit a \<and> be_beneficiary e = nb_suggested_fee_recipient a)"

text \<open>The encoders of the extra data write a version, the fee parameters and, after Jovian, the minimum base fee; the parameters
  they have written, they write again.\<close>

definition extra_data_law :: "chain_spec \<Rightarrow> payload_attrs \<Rightarrow> 'db sync_env \<Rightarrow> bool" where
  "extra_data_law cspec attrs se \<longleftrightarrow>
     (let fees = base_fee_params_at cspec (at_timestamp attrs) in
      (\<forall>ed. jovian_at cspec (at_timestamp attrs) \<and> get_jovian_extra_data attrs fees = Inr ed \<longrightarrow>
         (\<exists>version params fee. length params = 8 \<and> ed = version # params @ to_be_bytes (fee :: u64) \<and>
            se_jovian_extra_data se (Some params) (Some fee) fees = Inr ed)) \<and>
      (\<forall>ed. holocene_at cspec (at_timestamp attrs) \<and> get_holocene_extra_data attrs fees = Inr ed \<longrightarrow>
         (\<exists>version params. length params = 8 \<and> ed = version # params \<and>
            se_holocene_extra_data se (Some params) fees = Inr ed)))"

lemma extra_data_again:
  assumes "extra_data_law cspec attrs se" "extra_data ctx = Inr ed" "spec ctx = cspec" "attributes ctx = attrs"
  obtains params fee where "parse_extra_data cspec (at_timestamp attrs) ed = Inr (params, fee)"
    "\<And>sctx p par e cancelled. sy_chain_spec sctx = cspec \<Longrightarrow> hd_timestamp (sb_header (bp_block p)) = at_timestamp attrs \<Longrightarrow>
      extra_data (into_op_payload_builder_ctx sctx (sync_attributes se p params fee) par e cancelled) = Inr ed"
proof -
  let ?ts = "at_timestamp attrs" and ?fees = "base_fee_params_at cspec (at_timestamp attrs)"
  note defs = extra_data_def is_jovian_active_def is_holocene_active_def into_op_payload_builder_ctx_def sync_attributes_def Let_def
  consider "jovian_at cspec ?ts" "get_jovian_extra_data attrs ?fees = Inr ed"
    | "\<not> jovian_at cspec ?ts" "holocene_at cspec ?ts" "get_holocene_extra_data attrs ?fees = Inr ed"
    | "\<not> jovian_at cspec ?ts" "\<not> holocene_at cspec ?ts" "ed = []"
    using assms(2-4) by (auto simp: extra_data_def is_jovian_active_def is_holocene_active_def split: if_splits)
  then show ?thesis
  proof cases
    case 1
    obtain version params fee where e: "length params = 8" "ed = version # params @ to_be_bytes (fee :: u64)"
      "se_jovian_extra_data se (Some params) (Some fee) ?fees = Inr ed"
      using assms(1) 1 unfolding extra_data_law_def Let_def by blast
    show ?thesis
      by (rule that [of "Some params" "Some fee"]) (use e 1 extra_data_roundtrip [OF 1(1) e(1)] in \<open>simp_all add: defs\<close>)
  next
    case 2
    obtain version params where e: "length params = 8" "ed = version # params" "se_holocene_extra_data se (Some params) ?fees = Inr ed"
      using assms(1) 2(2,3) unfolding extra_data_law_def Let_def by blast
    show ?thesis
      by (rule that [of "Some params" None]) (use e 2 in \<open>simp_all add: defs parse_extra_data_def\<close>)
  next
    case 3
    show ?thesis
      by (rule that [of None None]) (use 3 in \<open>simp_all add: defs parse_extra_data_def\<close>)
  qed
qed

lemma build_block_parts:
  assumes "build_block blk ctx calc s = (Inr (p, m), s')"
  obtains roots beacon ed where "block_number ctx = ph_number (parent ctx) + 1"
    "block_roots blk ctx (ss_info s) calc (merge_transitions blk (ss_db s)) = Inr roots"
    "block_header blk ctx (ss_info s) roots = Inr (sb_header (bp_block p))"
    "bp_block p = seal_block blk ctx (ss_info s) (sb_header (bp_block p))"
    "at_parent_beacon_root (attributes ctx) = Some beacon" "extra_data ctx = Inr ed"
  using assms
  by (auto simp: build_block_def fb_message_def seal_block_def block_header_def Let_def and_then_eq_Inr
      split: sum.splits if_splits prod.splits)

lemma block_header_again:
  fixes ctx :: "('db, 'st, 'c) op_ctx" and c :: "('db, 'st, 'd) op_ctx"
  assumes "block_header blk ctx info roots = Inr h"
    and "env c = env ctx" "parent c = parent ctx" "at_timestamp (attributes c) = at_timestamp (attributes ctx)"
      "at_prev_randao (attributes c) = at_prev_randao (attributes ctx)"
      "at_parent_beacon_root (attributes c) = at_parent_beacon_root (attributes ctx)"
      "block_gas_limit c = block_gas_limit ctx" "extra_data c = extra_data ctx"
    and "executed_transactions j = executed_transactions info" "cumulative_gas_used j = cumulative_gas_used info"
      "blob_fields c j = Inr (hd_excess_blob_gas h, hd_blob_gas_used h)"
  shows "block_header blk c j roots = Inr h"
proof -
  have "base_fee c = base_fee ctx" by (simp add: base_fee_def assms(2))
  then show ?thesis
    using assms(1,11) by (auto simp: block_header_def assms(2-10) case_prod_unfold Let_def and_then_eq_Inr)
qed

lemma seal_again:
  fixes ctx :: "('db, 'st, 'c) op_ctx" and c :: "('db, 'st, 'd) op_ctx"
  assumes bb: "build_block blk ctx calc s = (Inr (p, m), s')"
    and ctx: "spec c = spec ctx" "env c = env ctx" "parent c = parent ctx" "at_timestamp (attributes c) = at_timestamp (attributes ctx)"
      "at_prev_randao (attributes c) = at_prev_randao (attributes ctx)"
      "at_parent_beacon_root (attributes c) = at_parent_beacon_root (attributes ctx)"
      "block_gas_limit c = block_gas_limit ctx" "extra_data c = extra_data ctx" "withdrawals c = withdrawals ctx"
    and rec: "executed_transactions (ss_info t) = executed_transactions (ss_info s)" "receipts (ss_info t) = receipts (ss_info s)"
      "cumulative_gas_used (ss_info t) = cumulative_gas_used (ss_info s)" "ss_db t = ss_db s"
      "optional_blob_fields (ss_info t) = Some (hd_excess_blob_gas (sb_header (bp_block p)), hd_blob_gas_used (sb_header (bp_block p)))"
      "last_flashblock_index (extra (ss_info t)) = 0"
  shows "\<exists>q m' t'. build_block blk c calc t = (Inr (q, m'), t') \<and> bp_block q = bp_block p \<and>
    bp_senders q = executed_senders (ss_info t) \<and> bp_receipts q = receipts (ss_info t)"
  using bb
proof (rule build_block_parts)
  fix roots beacon ed
  let ?h = "sb_header (bp_block p)"
  assume num: "block_number ctx = ph_number (parent ctx) + 1"
    and roots: "block_roots blk ctx (ss_info s) calc (merge_transitions blk (ss_db s)) = Inr roots"
    and h: "block_header blk ctx (ss_info s) roots = Inr ?h"
    and seal: "bp_block p = seal_block blk ctx (ss_info s) ?h"
    and ed: "at_parent_beacon_root (attributes ctx) = Some beacon" "extra_data ctx = Inr ed"
  have n: "block_number c = block_number ctx" by (simp add: block_number_def ctx(2))
  have r: "block_roots blk c (ss_info t) calc (merge_transitions blk (ss_db t)) = Inr roots"
    using roots unfolding block_roots_def n ctx rec .
  have blob: "blob_fields c (ss_info t) = Inr (hd_excess_blob_gas ?h, hd_blob_gas_used ?h)"
    by (simp add: blob_fields_def rec(5))
  have "block_header blk c (ss_info t) roots = Inr ?h"
    by (rule block_header_again [OF h ctx(2-8) rec(1,3) blob])
  moreover have "seal_block blk c (ss_info t) ?h = bp_block p" by (subst seal) (simp add: seal_block_def ctx(9) rec(1))
  ultimately show ?thesis
    using r n num ed by (simp add: build_block_def fb_message_def blob_fields_def Let_def ctx rec)
qed

text \<open>A peer derives from the header the attributes the builder had for the block's environment.\<close>

lemma header_env_attributes:
  assumes "block_header blk ctx info roots = Inr h" "next_block_env (spec ctx) (attributes ctx) (parent ctx) = Inr a"
    and "be_gas_limit (env ctx) = nb_gas_limit a" "be_beneficiary (env ctx) = nb_suggested_fee_recipient a"
    and "gas_limit_config ctx = None"
  shows "sync_env_attributes h = a"
proof -
  obtain ed where ed: "extra_data ctx = Inr ed" "hd_extra_data h = ed"
    and h: "hd_timestamp h = at_timestamp (attributes ctx)" "hd_beneficiary h = be_beneficiary (env ctx)"
      "hd_mix_hash h = at_prev_randao (attributes ctx)" "hd_gas_limit h = block_gas_limit ctx"
      "hd_parent_beacon_block_root h = at_parent_beacon_root (attributes ctx)"
    using assms(1) by (auto simp: block_header_def Let_def and_then_eq_Inr case_prod_unfold)
  have "nb_extra_data a = ed"
    using assms(2) ed(1)
    by (auto simp: next_block_env_def extra_data_def is_jovian_active_def is_holocene_active_def Let_def and_then_eq_Inr split: if_splits)
  moreover have "block_gas_limit ctx = nb_gas_limit a"
    using assms(2,3,5) by (cases "at_gas_limit (attributes ctx)") (auto simp: block_gas_limit_def next_block_env_def Let_def and_then_eq_Inr)
  ultimately show ?thesis
    using assms(2,4) ed(2) h by (auto simp: sync_env_attributes_def next_block_env_def Let_def and_then_eq_Inr)
qed

lemma header_fields:
  assumes "block_header blk ctx info roots = Inr h"
  shows "hd_parent_hash h = ph_hash (parent ctx)" "hd_timestamp h = at_timestamp (attributes ctx)"
    "hd_mix_hash h = at_prev_randao (attributes ctx)" "hd_gas_used h = cumulative_gas_used info" "hd_gas_limit h = block_gas_limit ctx"
    "hd_parent_beacon_block_root h = at_parent_beacon_root (attributes ctx)" "extra_data ctx = Inr (hd_extra_data h)"
  using assms by (auto simp: block_header_def Let_def and_then_eq_Inr case_prod_unfold)

text \<open>The gas a block of such transactions uses is counted without wrapping.\<close>

lemma runs_to_gas_limits:
  assumes "runs_to ctx db cum es rcs db'" "evm_gas_law (evm ctx) el"
  shows "(\<Sum>e \<leftarrow> es. unat (gas_used (snd e))) \<le> (\<Sum>e \<leftarrow> es. unat (tx_gas_limit (inner_tx (fst e))))"
  using assms
proof (induction rule: runs_to.induct)
  case (step db tx r st nonce cum es rcs db')
  then show ?case using evm_gas_lawD(1) [OF step.prems step.hyps(1)] by (auto simp: word_le_nat_alt)
qed simp

lemma unat_sum_list: "(\<Sum>x \<leftarrow> xs. unat (f x)) < 2 ^ 64 \<Longrightarrow> unat (\<Sum>x \<leftarrow> xs. (f x :: u64)) = (\<Sum>x \<leftarrow> xs. unat (f x))"
  by (induction xs) (simp_all add: unat_add_no_wrap)

section \<open>Acceptance\<close>

text \<open>What a payload needs to be accepted besides its execution: senders that its signatures give, a nonce in the receipt of every
  deposit after Regolith, and gas limits that add up without overflow.\<close>

definition transmissible :: "('db, 'st) evm_ops \<Rightarrow> chain_spec \<Rightarrow> built_payload \<Rightarrow> bool" where
  "transmissible ops cspec p \<longleftrightarrow>
     list_all2 (\<lambda>tx sender. try_recover ops tx = Some sender) (sb_transactions (bp_block p)) (bp_senders p) \<and>
     (regolith_at cspec (hd_timestamp (sb_header (bp_block p))) \<longrightarrow>
        list_all2 (\<lambda>tx rc. is_deposit tx \<longrightarrow> carries_nonce rc) (sb_transactions (bp_block p)) (bp_receipts p)) \<and>
     (\<Sum>tx \<leftarrow> sb_transactions (bp_block p). unat (tx_gas_limit tx)) < 2 ^ 64"

lemma transmissible_acceptable:
  assumes "transmissible (evm c) (spec c) p" "runs_to c db 0 es (bp_receipts p) db'" "evm_gas_law (evm c) el"
    and "sb_transactions (bp_block p) = map (inner_tx \<circ> fst) es" "bp_senders p = map (signer \<circ> fst) es"
    and "hd_gas_used (sb_header (bp_block p)) = (\<Sum>e \<leftarrow> es. gas_used (snd e))"
    and "hd_timestamp (sb_header (bp_block p)) = at_timestamp (attributes c)"
  shows "acceptable c (hd_gas_used (sb_header (bp_block p))) 0 es (bp_receipts p)"
proof -
  have "(\<Sum>e \<leftarrow> es. unat (gas_used (snd e))) < 2 ^ 64"
    using runs_to_gas_limits [OF assms(2,3)] assms(1,4) by (simp add: transmissible_def comp_def)
  then have "unat (hd_gas_used (sb_header (bp_block p))) = (\<Sum>e \<leftarrow> es. unat (gas_used (snd e)))"
    by (simp add: assms(6) unat_sum_list)
  moreover have "\<forall>e \<in> set es. try_recover (evm c) (inner_tx (fst e)) = Some (signer (fst e))"
    using assms(1,4,5) by (simp add: transmissible_def list.rel_map list_all2_same)
  moreover have "is_regolith_active c \<longrightarrow> list_all2 (\<lambda>e rc. is_deposit (inner_tx (fst e)) \<longrightarrow> carries_nonce rc) es (bp_receipts p)"
    using assms(1,4,7) by (simp add: transmissible_def is_regolith_active_def list.rel_map)
  ultimately show ?thesis by (simp add: acceptable_def)
qed

lemma peer_executes:
  assumes "runs_to c db 0 es rcs db'" "syncs_with sctx ts c" "deposit_receipt_law (evm c)" "sy_max_gas_per_txn sctx = None"
    and "acceptable c gas_limit 0 es rcs" "jovian_at cspec ts \<longrightarrow> (\<forall>db. fetch_da_footprint_gas_scalar (evm c) db \<noteq> None)"
    and "txs = map (inner_tx \<circ> fst) es"
  shows "\<exists>t. execute_transactions sctx cspec txs gas_limit ts
      \<lparr> ss_info = (with_capacity \<lparr> last_flashblock_index = 0 \<rparr>) \<lparr> optional_blob_fields := Some blob \<rparr>, ss_db = db \<rparr> = Inr t \<and> ss_db t = db' \<and>
    executed_transactions (ss_info t) = txs \<and> executed_senders (ss_info t) = map (signer \<circ> fst) es \<and> receipts (ss_info t) = rcs \<and>
    cumulative_gas_used (ss_info t) = (\<Sum>e \<leftarrow> es. gas_used (snd e)) \<and>
    last_flashblock_index (extra (ss_info t)) = 0 \<and> optional_blob_fields (ss_info t) = Some blob"
proof -
  let ?s = "\<lparr> ss_info = (with_capacity \<lparr> last_flashblock_index = 0 \<rparr>) \<lparr> optional_blob_fields := Some blob \<rparr>, ss_db = db \<rparr>"
  obtain t where t: "for_in (sync_step sctx gas_limit ts) txs ?s = (Continue, t)" "ss_db t = db'"
    "executed_transactions (ss_info t) = txs" "executed_senders (ss_info t) = map (signer \<circ> fst) es" "receipts (ss_info t) = rcs"
    "cumulative_gas_used (ss_info t) = (\<Sum>e \<leftarrow> es. gas_used (snd e))"
    "last_flashblock_index (extra (ss_info t)) = 0" "optional_blob_fields (ss_info t) = Some blob"
    using sync_loop_accepts [OF assms(1-5), of ?s] assms(7) by (auto simp: with_capacity_def)
  have "evm c = sy_evm sctx" using assms(2) by (simp add: syncs_with_def)
  then have "jovian_at cspec ts \<longrightarrow> (\<exists>v. fetch_da_footprint_gas_scalar (sy_evm sctx) (ss_db t) = Some v)" using assms(6) by auto
  then show ?thesis using t by (auto simp: execute_transactions_def)
qed

text \<open>What sealing leaves for the peer to find.\<close>

lemma sealed_payload_facts:
  assumes "sealed_payload b attrs par p" "env_law (fb_next_evm_env b)" "fb_gas_limit_config b = None"
  obtains ctx db0 s es m s' db e where "build_block (fb_block_ops b) ctx True s = (Inr (p, m), s')" "job_ctx b attrs par ctx"
    "runs_to ctx db0 0 es (bp_receipts p) (ss_db s)" "sb_transactions (bp_block p) = map (inner_tx \<circ> fst) es"
    "bp_senders p = map (signer \<circ> fst) es" "hd_gas_used (sb_header (bp_block p)) = (\<Sum>e \<leftarrow> es. gas_used (snd e))"
    "executed_transactions (ss_info s) = map (inner_tx \<circ> fst) es" "cumulative_gas_used (ss_info s) = (\<Sum>e \<leftarrow> es. gas_used (snd e))"
    "receipts (ss_info s) = bp_receipts p"
    "fb_state_by_block_hash b (ph_hash par) = Inr db"
    "fb_next_evm_env b par (sync_env_attributes (sb_header (bp_block p))) = Inr (env ctx)"
    "fb_pre_execution b par (sync_env_attributes (sb_header (bp_block p))) db = Inr db0"
    "block_gas_limit ctx = be_gas_limit (env ctx)"
proof -
  let ?h = "sb_header (bp_block p)"
  obtain ctx db0 s m s' where ctx: "job_ctx b attrs par ctx" and start: "start_db b attrs par = Some db0" and run: "has_run ctx db0 s"
    and bb: "build_block (fb_block_ops b) ctx True s = (Inr (p, m), s')"
    using assms(1) unfolding sealed_payload_def by blast
  obtain es where es: "runs_to ctx db0 0 es (receipts (ss_info s)) (ss_db s)"
    "executed_transactions (ss_info s) = map (inner_tx \<circ> fst) es" "executed_senders (ss_info s) = map (signer \<circ> fst) es"
    "cumulative_gas_used (ss_info s) = (\<Sum>e \<leftarrow> es. gas_used (snd e))"
    using run unfolding has_run_def by blast
  obtain roots where h: "block_header (fb_block_ops b) ctx (ss_info s) roots = Inr ?h"
    using bb by (rule build_block_parts)
  obtain a where a: "next_block_env (fb_chain_spec b) attrs par = Inr a" "fb_next_evm_env b par a = Inr (env ctx)"
    using ctx by (auto simp: job_ctx_def and_then_eq_Inr)
  obtain db where db: "fb_state_by_block_hash b (ph_hash par) = Inr db" "fb_pre_execution b par a db = Inr db0"
    using start a(1) by (auto simp: start_db_def and_then_eq_Inr split: sum.splits)
  have law: "be_gas_limit (env ctx) = nb_gas_limit a" "be_beneficiary (env ctx) = nb_suggested_fee_recipient a"
    using assms(2) a(2) by (auto simp: env_law_def)
  have attr: "sync_env_attributes ?h = a"
    using header_env_attributes [OF h] a(1) law assms(3) ctx by (simp add: job_ctx_def)
  have gl: "block_gas_limit ctx = be_gas_limit (env ctx)"
    using header_fields(5) [OF h] law(1) arg_cong [OF attr, of nb_gas_limit] by (simp add: sync_env_attributes_def)
  note bo = build_block_ok(4-7) [OF bb]
  show ?thesis
    by (rule that [OF bb ctx es(1) [folded bo(3)] trans [OF bo(1) es(2)] trans [OF bo(2) es(3)] trans [OF bo(4) es(4)] es(2,4)
          bo(3) [symmetric] db(1) a(2) [folded attr] db(2) [folded attr] gl])
qed

text \<open>The context the peer seals the block with.\<close>

lemma peer_context:
  assumes "c = into_op_payload_builder_ctx sctx (sync_attributes se p params fee) par (env ctx) cancelled"
    and "job_ctx b attrs par ctx" "block_header blk ctx info roots = Inr h" "bp_block p = seal_block blk ctx info h"
    and "sy_chain_spec sctx = fb_chain_spec b" "extra_data c = extra_data ctx" "block_gas_limit ctx = be_gas_limit (env ctx)"
  shows "spec c = spec ctx" "env c = env ctx" "parent c = parent ctx" "at_timestamp (attributes c) = at_timestamp (attributes ctx)"
    "at_prev_randao (attributes c) = at_prev_randao (attributes ctx)"
    "at_parent_beacon_root (attributes c) = at_parent_beacon_root (attributes ctx)"
    "block_gas_limit c = block_gas_limit ctx" "extra_data c = extra_data ctx" "withdrawals c = withdrawals ctx"
  using header_fields [OF assms(3)] assms(2,4-7)
  by (simp_all add: assms(1) job_ctx_def into_op_payload_builder_ctx_def sync_attributes_def seal_block_def Let_def block_gas_limit_def
      withdrawals_def)

lemma sealed_payload_accepted:
  assumes sealed: "sealed_payload b attrs par p" and chain: "same_chain b par se sctx" "sy_max_gas_per_txn sctx = None"
    and laws: "env_law (fb_next_evm_env b)" "fb_gas_limit_config b = None" "extra_data_law (fb_chain_spec b) attrs se"
      "deposit_receipt_law (fb_evm b)" "evm_gas_law (fb_evm b) el"
      "jovian_at (fb_chain_spec b) (at_timestamp attrs) \<longrightarrow> (\<forall>db. fetch_da_footprint_gas_scalar (fb_evm b) db \<noteq> None)"
    and ok: "validate_pre_execution se (bp_block p) par = Inr ()" "transmissible (fb_evm b) (fb_chain_spec b) p"
    and p0: "bp_block p0 = bp_block p" "bp_id p0 = bp_id p"
  shows "\<exists>q m. execute_flashblock se sctx cancelled p0 = Inr (q, m) \<and> bp_block q = bp_block p \<and>
    bp_senders q = bp_senders p \<and> bp_receipts q = bp_receipts p"
proof (rule sealed_payload_facts [OF sealed laws(1,2)])
  let ?h = "sb_header (bp_block p)"
  fix ctx db0 s es m s' db
  assume bb: "build_block (fb_block_ops b) ctx True s = (Inr (p, m), s')" and ctx: "job_ctx b attrs par ctx"
    and run: "runs_to ctx db0 0 es (bp_receipts p) (ss_db s)" and txs: "sb_transactions (bp_block p) = map (inner_tx \<circ> fst) es"
    and senders: "bp_senders p = map (signer \<circ> fst) es" and gas: "hd_gas_used ?h = (\<Sum>e \<leftarrow> es. gas_used (snd e))"
    and rec: "executed_transactions (ss_info s) = map (inner_tx \<circ> fst) es" "cumulative_gas_used (ss_info s) = (\<Sum>e \<leftarrow> es. gas_used (snd e))"
      "receipts (ss_info s) = bp_receipts p"
    and env: "fb_state_by_block_hash b (ph_hash par) = Inr db" "fb_next_evm_env b par (sync_env_attributes ?h) = Inr (env ctx)"
      "fb_pre_execution b par (sync_env_attributes ?h) db = Inr db0" "block_gas_limit ctx = be_gas_limit (env ctx)"
  obtain roots beacon ed where h: "block_header (fb_block_ops b) ctx (ss_info s) roots = Inr ?h"
    and seal: "bp_block p = seal_block (fb_block_ops b) ctx (ss_info s) ?h"
    using bb by (rule build_block_parts)
  note hf = header_fields [OF h]
  have job: "evm ctx = fb_evm b" "spec ctx = fb_chain_spec b" "attributes ctx = attrs" "parent ctx = par"
    using ctx by (simp_all add: job_ctx_def)
  have peer: "sy_evm sctx = fb_evm b" "sy_chain_spec sctx = fb_chain_spec b" "se_chain_spec se = fb_chain_spec b"
    "se_block_ops se = fb_block_ops b" "se_next_evm_env se = fb_next_evm_env b" "se_pre_execution se = fb_pre_execution b"
    "se_state_by_block_hash se (ph_hash par) = fb_state_by_block_hash b (ph_hash par)" "se_header_by_id se (ph_hash par) = Inr (Some par)"
    using chain(1) by (simp_all add: same_chain_def)
  obtain params fee where parse: "parse_extra_data (fb_chain_spec b) (at_timestamp attrs) (hd_extra_data ?h) = Inr (params, fee)"
    and again: "extra_data (into_op_payload_builder_ctx sctx (sync_attributes se p0 params fee) par (env ctx) cancelled) = Inr (hd_extra_data ?h)"
    using extra_data_again [OF laws(3) hf(7) job(2,3)] peer(2) p0(1) hf(2) job(3) by metis
  let ?c = "into_op_payload_builder_ctx sctx (sync_attributes se p0 params fee) par (env ctx) cancelled"
  have sw: "syncs_with sctx (at_timestamp attrs) ctx" using job peer by (simp add: syncs_with_def)
  have acc: "acceptable ctx (hd_gas_used ?h) 0 es (bp_receipts p)"
    using ok(2) laws(5) hf(2) by (intro transmissible_acceptable [OF _ run _ txs senders gas]) (simp_all add: job)
  obtain t where t: "execute_transactions sctx (fb_chain_spec b) (sb_transactions (bp_block p)) (hd_gas_used ?h) (at_timestamp attrs)
      \<lparr> ss_info = (with_capacity \<lparr> last_flashblock_index = 0 \<rparr>)
          \<lparr> optional_blob_fields := Some (hd_excess_blob_gas ?h, hd_blob_gas_used ?h) \<rparr>, ss_db = db0 \<rparr> = Inr t" "ss_db t = ss_db s"
    "executed_transactions (ss_info t) = executed_transactions (ss_info s)" "executed_senders (ss_info t) = bp_senders p"
    "receipts (ss_info t) = bp_receipts p" "cumulative_gas_used (ss_info t) = cumulative_gas_used (ss_info s)"
    "last_flashblock_index (extra (ss_info t)) = 0"
    "optional_blob_fields (ss_info t) = Some (hd_excess_blob_gas ?h, hd_blob_gas_used ?h)"
    using peer_executes [OF run sw _ chain(2) acc _ txs] laws(4,6) rec senders txs job(1) by fastforce
  have "bp_block p0 = seal_block (fb_block_ops b) ctx (ss_info s) ?h" using seal p0(1) by simp
  note c = peer_context [OF refl ctx h this peer(2) again [folded hf(7)] env(4)]
  obtain q m' t' where "build_block (fb_block_ops b) ?c True t = (Inr (q, m'), t')" "bp_block q = bp_block p"
    "bp_senders q = bp_senders p" "bp_receipts q = bp_receipts p"
    using seal_again [OF bb c t(3) _ t(6,2,8,7)] rec(3) t(4,5) by auto
  then show ?thesis
    using ok(1) parse t(1) env hf job p0 by (simp add: execute_flashblock_def Let_def peer)
qed

section \<open>Properties\<close>

text \<open>C3: Peers accept what a builder builds. A peer that receives any payload a flashblocks build has handed over, however the build
  ended, executes it and announces it to its node: the same block, with the same senders and receipts. This needs a
  peer on the same chain that has the parent and sets no maximum of gas per transaction, and a builder that computes
  the state root and has no gas limit of its own. The consensus rules are taken to accept the header, the environment of a block to have the
  requested gas limit and beneficiary, the encoders of the extra data to repeat what they have written, the
  data footprint to be available after Jovian, and the payload to carry the senders of its signatures and the nonces of its deposits.\<close>

theorem peers_accept_built_payloads:
  assumes "build_payload b job limiter = Some (r, out)" and "p \<in> set (fo_sent out)"
    and "simulation_pure (fb_builder_tx b)" and "restore_law (fb_block_ops b)"
    and "\<not> disable_state_root (specific (fb_config_of b))" and "fb_gas_limit_config b = None"
    and "same_chain b (jb_parent job) se sctx" and "sy_max_gas_per_txn sctx = None"
    and "env_law (fb_next_evm_env b)" and "extra_data_law (fb_chain_spec b) (jb_attributes job) se"
    and "deposit_receipt_law (fb_evm b)" and "evm_gas_law (fb_evm b) el"
    and "jovian_at (fb_chain_spec b) (at_timestamp (jb_attributes job)) \<longrightarrow>
      (\<forall>db. fetch_da_footprint_gas_scalar (fb_evm b) db \<noteq> None)"
    and "validate_pre_execution se (bp_block p) (jb_parent job) = Inr ()" and "transmissible (fb_evm b) (fb_chain_spec b) p"
  shows "\<exists>q. ho_events (handler_run sctx cancelled p2p_open [P2pRx (message_of_payload p), TaskDone se 0]) = [q] \<and>
    bp_block q = bp_block p \<and> bp_senders q = bp_senders p \<and> bp_receipts q = bp_receipts p"
proof -
  let ?p = "payload_of_p2p (p2p_of_payload p)"
  have "sealed_payload b (jb_attributes job) (jb_parent job) p" by (rule build_payload_sealed [OF assms(1-5)])
  then obtain q m where "execute_flashblock se sctx cancelled ?p = Inr (q, m)" "bp_block q = bp_block p"
    "bp_senders q = bp_senders p" "bp_receipts q = bp_receipts p"
    using sealed_payload_accepted [OF _ assms(7,8,9,6,10-15), of ?p cancelled]
    by (auto simp: payload_of_p2p_def p2p_of_payload_def)
  then show ?thesis by (simp add: handler_run_def handler_step_def handler_task_done_def message_of_payload_def)
qed

text \<open>Both payloads of the sample build.\<close>

lemma demo_sent:
  "\<exists>out p q. build_payload demo_builder (demo_job False [demo_signal [demo_pool_tx 2 0 None]]) None = Some (Inr (), out) \<and>
     fo_sent out = [q, p] \<and> sb_transactions (bp_block p) = [demo_tx 1 0, demo_tx 2 0] \<and> length (bp_receipts p) = 2 \<and> bp_senders p = [1, 2]"
  by (simp add: fb_simps fb_step_simps exec_simps demo_defs demo_fb_defs demo_cfg_sel)

theorem peers_accept_built_payloads_witness:
  "\<exists>out p q. build_payload demo_builder (demo_job False [demo_signal [demo_pool_tx 2 0 None]]) None = Some (Inr (), out) \<and>
     p \<in> set (fo_sent out) \<and> sb_transactions (bp_block q) = [demo_tx 1 0, demo_tx 2 0] \<and>
     ho_events (handler_run (demo_syncer None) (\<lambda>_. False) True
       [P2pRx (message_of_payload p), TaskDone (demo_sync_env (hash_slow demo_block_ops)) 0]) = [q]"
proof -
  let ?se = "demo_sync_env (hash_slow demo_block_ops)" and ?job = "demo_job False [demo_signal [demo_pool_tx 2 0 None]]"
  obtain out p p1 where run: "build_payload demo_builder ?job None = Some (Inr (), out)" and sent: "fo_sent out = [p1, p]"
    and p: "sb_transactions (bp_block p) = [demo_tx 1 0, demo_tx 2 0]" "length (bp_receipts p) = 2" "bp_senders p = [1, 2]"
    using demo_sent by (elim exE conjE) (rule that)
  have mem: "p \<in> set (fo_sent out)" using sent by simp
  have cfg: "\<not> disable_state_root (specific (fb_config_of demo_builder))" "fb_gas_limit_config demo_builder = None"
    "sy_max_gas_per_txn (demo_syncer None) = None" "env_law (fb_next_evm_env demo_builder)" "deposit_receipt_law (fb_evm demo_builder)"
    by (simp_all add: demo_builder_def demo_cfg_sel demo_syncer_def env_law_def deposit_receipt_law_def demo_ops_def)
  have chain: "same_chain demo_builder (jb_parent ?job) ?se (demo_syncer None)"
    by (simp add: same_chain_def demo_builder_def demo_sync_env_def demo_syncer_def demo_job_def demo_block_ops_def)
  have valid: "validate_pre_execution ?se (bp_block p) (jb_parent ?job) = Inr ()" by (simp add: validate_pre_execution_def demo_sync_env_def)
  obtain r1 r2 where "bp_receipts p = [r1, r2]" using p(2) by (auto simp: length_Suc_conv numeral_2_eq_2)
  then have "transmissible (fb_evm demo_builder) (fb_chain_spec demo_builder) p"
    using p by (simp add: transmissible_def demo_builder_def demo_ops_def demo_tx_def is_deposit_def)
  moreover have "extra_data_law (fb_chain_spec demo_builder) (jb_attributes ?job) ?se"
    by (simp add: extra_data_law_def demo_builder_def demo_spec_def Let_def)
  moreover have "\<not> jovian_at (fb_chain_spec demo_builder) (at_timestamp (jb_attributes ?job))"
    by (simp add: demo_builder_def demo_spec_def)
  ultimately obtain q where "ho_events (handler_run (demo_syncer None) (\<lambda>_. False) True [P2pRx (message_of_payload p), TaskDone ?se 0]) = [q]"
    "bp_block q = bp_block p"
    using peers_accept_built_payloads [OF run mem demo_builder_laws(1,3) cfg(1,2) chain cfg(3,4) _ cfg(5) demo_builder_laws(4) _ valid]
    by blast
  then show ?thesis using run mem p(1) by (intro exI [of _ out] exI [of _ p] exI [of _ q]) simp
qed

end
