(* ===== verification/Metrics.thy ===== *)
theory Metrics
  imports Fb_Samples Strings
begin

text \<open>
  What the program reports: the metrics of builds (\<^verbatim>\<open>metrics.rs\<close> and the places of \<^verbatim>\<open>builders/flashblocks/payload.rs\<close>
  that record them). A metric is a name with labels. Floating point values are the integers they are converted from, durations are in nanoseconds; times that
  are only measured are left out.
\<close>

section \<open>Model: recorders\<close>

type_synonym metric_key = "string \<times> (string \<times> string) list"

datatype metric_op = Increment metric_key u64 | SetGauge metric_key int | RecordSample metric_key int

text \<open>What is visible of a sequence of operations: the sum of a counter, the last value of a gauge, the samples of a histogram.\<close>

definition counter_total :: "metric_key \<Rightarrow> metric_op list \<Rightarrow> u64" where
  "counter_total k ops = (\<Sum>op \<leftarrow> ops. case op of Increment k' n \<Rightarrow> if k' = k then n else 0 | _ \<Rightarrow> 0)"

definition samples :: "metric_key \<Rightarrow> metric_op list \<Rightarrow> int list" where
  "samples k ops = List.map_filter (\<lambda>op. case op of RecordSample k' v \<Rightarrow> if k' = k then Some v else None | _ \<Rightarrow> None) ops"

definition gauge_value :: "metric_key \<Rightarrow> metric_op list \<Rightarrow> int option" where
  "gauge_value k ops =
     fold (\<lambda>op v. case op of SetGauge k' n \<Rightarrow> if k' = k then Some n else v | _ \<Rightarrow> v) ops None"

section \<open>Model: metrics of a build\<close>

text \<open>The counters of the pool loop are 32-bit signed numbers.\<close>

definition set_payload_builder_metrics :: "nat \<Rightarrow> exec_counters \<Rightarrow> metric_op list" where
  "set_payload_builder_metrics simulation_time c =
     [RecordSample (''payload_transaction_simulation_duration'', []) (int simulation_time),
      SetGauge (''payload_transaction_simulation_gauge'', []) (int simulation_time),
      RecordSample (''payload_num_tx_considered'', []) (sint (num_txs_considered c)),
      SetGauge (''payload_num_tx_considered_gauge'', []) (sint (num_txs_considered c)),
      RecordSample (''payload_num_tx_simulated'', []) (sint (num_txs_simulated c)),
      SetGauge (''payload_num_tx_simulated_gauge'', []) (sint (num_txs_simulated c)),
      RecordSample (''payload_num_tx_simulated_success'', []) (sint (num_txs_simulated_success c)),
      SetGauge (''payload_num_tx_simulated_success_gauge'', []) (sint (num_txs_simulated_success c)),
      RecordSample (''payload_num_tx_simulated_fail'', []) (sint (num_txs_simulated_fail c)),
      SetGauge (''payload_num_tx_simulated_fail_gauge'', []) (sint (num_txs_simulated_fail c)),
      RecordSample (''bundles_reverted'', []) (sint (num_bundles_reverted c)),
      SetGauge (''payload_reverted_tx_gas_used'', []) (sint (reverted_gas_used c))]"

text \<open>After the timing is derived, with the context of the fallback block.\<close>

definition timing_metrics :: "u64 \<Rightarrow> ('db, 'st) fb_ctx \<Rightarrow> duration \<Rightarrow> metric_op list" where
  "timing_metrics configured ctx first_flashblock_offset =
     [RecordSample (''reduced_flashblocks_number'', []) (uint (saturating_sub configured (target_flashblock_count ctx))),
      RecordSample (''first_flashblock_time_offset'', []) (int (as_millis first_flashblock_offset))]"

definition record_flashblocks_metrics ::
  "('db, 'st) fb_ctx \<Rightarrow> fb_execution_info execution_info \<Rightarrow> u64 \<Rightarrow> metric_op list" where
  "record_flashblocks_metrics ctx info derived =
     [Increment (''block_built_success'', []) 1,
      RecordSample (''flashblock_count'', []) (uint (flashblock_index ctx)),
      RecordSample (''missing_flashblocks_count'', []) (uint (saturating_sub derived (flashblock_index ctx))),
      RecordSample (''payload_num_tx'', []) (int (length (executed_transactions info))),
      SetGauge (''payload_num_tx_gauge'', []) (int (length (executed_transactions info)))]"

text \<open>The context and the state with which the flashblock loop ends without error.\<close>

fun build_loop_exit ::
  "('db, 'st, 'i) fb_builder \<Rightarrow> 'i fb_signal list \<Rightarrow> ('db, 'st) fb_ctx \<Rightarrow> ('db, 'i) fb_state
   \<Rightarrow> (('db, 'st) fb_ctx \<times> ('db, 'i) fb_state) option" where
  "build_loop_exit b [] ctx s = Some (ctx, s)"
| "build_loop_exit b (sg # sgs) ctx s =
     (let ctx' = with_cancel ctx (sg_cancel sg) in
      if target_flashblock_count ctx' < flashblock_index ctx' then Some (ctx', s)
      else case build_next_flashblock b ctx' sg s of
        Some (Inr None, s') \<Rightarrow> Some (ctx', s')
      | Some (Inr (Some x), s') \<Rightarrow> build_loop_exit b sgs (with_extra_ctx ctx' x) s'
      | _ \<Rightarrow> None)"

text \<open>What a build that ends without error records of its block.\<close>

definition build_metrics ::
  "('db, 'st, 'i) fb_builder \<Rightarrow> 'i fb_job \<Rightarrow> address_gas_limiter \<Rightarrow> metric_op list option" where
  "build_metrics b job limiter =
     (let cfg = fb_config_of b;
          no_root = disable_state_root (specific cfg);
          out0 = \<lparr> fo_limiter = limiter, fo_best_payload = None, fo_published = [], fo_sent = [] \<rparr> in
      case and_then (map_err Panic (flashblocks_per_block cfg)) (\<lambda>configured.
             map_sum id (\<lambda>ctx. (configured, ctx))
               (get_op_payload_builder_ctx b (jb_attributes job) (jb_parent job) (jb_block_cancel job)
                 (fb_extra_ctx_default \<lparr> fx_target_flashblock_count := configured, fx_disable_state_root := no_root \<rparr>))) of
        Inl e \<Rightarrow> None
      | Inr (configured, ctx) \<Rightarrow>
          (case build_fallback b job ctx out0 of
             (Inl e, out) \<Rightarrow> None
           | (Inr s, out) \<Rightarrow>
               if at_no_tx_pool (attributes ctx)
               then Some [RecordSample (''payload_num_tx'', []) (int (length (executed_transactions (ss_info s)))),
                          SetGauge (''payload_num_tx_gauge'', []) (int (length (executed_transactions (ss_info s))))]
               else
                 (case and_then (map_err Panic (derive_timing cfg (jb_now job) (at_timestamp (jb_attributes job))))
                         (\<lambda>(n, offset, deadline).
                           map_sum id (\<lambda>ctx'. (n, offset, ctx'))
                             (and_then (first_targets ctx (fb_max_da_block_size b) no_root (da_footprint_scalar (ss_info s)) n)
                               (get_op_payload_builder_ctx b (jb_attributes job) (jb_parent job) (jb_block_cancel job)))) of
                    Inl e \<Rightarrow> None
                  | Inr (n, offset, ctx') \<Rightarrow>
                      map_option (\<lambda>(c, t). timing_metrics configured ctx offset @
                                           record_flashblocks_metrics c (ss_info (fs_seq t)) n)
                        (build_loop_exit b (jb_signals job) ctx'
                           \<lparr> fs_seq = s, fs_best = best_new (jb_pool job), fs_out = out \<rparr>))))"

section \<open>The counters of the pool loop\<close>

text \<open>A part of the loop that considered some transactions, simulated some of these, and included no more than it pool_counted as
  succeeded or failed.\<close>

definition pool_counted :: "('db, 'i, 'x) exec_state \<Rightarrow> ('db, 'i, 'x) exec_state \<Rightarrow> bool" where
  "pool_counted s t \<longleftrightarrow>
     (\<exists>considered simulated succeeded failed bundles included.
        num_txs_considered (es_counters t) = num_txs_considered (es_counters s) + of_nat considered \<and>
        num_txs_simulated (es_counters t) = num_txs_simulated (es_counters s) + of_nat simulated \<and>
        num_txs_simulated_success (es_counters t) = num_txs_simulated_success (es_counters s) + of_nat succeeded \<and>
        num_txs_simulated_fail (es_counters t) = num_txs_simulated_fail (es_counters s) + of_nat failed \<and>
        num_bundles_reverted (es_counters t) = num_bundles_reverted (es_counters s) + of_nat bundles \<and>
        length (executed_transactions (es_info t)) = length (executed_transactions (es_info s)) + included \<and>
        simulated \<le> considered \<and> succeeded + failed \<le> simulated \<and> bundles \<le> failed \<and> included \<le> succeeded + failed)"

lemma countedI:
  assumes "num_txs_considered (es_counters t) = num_txs_considered (es_counters s) + of_nat a"
    "num_txs_simulated (es_counters t) = num_txs_simulated (es_counters s) + of_nat b"
    "num_txs_simulated_success (es_counters t) = num_txs_simulated_success (es_counters s) + of_nat c"
    "num_txs_simulated_fail (es_counters t) = num_txs_simulated_fail (es_counters s) + of_nat d"
    "num_bundles_reverted (es_counters t) = num_bundles_reverted (es_counters s) + of_nat e"
    "length (executed_transactions (es_info t)) = length (executed_transactions (es_info s)) + f"
    "b \<le> a" "c + d \<le> b" "e \<le> d" "f \<le> c + d"
  shows "pool_counted s t"
  using assms unfolding pool_counted_def by blast

lemma counted_same: "es_counters t = es_counters s \<Longrightarrow> es_info t = es_info s \<Longrightarrow> pool_counted s t"
  by (rule countedI [where a = 0 and b = 0 and c = 0 and d = 0 and e = 0 and f = 0]) simp_all

lemma counted_refl: "pool_counted s s"
  by (simp add: counted_same)

lemma counted_trans:
  assumes "pool_counted s t" "pool_counted t u"
  shows "pool_counted s u"
proof -
  obtain a b c d e f where 1: "num_txs_considered (es_counters t) = num_txs_considered (es_counters s) + of_nat a"
      "num_txs_simulated (es_counters t) = num_txs_simulated (es_counters s) + of_nat b"
      "num_txs_simulated_success (es_counters t) = num_txs_simulated_success (es_counters s) + of_nat c"
      "num_txs_simulated_fail (es_counters t) = num_txs_simulated_fail (es_counters s) + of_nat d"
      "num_bundles_reverted (es_counters t) = num_bundles_reverted (es_counters s) + of_nat e"
      "length (executed_transactions (es_info t)) = length (executed_transactions (es_info s)) + f"
      "b \<le> a" "c + d \<le> b" "e \<le> d" "f \<le> c + d"
    using assms(1) unfolding pool_counted_def by blast
  obtain a' b' c' d' e' f' where 2: "num_txs_considered (es_counters u) = num_txs_considered (es_counters t) + of_nat a'"
      "num_txs_simulated (es_counters u) = num_txs_simulated (es_counters t) + of_nat b'"
      "num_txs_simulated_success (es_counters u) = num_txs_simulated_success (es_counters t) + of_nat c'"
      "num_txs_simulated_fail (es_counters u) = num_txs_simulated_fail (es_counters t) + of_nat d'"
      "num_bundles_reverted (es_counters u) = num_bundles_reverted (es_counters t) + of_nat e'"
      "length (executed_transactions (es_info u)) = length (executed_transactions (es_info t)) + f'"
      "b' \<le> a'" "c' + d' \<le> b'" "e' \<le> d'" "f' \<le> c' + d'"
    using assms(2) unfolding pool_counted_def by blast
  show ?thesis
    by (rule countedI [where a = "a + a'" and b = "b + b'" and c = "c + c'" and d = "d + d'" and e = "e + e'" and f = "f + f'"])
      (use 1 2 in simp_all)
qed

lemma counted_considered:
  "es_counters t = (es_counters s) \<lparr> num_txs_considered := num_txs_considered (es_counters s) + 1 \<rparr> \<Longrightarrow> es_info t = es_info s \<Longrightarrow> pool_counted s t"
  by (rule countedI [where a = 1 and b = 0 and c = 0 and d = 0 and e = 0 and f = 0]) simp_all

text \<open>From the simulation on.\<close>

lemma check_result_counted:
  "pool_counted s (snd (best_check_result ctx it ptx r st
     (count (\<lambda>c. c \<lparr> num_txs_considered := num_txs_considered c + 1 \<rparr>) s \<lparr> es_cancel_polls := k \<rparr>)))"
proof -
  let ?s = "count (\<lambda>c. c \<lparr> num_txs_considered := num_txs_considered c + 1 \<rparr>) s \<lparr> es_cancel_polls := k \<rparr>"
  let ?t = "snd (best_check_result ctx it ptx r st ?s)"
  obtain granted lim where g: "consume_gas (es_limiter s) (signer (into_consensus ptx)) (gas_used r) = (granted, lim)" by fastforce
  have inc: "\<exists>m \<le> 1. length (executed_transactions (es_info ?t)) = length (executed_transactions (es_info s)) + m"
    using g by (auto simp: best_check_result_def best_include_def count_def skip_sender_def Let_def split: option.splits)
  then obtain m where m: "m \<le> 1" "length (executed_transactions (es_info ?t)) = length (executed_transactions (es_info s)) + m" by blast
  consider "\<not> is_ok granted" | "is_ok granted" "is_success r" | "is_ok granted" "\<not> is_success r" by blast
  then show ?thesis
  proof cases
    case 1
    show ?thesis
      by (rule countedI [where a = 1 and b = 1 and c = 0 and d = 0 and e = 0 and f = 0])
        (use g 1 in \<open>simp_all add: best_check_result_def count_def skip_sender_def Let_def\<close>)
  next
    case 2
    show ?thesis
      by (rule countedI [where a = 1 and b = 1 and c = 1 and d = 0 and e = 0 and f = m])
        (use g m 2 in \<open>auto simp: best_check_result_def best_include_def count_def skip_sender_def Let_def split: option.splits\<close>)
  next
    case 3
    show ?thesis
      by (rule countedI [where a = 1 and b = 1 and c = 0 and d = 1 and e = "if reverted_hashes ptx \<noteq> None then 1 else 0" and f = m])
        (use g m 3 in \<open>auto simp: best_check_result_def best_include_def count_def skip_sender_def Let_def split: option.splits\<close>)
  qed
qed

lemma best_step_counted: "pool_counted s (snd (best_step ctx it lims s ptx))"
  using check_result_counted [of s ctx it ptx]
  by (auto simp: best_step_def Let_def count_def skip_sender_def intro: counted_considered split: sum.splits evm_err.splits)

interpretation counting_loop: drawing_loop "best_step ctx it lims" "\<lambda>_. True" "\<lambda>_. True" pool_counted "exec_draw it" for ctx it lims
  by unfold_locales (auto intro: counted_refl counted_trans best_step_counted counted_same simp: exec_draw_def)

text \<open>What the pool loop reports, as long as the numbers fit their type: it simulates no more transactions than it considers, and
  includes no more than it counts as succeeded or failed. A reverted transaction that stays in the block counts as failed.\<close>

lemma sint_of_nat_small: "n < 2 ^ 31 \<Longrightarrow> sint (of_nat n :: u32) = int n"
  by (simp add: signed_of_nat signed_take_bit_int_eq_self)

lemma pool_metrics_ordered:
  assumes "execute_best_transactions ctx it lims s = Some (r, t)"
  obtains considered simulated succeeded failed included where
    "included \<le> succeeded + failed" "succeeded + failed \<le> simulated" "simulated \<le> considered"
    "length (executed_transactions (es_info t)) = length (executed_transactions (es_info s)) + included"
    "considered < 2 ^ 31 \<Longrightarrow>
       samples (''payload_num_tx_considered'', []) (set_payload_builder_metrics time (es_counters t)) = [int considered] \<and>
       samples (''payload_num_tx_simulated'', []) (set_payload_builder_metrics time (es_counters t)) = [int simulated] \<and>
       samples (''payload_num_tx_simulated_success'', []) (set_payload_builder_metrics time (es_counters t)) = [int succeeded] \<and>
       samples (''payload_num_tx_simulated_fail'', []) (set_payload_builder_metrics time (es_counters t)) = [int failed]"
proof -
  obtain q where "while_next (exec_draw it) (best_step ctx it lims) (s \<lparr> es_counters := zero_counters \<rparr>) = Some (q, t)"
    using assms by (auto simp: execute_best_transactions_def)
  then have "pool_counted (s \<lparr> es_counters := zero_counters \<rparr>) t"
    using counting_loop.while_next_keeps by blast
  then obtain a b c d e f where n: "num_txs_considered (es_counters t) = of_nat a" "num_txs_simulated (es_counters t) = of_nat b"
    "num_txs_simulated_success (es_counters t) = of_nat c" "num_txs_simulated_fail (es_counters t) = of_nat d"
    "length (executed_transactions (es_info t)) = length (executed_transactions (es_info s)) + f"
    "b \<le> a" "c + d \<le> b" "e \<le> d" "f \<le> c + d"
    unfolding pool_counted_def by (auto simp: zero_counters_def)
  show ?thesis
    by (rule that [OF n(9,7,6,5)])
      (use n in \<open>simp add: samples_def set_payload_builder_metrics_def List.map_filter_def sint_of_nat_small\<close>)
qed

section \<open>What the metrics of a build say\<close>

lemma build_loop_exit_iff:
  "build_loop b sgs ctx s = Some (Inr (), t) \<longleftrightarrow> (\<exists>c. build_loop_exit b sgs ctx s = Some (c, t))"
  by (induction b sgs ctx s rule: build_loop_exit.induct) (auto simp: Let_def split: option.splits sum.splits)

lemma build_loop_exit_index:
  assumes "build_loop_exit b sgs ctx s = Some (c, t)" "simulation_pure (fb_builder_tx b)" "restore_law (fb_block_ops b)"
    and "fb_inv (evm ctx) db0 (extra_ctx ctx) s"
  shows "flashblock_index c = of_nat (length (fo_published (fs_out t)))"
  using assms(1,4)
proof (induction sgs arbitrary: ctx s)
  case Nil
  then show ?case by (simp add: fb_inv_def flashblock_index_def)
next
  case (Cons sg sgs)
  let ?c = "with_cancel ctx (sg_cancel sg)"
  have inv: "fb_inv (evm ?c) db0 (extra_ctx ?c) s" using Cons.prems(2) by simp
  then have now: "flashblock_index ?c = of_nat (length (fo_published (fs_out s)))" by (simp add: fb_inv_def flashblock_index_def)
  show ?case
  proof (cases "target_flashblock_count ?c < flashblock_index ?c")
    case True
    then show ?thesis using Cons.prems(1) now by (simp add: Let_def)
  next
    case False
    then consider u where "build_next_flashblock b ?c sg s = Some (Inr None, u)" "c = ?c" "t = u"
      | x u where "build_next_flashblock b ?c sg s = Some (Inr (Some x), u)" "build_loop_exit b sgs (with_extra_ctx ?c x) u = Some (c, t)"
      using Cons.prems(1) by (auto simp: Let_def split: option.splits sum.splits)
    then show ?thesis
    proof cases
      case (1 u)
      then show ?thesis
        using build_next_flashblock_unpublished [OF 1(1) assms(2)] now by simp
    next
      case (2 x u)
      from build_next_flashblock_inv(1) [OF 2(1) assms(2,3) inv, of x] have "fb_inv (evm (with_extra_ctx ?c x)) db0 (extra_ctx (with_extra_ctx ?c x)) u"
        by simp
      from Cons.IH [OF 2(2) this] show ?thesis .
    qed
  qed
qed

text \<open>A build from the pool that ended without error, and what it recorded.\<close>

lemma build_metrics_recorded:
  assumes "build_payload b job limiter = Some (Inr (), out)" "\<not> at_no_tx_pool (jb_attributes job)"
  obtains configured ctx s out1 n off dl x0 ctx' c t where
    "job_ctx b (jb_attributes job) (jb_parent job) ctx" "target_flashblock_count ctx = configured"
    "build_fallback b job ctx \<lparr> fo_limiter = limiter, fo_best_payload = None, fo_published = [], fo_sent = [] \<rparr> = (Inr s, out1)"
    "derive_timing (fb_config_of b) (jb_now job) (at_timestamp (jb_attributes job)) = Inr (n, off, dl)"
    "first_targets ctx (fb_max_da_block_size b) (disable_state_root (specific (fb_config_of b))) (da_footprint_scalar (ss_info s)) n = Inr x0"
    "job_ctx b (jb_attributes job) (jb_parent job) ctx'" "extra_ctx ctx' = x0"
    "build_loop_exit b (jb_signals job) ctx' \<lparr> fs_seq = s, fs_best = best_new (jb_pool job), fs_out = out1 \<rparr> = Some (c, t)" "out = fs_out t"
    "build_metrics b job limiter = Some (timing_metrics configured ctx off @ record_flashblocks_metrics c (ss_info (fs_seq t)) n)"
proof -
  let ?attrs = "jb_attributes job" and ?out0 = "\<lparr> fo_limiter = limiter, fo_best_payload = None, fo_published = [], fo_sent = [] \<rparr>"
  let ?get = "get_op_payload_builder_ctx b ?attrs (jb_parent job) (jb_block_cancel job)"
  let ?x = "\<lambda>n. fb_extra_ctx_default \<lparr> fx_target_flashblock_count := n, fx_disable_state_root := disable_state_root (specific (fb_config_of b)) \<rparr>"
  let ?first = "\<lambda>ctx s. first_targets ctx (fb_max_da_block_size b) (disable_state_root (specific (fb_config_of b))) (da_footprint_scalar (ss_info s))"
  obtain configured ctx where ctx: "flashblocks_per_block (fb_config_of b) = Inr configured" "?get (?x configured) = Inr ctx"
    using assms(1) by (auto simp: build_payload_def Let_def and_then_eq_Inr split: sum.splits)
  have job: "job_ctx b ?attrs (jb_parent job) ctx" "extra_ctx ctx = ?x configured" using get_ctx_job [OF ctx(2)] by simp_all
  then have pool: "\<not> at_no_tx_pool (attributes ctx)" using assms(2) by (simp add: job_ctx_def)
  obtain s out1 where fb: "build_fallback b job ctx ?out0 = (Inr s, out1)"
    using assms(1) ctx by (auto simp: build_payload_def Let_def split: sum.splits prod.splits)
  obtain n off dl x0 ctx' where timing: "derive_timing (fb_config_of b) (jb_now job) (at_timestamp ?attrs) = Inr (n, off, dl)"
      "?first ctx s n = Inr x0" "?get x0 = Inr ctx'"
    using assms(1) ctx fb pool by (auto simp: build_payload_def Let_def and_then_eq_Inr split: sum.splits)
  obtain t where loop: "build_loop b (jb_signals job) ctx' \<lparr> fs_seq = s, fs_best = best_new (jb_pool job), fs_out = out1 \<rparr> = Some (Inr (), t)"
      "out = fs_out t"
    using assms(1) ctx fb pool timing by (auto simp: build_payload_def Let_def)
  then obtain c where c: "build_loop_exit b (jb_signals job) ctx' \<lparr> fs_seq = s, fs_best = best_new (jb_pool job), fs_out = out1 \<rparr> = Some (c, t)"
    by (auto simp: build_loop_exit_iff)
  have "build_metrics b job limiter = Some (timing_metrics configured ctx off @ record_flashblocks_metrics c (ss_info (fs_seq t)) n)"
    using ctx fb pool timing c by (simp add: build_metrics_def Let_def)
  moreover have "target_flashblock_count ctx = configured" using job(2) by (simp add: target_flashblock_count_def)
  ultimately show ?thesis
    using that [OF job(1) _ fb timing(1,2) _ _ c loop(2)] get_ctx_job [OF timing(3)] by blast
qed

text \<open>C40: The metrics of a build from the pool that ended without error: the number of flashblocks it records is the number it published,
  the fallback block included. But for the missing flashblocks it records the derived number less this one, so
  that whenever flashblocks are missing it records one too few (none if the last one was not built); and the reduction of
  the number by the timing is recorded as zero whatever the timing was, since it is computed before the derived number is in the context.\<close>

theorem missing_flashblocks_undercounted:
  assumes "build_payload b job limiter = Some (Inr (), out)" and "\<not> at_no_tx_pool (jb_attributes job)"
    and "derive_timing (fb_config_of b) (jb_now job) (at_timestamp (jb_attributes job)) = Inr (n, off, dl)"
    and "unat n + 1 < 2 ^ 64" and "simulation_pure (fb_builder_tx b)" and "restore_law (fb_block_ops b)"
  shows "\<exists>ops. build_metrics b job limiter = Some ops \<and> length (fo_published out) \<le> unat n + 1 \<and>
    samples (''flashblock_count'', []) ops = [int (length (fo_published out))] \<and>
    samples (''missing_flashblocks_count'', []) ops = [int (unat n - length (fo_published out))] \<and>
    samples (''reduced_flashblocks_number'', []) ops = [0]"
proof (rule build_metrics_recorded [OF assms(1,2)])
  fix configured ctx s out1 n' off' dl' x0 ctx' c t
  assume ctx: "job_ctx b (jb_attributes job) (jb_parent job) ctx" "target_flashblock_count ctx = configured"
    and fb: "build_fallback b job ctx \<lparr> fo_limiter = limiter, fo_best_payload = None, fo_published = [], fo_sent = [] \<rparr> = (Inr s, out1)"
    and timing: "derive_timing (fb_config_of b) (jb_now job) (at_timestamp (jb_attributes job)) = Inr (n', off', dl')"
    and first: "first_targets ctx (fb_max_da_block_size b) (disable_state_root (specific (fb_config_of b))) (da_footprint_scalar (ss_info s)) n' = Inr x0"
    and ctx': "job_ctx b (jb_attributes job) (jb_parent job) ctx'" "extra_ctx ctx' = x0"
    and loop: "build_loop_exit b (jb_signals job) ctx' \<lparr> fs_seq = s, fs_best = best_new (jb_pool job), fs_out = out1 \<rparr> = Some (c, t)"
    and out: "out = fs_out t"
    and ops: "build_metrics b job limiter = Some (timing_metrics configured ctx off' @ record_flashblocks_metrics c (ss_info (fs_seq t)) n')"
  have n: "n' = n" "off' = off" using timing assms(3) by simp_all
  obtain db0 where inv: "fb_inv (evm ctx') db0 (extra_ctx ctx') \<lparr> fs_seq = s, fs_best = best_new (jb_pool job), fs_out = out1 \<rparr>"
    and len: "length (fo_published out1) = 1"
    using flashblocks_start [OF ctx(1) fb assms(2) first ctx' assms(5,6) nothing_out_start] by metis
  have run: "build_loop b (jb_signals job) ctx' \<lparr> fs_seq = s, fs_best = best_new (jb_pool job), fs_out = out1 \<rparr> = Some (Inr (), t)"
    using loop by (auto simp: build_loop_exit_iff)
  have "flashblock_ctx x0 (extra_ctx ctx')" unfolding ctx'(2) by (rule flashblock_ctx.first)
  from build_loop_count [OF run assms(5,6) inv this first_targets_sel(2) [OF first]]
  have count: "length (fo_published out) \<le> unat n + 1" using n len assms(4) out by simp
  then have idx: "uint (of_nat (length (fo_published out)) :: u64) = int (length (fo_published out))"
      "unat (of_nat (length (fo_published out)) :: u64) = length (fo_published out)"
    using assms(4) by (simp_all add: unat_of_nat_small uint_nat)
  have "flashblock_index c = of_nat (length (fo_published out))"
    using build_loop_exit_index [OF loop assms(5,6) inv] out by simp
  moreover from this have "uint (saturating_sub n (flashblock_index c)) = int (unat n - length (fo_published out))"
    using idx(2) by (simp add: unat_saturating_sub uint_nat)
  moreover have "saturating_sub configured configured = 0" by (simp add: saturating_sub_def)
  ultimately show ?thesis
    using ops count n ctx(2) idx(1)
    by (simp add: samples_def timing_metrics_def record_flashblocks_metrics_def List.map_filter_def)
qed

theorem missing_flashblocks_undercounted_witness:
  "\<exists>out ops. build_payload demo_builder (demo_job False [demo_signal [demo_pool_tx 2 0 None]]) None = Some (Inr (), out) \<and>
     length (fo_published out) = 2 \<and> build_metrics demo_builder (demo_job False [demo_signal [demo_pool_tx 2 0 None]]) None = Some ops \<and>
     samples (''missing_flashblocks_count'', []) ops = [6]"
proof -
  obtain out where run: "build_payload demo_builder (demo_job False [demo_signal [demo_pool_tx 2 0 None]]) None = Some (Inr (), out)"
    and "map fb_index (fo_published out) = [0, 1]"
    using demo_build by (elim exE conjE) (rule that)
  from arg_cong [OF this(2), of length] have two: "length (fo_published out) = 2" by simp
  have t: "derive_timing (fb_config_of demo_builder) now ts = Inr (8, 250000000, 2000000000)" for now ts
    by (simp add: demo_builder_def demo_cfg_sel)
  have "\<not> at_no_tx_pool (jb_attributes (demo_job False sgs))" for sgs by (simp add: demo_job_def)
  from missing_flashblocks_undercounted [OF run this t _ demo_builder_laws(1,3)] show ?thesis using run two by auto
qed

end
