(* ===== verification/Task_Metrics.thy ===== *)
theory Task_Metrics
  imports Metrics
begin

text \<open>
  The collector of task and runtime metrics (\<^verbatim>\<open>tokio_metrics.rs\<close>), the registration of the version
  (\<^verbatim>\<open>metrics.rs\<close>) and the version strings the build script makes (\<^verbatim>\<open>build.rs\<close>). The monitors of the
  runtime are a library: at each tick each of them may give a snapshot of the time since the last one.
\<close>

section \<open>Model: snapshots\<close>

record runtime_metrics =
  rm_workers_count :: nat
  rm_live_tasks_count :: nat
  rm_total_park_count :: u64
  rm_max_park_count :: u64
  rm_min_park_count :: u64
  rm_total_busy_duration :: duration
  rm_max_busy_duration :: duration
  rm_min_busy_duration :: duration
  rm_global_queue_depth :: nat
  rm_elapsed :: duration

text \<open>The mean durations are methods of the library's snapshot.\<close>

record task_metrics =
  tk_instrumented_count :: u64
  tk_dropped_count :: u64
  tk_first_poll_count :: u64
  tk_total_poll_count :: u64
  tk_total_poll_duration :: duration
  tk_mean_poll_duration :: duration
  tk_total_idled_count :: u64
  tk_total_idle_duration :: duration
  tk_mean_idle_duration :: duration
  tk_total_scheduled_count :: u64
  tk_total_scheduled_duration :: duration
  tk_mean_scheduled_duration :: duration
  tk_total_slow_poll_count :: u64
  tk_total_slow_poll_duration :: duration
  tk_total_short_delay_count :: u64
  tk_total_long_delay_count :: u64
  tk_total_long_delay_duration :: duration

section \<open>Model: recording\<close>

definition runtime_key :: "string \<Rightarrow> metric_key" where
  "runtime_key field = (''op_rbuilder.tokio_runtime.'' @ field, [])"

definition task_key :: "string \<Rightarrow> string \<Rightarrow> metric_key" where
  "task_key task_name field = (''op_rbuilder.tokio_task.'' @ field, [(''task'', task_name)])"

definition as_micros :: "duration \<Rightarrow> nat" where
  "as_micros d = d div 1000"

definition runtime_record :: "runtime_metrics \<Rightarrow> metric_op list" where
  "runtime_record rm =
     [SetGauge (runtime_key ''workers_count'') (int (rm_workers_count rm)),
      SetGauge (runtime_key ''live_tasks_count'') (int (rm_live_tasks_count rm)),
      Increment (runtime_key ''total_park_count'') (rm_total_park_count rm),
      RecordSample (runtime_key ''max_park_count'') (uint (rm_max_park_count rm)),
      RecordSample (runtime_key ''min_park_count'') (uint (rm_min_park_count rm)),
      RecordSample (runtime_key ''total_busy_duration_seconds'') (int (rm_total_busy_duration rm)),
      RecordSample (runtime_key ''max_busy_duration_seconds'') (int (rm_max_busy_duration rm)),
      RecordSample (runtime_key ''min_busy_duration_seconds'') (int (rm_min_busy_duration rm)),
      SetGauge (runtime_key ''global_queue_depth'') (int (rm_global_queue_depth rm)),
      RecordSample (runtime_key ''elapsed_seconds'') (int (rm_elapsed rm))]"

definition record_metrics :: "string \<Rightarrow> task_metrics \<Rightarrow> metric_op list" where
  "record_metrics name tm =
     [Increment (task_key name ''instrumented_count'') (tk_instrumented_count tm),
      Increment (task_key name ''dropped_count'') (tk_dropped_count tm),
      Increment (task_key name ''first_poll_count'') (tk_first_poll_count tm),
      Increment (task_key name ''total_poll_count'') (tk_total_poll_count tm),
      RecordSample (task_key name ''total_poll_duration_seconds'') (int (tk_total_poll_duration tm))] @
     (if 0 < tk_total_poll_count tm
      then [RecordSample (task_key name ''mean_poll_duration_us'') (int (as_micros (tk_mean_poll_duration tm)))] else []) @
     [RecordSample (task_key name ''total_idle_duration_seconds'') (int (tk_total_idle_duration tm))] @
     (if 0 < tk_total_idled_count tm
      then [RecordSample (task_key name ''mean_idle_duration_us'') (int (as_micros (tk_mean_idle_duration tm)))] else []) @
     [RecordSample (task_key name ''total_scheduled_duration_seconds'') (int (tk_total_scheduled_duration tm))] @
     (if 0 < tk_total_scheduled_count tm
      then [RecordSample (task_key name ''mean_scheduled_duration_us'') (int (as_micros (tk_mean_scheduled_duration tm)))] else []) @
     [Increment (task_key name ''slow_poll_count'') (tk_total_slow_poll_count tm),
      RecordSample (task_key name ''slow_poll_duration_seconds'') (int (tk_total_slow_poll_duration tm)),
      Increment (task_key name ''short_delay_count'') (tk_total_short_delay_count tm),
      Increment (task_key name ''long_delay_count'') (tk_total_long_delay_count tm),
      RecordSample (task_key name ''long_delay_duration_seconds'') (int (tk_total_long_delay_duration tm))]"

text \<open>The monitored tasks, by name.\<close>

definition flashblocks_task_metrics :: "string list" where
  "flashblocks_task_metrics = [''flashblock_timer'', ''payload_builder_service'', ''payload_handler'', ''websocket_publisher'']"

text \<open>What the monitors give at a tick, and what the collector records of it.\<close>

record collector_tick =
  ct_runtime :: "runtime_metrics option"
  ct_task :: "string \<Rightarrow> task_metrics option"

definition collect_tick :: "collector_tick \<Rightarrow> metric_op list" where
  "collect_tick tick =
     (case ct_runtime tick of None \<Rightarrow> [] | Some rm \<Rightarrow> runtime_record rm) @
     concat (map (\<lambda>name. case ct_task tick name of None \<Rightarrow> [] | Some tm \<Rightarrow> record_metrics name tm) flashblocks_task_metrics)"

definition spawn_metrics_collector :: "collector_tick list \<Rightarrow> metric_op list" where
  "spawn_metrics_collector ticks = concat (map collect_tick ticks)"

section \<open>Model: version strings\<close>

text \<open>
  The build script reads the variables that the version generator sets, and emits variables for the compiler. A slice of a
  short string, a missing output directory and a directory with fewer than four parts panic. Strings are the bytes of ASCII text.
\<close>

datatype build_error = MissingVar string | BuildPanic string

definition env_var :: "(string \<Rightarrow> string option) \<Rightarrow> string \<Rightarrow> build_error + string" where
  "env_var vars name = ok_or (MissingVar name) (vars name)"

definition slice_to :: "nat \<Rightarrow> string \<Rightarrow> build_error + string" where
  "slice_to n str = (if n \<le> length str then Inr (take n str) else Inl (BuildPanic ''byte index out of bounds''))"

definition ends_with :: "string \<Rightarrow> string \<Rightarrow> bool" where
  "ends_with str suff \<longleftrightarrow> length suff \<le> length str \<and> drop (length str - length suff) str = suff"

definition trim_end :: "string \<Rightarrow> string" where
  "trim_end str = rev (dropWhile is_whitespace (rev str))"

definition version_suffix :: "bool \<Rightarrow> string \<Rightarrow> string \<Rightarrow> string" where
  "version_suffix is_dirty describe sha_short =
     (let not_on_tag = ends_with describe (''-g'' @ sha_short) in if is_dirty \<or> not_on_tag then ''-dev'' else [])"

definition build_profile :: "string \<Rightarrow> build_error + string" where
  "build_profile out_dir =
     (let parts = rev (split_char (CHR ''/'') out_dir)
      in if 3 < length parts then Inr (parts ! 3) else Inl (BuildPanic ''unwrap on None''))"

definition out_dir_var :: "(string \<Rightarrow> string option) \<Rightarrow> build_error + string" where
  "out_dir_var vars = ok_or (BuildPanic ''OUT_DIR'') (vars ''OUT_DIR'')"

definition version_vars ::
  "string \<Rightarrow> string \<Rightarrow> string \<Rightarrow> string \<Rightarrow> string \<Rightarrow> string \<Rightarrow> string \<Rightarrow> string \<Rightarrow> string \<Rightarrow> (string \<times> string) list" where
  "version_vars pkg_version sha author_full suff profile built features message triple =
     [(''VERGEN_GIT_SHA_SHORT'', take 8 sha),
      (''VERGEN_GIT_COMMIT_AUTHOR'', author_full),
      (''OP_RBUILDER_VERSION_SUFFIX'', suff),
      (''OP_RBUILDER_BUILD_PROFILE'', profile),
      (''OP_RBUILDER_SHORT_VERSION'', pkg_version @ suff @ '' ('' @ take 7 sha @ '')''),
      (''OP_RBUILDER_LONG_VERSION_0'', ''Version: '' @ pkg_version @ suff),
      (''OP_RBUILDER_LONG_VERSION_1'', ''Commit SHA: '' @ sha),
      (''OP_RBUILDER_LONG_VERSION_2'', ''Build Timestamp: '' @ built),
      (''OP_RBUILDER_LONG_VERSION_3'', ''Build Features: '' @ features),
      (''OP_RBUILDER_LONG_VERSION_4'', ''Build Profile: '' @ profile),
      (''OP_RBUILDER_LONG_VERSION_5'', ''Latest Commit: '' @ [CHR 0x27] @ trim_end message @ [CHR 0x27] @ '' by '' @ author_full),
      (''OP_RBUILDER_P2P_CLIENT_VERSION'', ''op-rbuilder/v'' @ pkg_version @ ''-'' @ take 7 sha @ ''/'' @ triple)]"

definition build_main :: "string \<Rightarrow> (string \<Rightarrow> string option) \<Rightarrow> build_error + (string \<times> string) list" where
  "build_main pkg_version vars =
     and_then (env_var vars ''VERGEN_GIT_SHA'') (\<lambda>sha.
     and_then (slice_to 7 sha) (\<lambda>sha_short.
     and_then (slice_to 8 sha) (\<lambda>_.
     and_then (env_var vars ''VERGEN_GIT_COMMIT_AUTHOR_NAME'') (\<lambda>author_name.
     and_then (env_var vars ''VERGEN_GIT_COMMIT_AUTHOR_EMAIL'') (\<lambda>author_email.
     and_then (env_var vars ''VERGEN_GIT_DIRTY'') (\<lambda>dirty.
     and_then (env_var vars ''VERGEN_GIT_DESCRIBE'') (\<lambda>describe.
     and_then (out_dir_var vars) (\<lambda>out_dir.
     and_then (build_profile out_dir) (\<lambda>profile.
     and_then (env_var vars ''VERGEN_BUILD_TIMESTAMP'') (\<lambda>built.
     and_then (env_var vars ''VERGEN_CARGO_FEATURES'') (\<lambda>features.
     and_then (env_var vars ''VERGEN_GIT_COMMIT_MESSAGE'') (\<lambda>message.
     and_then (env_var vars ''VERGEN_CARGO_TARGET_TRIPLE'') (\<lambda>triple.
       Inr (version_vars pkg_version sha (author_name @ '' <'' @ author_email @ ''>'')
              (version_suffix (dirty = ''true'') describe sha_short) profile built features message triple))))))))))))))"

text \<open>The constants of the program, compiled from the emitted variables: a missing one stops the compilation.\<close>

record version_info =
  vi_version :: string
  vi_build_timestamp :: string
  vi_cargo_features :: string
  vi_git_sha :: string
  vi_target_triple :: string
  vi_build_profile :: string
  vi_commit_author :: string
  vi_commit_message :: string

definition program_version :: "string \<Rightarrow> (string \<Rightarrow> string option) \<Rightarrow> version_info option" where
  "program_version pkg_version vars =
     (case (vars ''VERGEN_BUILD_TIMESTAMP'', vars ''VERGEN_CARGO_FEATURES'', vars ''VERGEN_GIT_SHA_SHORT'',
            vars ''VERGEN_CARGO_TARGET_TRIPLE'', vars ''OP_RBUILDER_BUILD_PROFILE'', vars ''VERGEN_GIT_COMMIT_AUTHOR'',
            vars ''VERGEN_GIT_COMMIT_MESSAGE'')
      of (Some built, Some features, Some sha, Some triple, Some profile, Some author, Some message) \<Rightarrow>
           Some \<lparr> vi_version = pkg_version, vi_build_timestamp = built, vi_cargo_features = features, vi_git_sha = sha,
                  vi_target_triple = triple, vi_build_profile = profile, vi_commit_author = author, vi_commit_message = message \<rparr>
       | _ \<Rightarrow> None)"

definition long_version :: "(string \<Rightarrow> string option) \<Rightarrow> string option" where
  "long_version vars =
     map_option (\<lambda>ls. concat (map (\<lambda>l. l @ [CHR 0x0A]) (butlast ls)) @ last ls)
       (those (map vars [''OP_RBUILDER_LONG_VERSION_0'', ''OP_RBUILDER_LONG_VERSION_1'', ''OP_RBUILDER_LONG_VERSION_2'',
                         ''OP_RBUILDER_LONG_VERSION_3'', ''OP_RBUILDER_LONG_VERSION_4'', ''OP_RBUILDER_LONG_VERSION_5'']))"

definition register_version_metrics :: "version_info \<Rightarrow> metric_op list" where
  "register_version_metrics v =
     [SetGauge (''builder_info'',
        [(''builder_flavor'', ''op-rbuilder''), (''version'', vi_version v), (''build_timestamp'', vi_build_timestamp v),
         (''cargo_features'', vi_cargo_features v), (''git_sha'', vi_git_sha v), (''target_triple'', vi_target_triple v),
         (''build_profile'', vi_build_profile v), (''commit_author'', vi_commit_author v),
         (''commit_message'', vi_commit_message v)]) 1]"

section \<open>What the collector shows\<close>

lemma counter_total_append [simp]: "counter_total k (xs @ ys) = counter_total k xs + counter_total k ys"
  by (simp add: counter_total_def)

lemma counter_total_concat: "counter_total k (concat xss) = (\<Sum>xs \<leftarrow> xss. counter_total k xs)"
  by (induction xss) (simp_all add: counter_total_def)

lemma samples_append [simp]: "samples k (xs @ ys) = samples k xs @ samples k ys"
  by (simp add: samples_def List.map_filter_def)

lemma samples_concat: "samples k (concat xss) = concat (map (samples k) xss)"
  by (induction xss) (simp_all add: samples_def List.map_filter_def)

lemmas recorded_defs = record_metrics_def runtime_record_def task_key_def runtime_key_def counter_total_def samples_def List.map_filter_def

lemma task_record_polls:
  "counter_total (task_key name ''total_poll_count'') (record_metrics name' tm) = (if name' = name then tk_total_poll_count tm else 0)"
  "samples (task_key name ''mean_poll_duration_us'') (record_metrics name' tm) =
     (if name' = name \<and> 0 < tk_total_poll_count tm then [int (as_micros (tk_mean_poll_duration tm))] else [])"
  "counter_total (task_key name ''total_poll_count'') (runtime_record rm) = 0"
  "samples (task_key name ''mean_poll_duration_us'') (runtime_record rm) = []"
  by (simp_all add: recorded_defs)


text \<open>
  What the collector reports of a task: its poll counter is the sum of the intervals, and it has one mean for each
  interval in which the task was polled, in order.
\<close>

lemma counter_total_Nil [simp]: "counter_total k [] = 0"
  by (simp add: counter_total_def)

lemma samples_Nil [simp]: "samples k [] = []"
  by (simp add: samples_def List.map_filter_def)

definition interval_polls :: "string \<Rightarrow> collector_tick \<Rightarrow> u64" where
  "interval_polls name tick = (case ct_task tick name of None \<Rightarrow> 0 | Some tm \<Rightarrow> tk_total_poll_count tm)"

definition interval_means :: "string \<Rightarrow> collector_tick \<Rightarrow> int list" where
  "interval_means name tick =
     (case ct_task tick name of None \<Rightarrow> []
      | Some tm \<Rightarrow> if 0 < tk_total_poll_count tm then [int (as_micros (tk_mean_poll_duration tm))] else [])"

lemma task_names_distinct: "distinct flashblocks_task_metrics"
  by (simp add: flashblocks_task_metrics_def)

lemma sum_list_only: "distinct ns \<Longrightarrow> n \<in> set ns \<Longrightarrow> (\<Sum>m \<leftarrow> ns. if m = n then f m else 0) = f n" for f :: "'a \<Rightarrow> 'b::comm_monoid_add"
  by (simp add: sum_list_distinct_conv_sum_set)

lemma concat_only: "distinct ns \<Longrightarrow> concat (map (\<lambda>m. if m = n then f m else []) ns) = (if n \<in> set ns then f n else [])"
  by (induction ns) auto

lemma monitor_polls:
  "counter_total (task_key name ''total_poll_count'') (case ct_task tick m of None \<Rightarrow> [] | Some tm \<Rightarrow> record_metrics m tm) =
     (if m = name then interval_polls m tick else 0)"
  "samples (task_key name ''mean_poll_duration_us'') (case ct_task tick m of None \<Rightarrow> [] | Some tm \<Rightarrow> record_metrics m tm) =
     (if m = name then interval_means m tick else [])"
  by (simp_all add: interval_polls_def interval_means_def task_record_polls split: option.split)

lemma runtime_polls:
  "counter_total (task_key name ''total_poll_count'') (case rm of None \<Rightarrow> [] | Some r \<Rightarrow> runtime_record r) = 0"
  "samples (task_key name ''mean_poll_duration_us'') (case rm of None \<Rightarrow> [] | Some r \<Rightarrow> runtime_record r) = []"
  by (simp_all add: task_record_polls split: option.split)

lemma collect_tick_polls:
  assumes "name \<in> set flashblocks_task_metrics"
  shows "counter_total (task_key name ''total_poll_count'') (collect_tick tick) = interval_polls name tick"
    and "samples (task_key name ''mean_poll_duration_us'') (collect_tick tick) = interval_means name tick"
  using assms task_names_distinct
  by (simp_all add: collect_tick_def runtime_polls counter_total_concat samples_concat comp_def monitor_polls sum_list_only concat_only)

lemma collector_reports_polls:
  assumes "name \<in> set flashblocks_task_metrics"
  shows "counter_total (task_key name ''total_poll_count'') (spawn_metrics_collector ticks) = (\<Sum>t \<leftarrow> ticks. interval_polls name t)"
    and "samples (task_key name ''mean_poll_duration_us'') (spawn_metrics_collector ticks) = concat (map (interval_means name) ticks)"
  using collect_tick_polls [OF assms]
  by (simp_all add: spawn_metrics_collector_def counter_total_concat samples_concat comp_def)

section \<open>What the version strings show\<close>

lemma ends_with_iff: "ends_with str suff \<longleftrightarrow> (\<exists>pre. str = pre @ suff)"
proof
  assume "ends_with str suff"
  then have "str = take (length str - length suff) str @ suff"
    by (metis append_take_drop_id ends_with_def)
  then show "\<exists>pre. str = pre @ suff" ..
qed (auto simp: ends_with_def)

text \<open>
  A build succeeds only with a commit of eight digits or more; the digits of the version are the first seven of them and
  those of the \<^verbatim>\<open>git_sha\<close> label the first eight.
\<close>

lemma env_var_eq_Inr [simp]: "env_var vars name = Inr v \<longleftrightarrow> vars name = Some v"
  by (simp add: env_var_def)

lemma slice_to_eq_Inr [simp]: "slice_to n str = Inr v \<longleftrightarrow> n \<le> length str \<and> v = take n str"
  by (auto simp: slice_to_def)

lemma version_suffix_iff:
  "version_suffix dirty describe short = ''-dev'' \<longleftrightarrow> dirty \<or> (\<exists>tag. describe = tag @ ''-g'' @ short)"
  "version_suffix dirty describe short = ''-dev'' \<or> version_suffix dirty describe short = []"
  by (auto simp: version_suffix_def Let_def ends_with_iff)

lemma build_main_Inr:
  assumes "build_main pkg vars = Inr out"
  shows "\<exists>sha author dirty describe profile built features message triple.
           vars ''VERGEN_GIT_SHA'' = Some sha \<and> 8 \<le> length sha \<and>
           vars ''VERGEN_GIT_DIRTY'' = Some dirty \<and> vars ''VERGEN_GIT_DESCRIBE'' = Some describe \<and>
           out = version_vars pkg sha author (version_suffix (dirty = ''true'') describe (take 7 sha)) profile built features message triple"
  using assms unfolding build_main_def and_then_eq_Inr env_var_eq_Inr slice_to_eq_Inr sum.inject by blast

lemma version_vars_lookup:
  "map_of (version_vars pkg sha author suff profile built features message triple) ''VERGEN_GIT_SHA_SHORT'' = Some (take 8 sha)"
  "map_of (version_vars pkg sha author suff profile built features message triple) ''OP_RBUILDER_VERSION_SUFFIX'' = Some suff"
  "map_of (version_vars pkg sha author suff profile built features message triple) ''OP_RBUILDER_SHORT_VERSION'' =
     Some (pkg @ suff @ '' ('' @ take 7 sha @ '')'')"
  by (simp_all add: version_vars_def)

text \<open>What a build emits is enough for the long version.\<close>

lemma long_version_of_build:
  assumes "build_main pkg vars = Inr out"
  shows "long_version (map_of out) \<noteq> None"
proof -
  from build_main_Inr [OF assms] obtain sha author suff profile built features message triple where
    "out = version_vars pkg sha author suff profile built features message triple" by blast
  then show ?thesis by (simp add: version_vars_def long_version_def)
qed

lemma build_main_versions:
  assumes "build_main pkg vars = Inr out"
  obtains sha suff where "vars ''VERGEN_GIT_SHA'' = Some sha" "8 \<le> length sha"
    "map_of out ''VERGEN_GIT_SHA_SHORT'' = Some (take 8 sha)"
    "map_of out ''OP_RBUILDER_VERSION_SUFFIX'' = Some suff" "suff = ''-dev'' \<or> suff = []"
    "map_of out ''OP_RBUILDER_SHORT_VERSION'' = Some (pkg @ suff @ '' ('' @ take 7 sha @ '')'')"
    "suff = ''-dev'' \<longleftrightarrow> vars ''VERGEN_GIT_DIRTY'' = Some ''true'' \<or>
       (\<exists>tag. vars ''VERGEN_GIT_DESCRIBE'' = Some (tag @ ''-g'' @ take 7 sha))"
proof -
  from build_main_Inr [OF assms] obtain sha author dirty describe profile built features message triple where
    got: "vars ''VERGEN_GIT_SHA'' = Some sha" "8 \<le> length sha"
      "vars ''VERGEN_GIT_DIRTY'' = Some dirty" "vars ''VERGEN_GIT_DESCRIBE'' = Some describe"
      "out = version_vars pkg sha author (version_suffix (dirty = ''true'') describe (take 7 sha)) profile built features message triple"
    by blast
  show thesis
  proof (rule that [OF got(1,2)])
    show "version_suffix (dirty = ''true'') describe (take 7 sha) = ''-dev'' \<longleftrightarrow> vars ''VERGEN_GIT_DIRTY'' = Some ''true'' \<or>
       (\<exists>tag. vars ''VERGEN_GIT_DESCRIBE'' = Some (tag @ ''-g'' @ take 7 sha))"
      unfolding version_suffix_iff got(3,4) option.inject ..
  qed (unfold got(5), (rule version_vars_lookup version_suffix_iff(2))+)
qed

text \<open>A description of a commit after a tag with eight digits, as in the script's comment, counts as being on the tag.\<close>

lemma eight_digit_description_on_tag:
  "version_suffix False ''v0.2.0-beta.3-82-g1939939b'' (take 7 ''1939939b'') = []"
  "version_suffix False ''v0.2.0-beta.3-82-g1939939'' (take 7 ''1939939b'') = ''-dev''"
  by (simp_all add: version_suffix_def ends_with_def)

end
