(* ===== verification/Quote_Server.thy ===== *)
theory Quote_Server
  imports Bootstrap
begin

text \<open>
  The quote provider as a program (\<^verbatim>\<open>crates/tdx-quote-provider\<close>): its arguments and start (\<^verbatim>\<open>main.rs\<close>), the routes and
  the serving of requests until a signal (\<^verbatim>\<open>server.rs\<close>), and what the builder's client sees of it. Matching a path with a
  route, the sockets and the coding of JSON are arguments.
\<close>

section \<open>Model: socket addresses\<close>

text \<open>
  Parsing an address of the form \<^verbatim>\<open>a.b.c.d:port\<close> with the standard library: a part of the address has at most three
  digits and no leading zero. The bracketed form of version 6 is recognised by an argument.
\<close>

definition parse_octet :: "string \<Rightarrow> nat option" where
  "parse_octet str =
     (if str \<noteq> [] \<and> list_all is_digit str \<and> length str \<le> 3 \<and> (length str = 1 \<or> hd str \<noteq> CHR ''0'') \<and> digits_value str < 256
      then Some (digits_value str) else None)"

definition parse_port :: "string \<Rightarrow> u16 option" where
  "parse_port str = (if str \<noteq> [] \<and> list_all is_digit str \<and> digits_value str < 65536 then Some (of_nat (digits_value str)) else None)"

datatype socket_addr = V4 "nat list" u16 | V6 string

definition parse_v4 :: "string \<Rightarrow> socket_addr option" where
  "parse_v4 str =
     (case split_char CHR '':'' str of
        [ip, port] \<Rightarrow>
          (let octets = map parse_octet (split_char CHR ''.'' ip)
           in if length octets = 4 \<and> None \<notin> set octets then map_option (V4 (map the octets)) (parse_port port) else None)
      | _ \<Rightarrow> None)"

definition parse_socket_addr :: "(string \<Rightarrow> bool) \<Rightarrow> string \<Rightarrow> socket_addr option" where
  "parse_socket_addr is_v6 str = (case parse_v4 str of Some a \<Rightarrow> Some a | None \<Rightarrow> if is_v6 str then Some (V6 str) else None)"

section \<open>Model: routes\<close>

text \<open>A request for a path that no route matches has no handler. The argument matches a route with a path and yields the captured part.\<close>

datatype route = Healthz | Attest

definition routes :: "(string \<times> route) list" where
  "routes = [(''/healthz'', Healthz), (''/attest/{appdata}'', Attest)]"

definition run_route :: "hex_ops \<Rightarrow> quote_source \<Rightarrow> quote_provider \<Rightarrow> route \<Rightarrow> string \<Rightarrow> nat \<times> reply_body" where
  "run_route hx src prov r captured = (case r of Healthz \<Rightarrow> healthz_handler | Attest \<Rightarrow> attest_handler hx src prov captured)"

fun serve_get ::
  "(string \<Rightarrow> string \<Rightarrow> string option) \<Rightarrow> hex_ops \<Rightarrow> quote_source \<Rightarrow> quote_provider \<Rightarrow> (string \<times> route) list \<Rightarrow> string \<Rightarrow> (nat \<times> reply_body) option" where
  "serve_get matched hx src prov [] path = None"
| "serve_get matched hx src prov ((pattern, r) # rs) path =
     (case matched pattern path of
        Some captured \<Rightarrow> Some (run_route hx src prov r captured)
      | None \<Rightarrow> serve_get matched hx src prov rs path)"

section \<open>Model: the server\<close>

datatype signal = CtrlC | Sigterm | Sigint

datatype server_event = GetRequest string | Signal signal | ServeFailed string

datatype quote_error = QuotePanic string | BindFailed string | StartServerFailed string

record quote_host =
  qh_v6 :: "string \<Rightarrow> bool"
  qh_bind :: "socket_addr \<Rightarrow> string + unit"
  qh_local_addr :: "socket_addr \<Rightarrow> string + string"
  qh_install_metrics :: "socket_addr \<Rightarrow> string + unit"
  qh_matched :: "string \<Rightarrow> string \<Rightarrow> string option"
  qh_hex :: hex_ops
  qh_source :: quote_source

text \<open>The signals that end the server; the requests before the first of them are answered.\<close>

definition shutdown_signal :: "signal \<Rightarrow> bool" where
  "shutdown_signal s = (case s of CtrlC \<Rightarrow> True | Sigterm \<Rightarrow> True | Sigint \<Rightarrow> True)"

primrec serve_requests ::
  "quote_host \<Rightarrow> quote_provider \<Rightarrow> server_event list \<Rightarrow> (nat \<times> reply_body) option list \<times> (quote_error + unit) option" where
  "serve_requests qh prov [] = ([], None)"
| "serve_requests qh prov (e # es) =
     (case e of
        GetRequest path \<Rightarrow>
          (let (replies, res) = serve_requests qh prov es
           in (serve_get (qh_matched qh) (qh_hex qh) (qh_source qh) prov routes path # replies, res))
      | Signal s \<Rightarrow> if shutdown_signal s then ([], Some (Inr ())) else serve_requests qh prov es
      | ServeFailed msg \<Rightarrow> ([], Some (Inl (StartServerFailed (''failed to start server: '' @ msg)))))"

text \<open>The replies, and the result if the server has ended.\<close>

definition listen ::
  "quote_host \<Rightarrow> socket_addr \<Rightarrow> quote_provider \<Rightarrow> server_event list \<Rightarrow> (nat \<times> reply_body) option list \<times> (quote_error + unit) option" where
  "listen qh addr prov es =
     (case and_then (qh_bind qh addr) (\<lambda>_. qh_local_addr qh addr) of
        Inl msg \<Rightarrow> ([], Some (Inl (BindFailed msg)))
      | Inr _ \<Rightarrow> serve_requests qh prov es)"

section \<open>Model: the program\<close>

record quote_args =
  qa_service_host :: string
  qa_service_port :: u16
  qa_metrics :: bool
  qa_metrics_host :: string
  qa_metrics_port :: u16
  qa_mock :: bool
  qa_mock_attestation_path :: string

definition quote_args_default :: quote_args where
  "quote_args_default = \<lparr> qa_service_host = ''127.0.0.1'', qa_service_port = 8181, qa_metrics = False, qa_metrics_host = ''127.0.0.1'',
     qa_metrics_port = 9090, qa_mock = False, qa_mock_attestation_path = [] \<rparr>"

definition host_port :: "string \<Rightarrow> u16 \<Rightarrow> string" where
  "host_port host port = host @ '':'' @ decimal (unat port)"

definition start_metrics :: "quote_host \<Rightarrow> quote_args \<Rightarrow> quote_error + unit" where
  "start_metrics qh args =
     (if qa_metrics args
      then and_then (ok_or (QuotePanic ''invalid metrics address'')
                       (parse_socket_addr (qh_v6 qh) (host_port (qa_metrics_host args) (qa_metrics_port args)))) (\<lambda>addr.
             map_err (\<lambda>_. QuotePanic ''failed to setup Prometheus endpoint'') (qh_install_metrics qh addr))
      else Inr ())"

definition quote_main :: "quote_host \<Rightarrow> quote_args \<Rightarrow> server_event list \<Rightarrow> (nat \<times> reply_body) option list \<times> (quote_error + unit) option" where
  "quote_main qh args es =
     (case and_then (start_metrics qh args) (\<lambda>_.
             ok_or (QuotePanic ''unwrap'') (parse_socket_addr (qh_v6 qh) (host_port (qa_service_host args) (qa_service_port args)))) of
        Inl e \<Rightarrow> ([], Some (Inl e))
      | Inr addr \<Rightarrow>
          listen qh addr (server_new \<lparr> sc_listen_addr = host_port (qa_service_host args) (qa_service_port args),
            sc_use_mock = qa_mock args, sc_mock_attestation_path = qa_mock_attestation_path args \<rparr>) es)"

section \<open>Starting\<close>

lemma host_port_v4:
  assumes "CHR '':'' \<notin> set host" "split_char CHR ''.'' host = parts" "map parse_octet parts = map Some octets" "length octets = 4"
  shows "parse_v4 (host_port host port) = Some (V4 octets port)"
proof -
  have colon: "CHR '':'' \<notin> set (decimal (unat port))" by (rule decimal_no_char) (simp add: is_digit_def)
  have "digits_value (decimal (unat port)) < 65536" using unat_le_max [of port] by (simp add: decimal_value)
  then have "parse_port (decimal (unat port)) = Some port"
    using decimal_digits [of "unat port"] by (simp add: parse_port_def decimal_value)
  moreover have "split_char CHR '':'' (host_port host port) = [host, decimal (unat port)]"
    using colon split_char_append [OF assms(1)] split_where_none [of "decimal (unat port)" "\<lambda>c. c = CHR '':''"]
    by (auto simp: host_port_def split_char_def)
  moreover have "length parts = 4" using assms(3,4) by (metis length_map)
  ultimately show ?thesis using assms by (simp add: parse_v4_def comp_def)
qed


text \<open>The defaults of the arguments give the default configuration of the server; it listens there and offers quotes of the device.\<close>

lemma default_port: "decimal (unat (8181 :: u16)) = ''8181''"
  by (simp add: decimal.simps [of 8181] decimal.simps [of 818] decimal.simps [of 81] decimal.simps [of 8] char_of_def bit_0)

lemma default_args_listen:
  "host_port (qa_service_host quote_args_default) (qa_service_port quote_args_default) = sc_listen_addr server_config_default"
  "quote_main qh quote_args_default es = listen qh (V4 [127, 0, 0, 1] 8181) (server_new server_config_default) es"
proof -
  show eq: "host_port (qa_service_host quote_args_default) (qa_service_port quote_args_default) = sc_listen_addr server_config_default"
    unfolding host_port_def quote_args_default_def server_config_default_def quote_args.simps server_config.simps default_port by simp
  have "parse_v4 (host_port ''127.0.0.1'' 8181) = Some (V4 [127, 0, 0, 1] 8181)"
    by (rule host_port_v4 [where parts = "[''127'', ''0'', ''0'', ''1'']"])
      (simp_all add: split_char_def parse_octet_def is_digit_def digits_value_def)
  then have "parse_v4 (sc_listen_addr server_config_default) = Some (V4 [127, 0, 0, 1] 8181)"
    by (simp flip: eq) (simp add: quote_args_default_def)
  then have "parse_socket_addr v6 (sc_listen_addr server_config_default) = Some (V4 [127, 0, 0, 1] 8181)" for v6
    by (simp add: parse_socket_addr_def)
  then show "quote_main qh quote_args_default es = listen qh (V4 [127, 0, 0, 1] 8181) (server_new server_config_default) es"
    unfolding quote_main_def eq by (simp add: start_metrics_def quote_args_default_def server_new_def server_config_default_def)
qed

text \<open>A host that is a name and not an address panics.\<close>

lemma host_name_panics:
  assumes "\<not> qh_v6 qh ''localhost:8181''"
  shows "quote_main qh (quote_args_default \<lparr> qa_service_host := ''localhost'' \<rparr>) es = ([], Some (Inl (QuotePanic ''unwrap'')))"
proof -
  let ?args = "quote_args_default \<lparr> qa_service_host := ''localhost'' \<rparr>"
  have "parse_v4 ''localhost:8181'' = None"
    by (simp add: parse_v4_def split_char_def)
  moreover have "host_port (qa_service_host ?args) (qa_service_port ?args) = ''localhost:8181''"
    unfolding host_port_def quote_args_default_def quote_args.simps default_port by simp
  moreover have "start_metrics qh ?args = Inr ()" by (simp add: start_metrics_def quote_args_default_def)
  ultimately show ?thesis using assms by (simp add: quote_main_def parse_socket_addr_def)
qed

text \<open>Every request before the first signal or failure is answered on its own, in order.\<close>

lemma serve_replies:
  "fst (serve_requests qh prov (map GetRequest paths @ rest)) =
     map (serve_get (qh_matched qh) (qh_hex qh) (qh_source qh) prov routes) paths @ fst (serve_requests qh prov rest)"
  "snd (serve_requests qh prov (map GetRequest paths @ rest)) = snd (serve_requests qh prov rest)"
  by (induction paths) (simp_all add: case_prod_unfold Let_def)

lemma serve_until_signal:
  "serve_requests qh prov (map GetRequest paths @ Signal s # rest) =
     (map (serve_get (qh_matched qh) (qh_hex qh) (qh_source qh) prov routes) paths, Some (Inr ()))"
  using serve_replies [of qh prov paths "Signal s # rest"] by (simp add: prod_eq_iff shutdown_signal_def split: signal.split)

section \<open>The client and the server\<close>

text \<open>
  The documented matching of routes, on paths that need no decoding; hexadecimal text has two characters a byte, none of
  which has a meaning in a path.
\<close>

definition route_law :: "(string \<Rightarrow> string \<Rightarrow> string option) \<Rightarrow> bool" where
  "route_law matched \<longleftrightarrow>
     matched ''/healthz'' ''/healthz'' = Some [] \<and>
     (\<forall>part. matched ''/healthz'' (''/attest/'' @ part) = None) \<and>
     (\<forall>part. part \<noteq> [] \<and> list_all (\<lambda>c. c \<notin> {CHR ''/'', CHR ''%'', CHR ''?''}) part \<longrightarrow>
        matched ''/attest/{appdata}'' (''/attest/'' @ part) = Some part)"

definition hex_path_law :: "hex_ops \<Rightarrow> bool" where
  "hex_path_law hx \<longleftrightarrow>
     (\<forall>bs. length (hx_encode hx bs) = 2 * length bs \<and> list_all (\<lambda>c. c \<notin> {CHR ''/'', CHR ''%'', CHR ''?''}) (hx_encode hx bs))"

definition body_bytes :: "(string \<Rightarrow> bytes) \<Rightarrow> reply_body \<Rightarrow> bytes" where
  "body_bytes json b = (case b of EmptyBody \<Rightarrow> [] | Message msg \<Rightarrow> json msg | OctetStream bs \<Rightarrow> bs)"

text \<open>A client function that carries requests to a server at a base address; a path without handler is not found.\<close>

definition reaches :: "(string \<Rightarrow> string + http_reply) \<Rightarrow> string \<Rightarrow> (string \<Rightarrow> bytes) \<Rightarrow> quote_host \<Rightarrow> quote_provider \<Rightarrow> bool" where
  "reaches http base json qh prov \<longleftrightarrow>
     (\<forall>path. http (base @ path) =
        (case serve_get (qh_matched qh) (qh_hex qh) (qh_source qh) prov routes path of
           None \<Rightarrow> Inr \<lparr> rp_status = 404, rp_body = [] \<rparr>
         | Some (status, body) \<Rightarrow> Inr \<lparr> rp_status = status, rp_body = body_bytes json body \<rparr>))"

lemma serve_attest:
  assumes "route_law (qh_matched qh)" "hex_path_law (qh_hex qh)" "rd \<noteq> []"
  shows "serve_get (qh_matched qh) (qh_hex qh) (qh_source qh) prov routes (''/attest/'' @ hx_encode (qh_hex qh) rd) =
     Some (attest_handler (qh_hex qh) (qh_source qh) prov (hx_encode (qh_hex qh) rd))"
proof -
  let ?x = "hx_encode (qh_hex qh) rd"
  have "?x \<noteq> []" using assms(2,3) unfolding hex_path_law_def by (metis length_0_conv mult_eq_0_iff zero_neq_numeral)
  then have "qh_matched qh ''/attest/{appdata}'' (''/attest/'' @ ?x) = Some ?x" "qh_matched qh ''/healthz'' (''/attest/'' @ ?x) = None"
    using assms(1,2) unfolding route_law_def hex_path_law_def by blast+
  then show ?thesis by (simp add: routes_def run_route_def)
qed

text \<open>The contract that the start of the flashtestations relies on holds of the running service.\<close>

lemma service_served_by:
  assumes "reaches http base json qh prov" "route_law (qh_matched qh)" "hex_path_law (qh_hex qh)"
  shows "served_by (qh_hex qh) (qh_source qh) prov http (base @ ''/attest'')"
proof -
  have "http ((base @ ''/attest'') @ ''/'' @ hx_encode (qh_hex qh) rd) =
      Inr \<lparr> rp_status = fst (attest_handler (qh_hex qh) (qh_source qh) prov (hx_encode (qh_hex qh) rd)),
        rp_body = body_bytes json (snd (attest_handler (qh_hex qh) (qh_source qh) prov (hx_encode (qh_hex qh) rd))) \<rparr>"
    if "length rd = 64" for rd
  proof -
    have "rd \<noteq> []" using that by auto
    from serve_attest [OF assms(2,3) this, of prov] show ?thesis
      using assms(1) by (simp add: reaches_def split: prod.split)
  qed
  then show ?thesis by (auto simp: served_by_def Let_def body_bytes_def)
qed

text \<open>What the client gets for report data of any length.\<close>

lemma client_attestation:
  assumes "reaches http base json qh prov" "route_law (qh_matched qh)" "hex_path_law (qh_hex qh)" "hex_law (qh_hex qh)" "rd \<noteq> []"
  shows "get_attestation (qh_hex qh) http (base @ ''/attest'') rd =
     (if length rd \<noteq> 64 then Inl (ErrorStatus 400)
      else (case provider_get_attestation (qh_source qh) prov rd of Inl _ \<Rightarrow> Inl (ErrorStatus 500) | Inr quote \<Rightarrow> Inr quote))"
proof -
  have dec: "hx_decode (qh_hex qh) (hx_encode (qh_hex qh) rd) = Inr rd" using assms(4) by (simp add: hex_law_def)
  have "http (base @ ''/attest/'' @ hx_encode (qh_hex qh) rd) =
      (case attest_handler (qh_hex qh) (qh_source qh) prov (hx_encode (qh_hex qh) rd) of
         (status, body) \<Rightarrow> Inr \<lparr> rp_status = status, rp_body = body_bytes json body \<rparr>)"
    using assms(1) serve_attest [OF assms(2,3,5), of prov] by (simp add: reaches_def)
  then show ?thesis
    by (simp add: get_attestation_def attest_handler_def dec body_bytes_def split: sum.split)
qed

end
