(* ===== verification/Spec2Isabelle.thy ===== *)
theory Spec2Isabelle
  imports Service Agreement Task_Metrics Quote_Server
begin

text \<open>
  A verification of \<^bold>\<open>op-rbuilder\<close>, a block builder for OP-stack chains (\<^verbatim>\<open>src/crates/op-rbuilder\<close>), with its network
  library (\<^verbatim>\<open>src/crates/p2p\<close>) and its quote provider (\<^verbatim>\<open>src/crates/tdx-quote-provider\<close>). File names below are relative to the
  \<^verbatim>\<open>src\<close> directory of the builder unless they begin with \<^verbatim>\<open>crates\<close>.

  \<^bold>\<open>The program.\<close> The node asks for a payload with attributes; a job generator starts a build. The flashblocks builder
  first makes a fallback block of the sequencer's transactions, then, at each signal of a timer, extends it by a flashblock with
  transactions of the pool, of an external sidecar and of the builder itself, publishes the difference on a websocket, and hands
  the payload to a handler that announces it to the node and to peers. A peer executes a received payload before it announces it.
  The standard builder makes the block in one go. Bundles reach the pool through an RPC method; a rate limiter charges senders
  for gas. A builder in a trusted environment makes a key at its start, has it bound by a quote that it fetches from the quote
  provider, and registers it with transactions of its own.

  \<^bold>\<open>How code is represented.\<close> Machine integers are words of their width, with saturating, checked and wrapping operations
  as in the source; durations are natural numbers of nanoseconds. A fallible function returns a sum type, \<^const>\<open>Inl\<close> being
  the error; panics are error values. Mutable state is passed along in records. A loop over a collection is
  \<^const>\<open>for_in\<close>, a loop over an iterator \<^const>\<open>while_next\<close>, a partial function whose value \<^const>\<open>None\<close> is
  non-termination. Code outside the repository (EVM, database, node client, pool, HTTP, ABI, curve arithmetic, hashing) is an
  argument, a record of functions; what a theorem uses of it is a named hypothesis, such as \<open>evm_gas_law\<close>, \<open>receipt_law\<close>,
  \<open>restore_law\<close>, \<open>nonce_law\<close> or \<open>cache_law\<close>. What the environment does while a build runs (signals, cancellation, replies) is an
  input; tasks that run at the same time are the interleavings of their steps, as lists of events. Logging, tracing and
  measured times are left out.

  \<^bold>\<open>Theories.\<close>
  \<^item> \<open>Prelude\<close>: words, results, loops and their rules (locales \<open>loop_body\<close>, \<open>drawing_loop\<close>).
  \<^item> \<open>Evm_Env\<close>: transactions, execution results, receipts and the record of EVM functions.
  \<^item> \<open>Execution_Info\<close> (\<^verbatim>\<open>primitives/reth/execution.rs\<close>): the record of executed transactions and the capacity test,
    characterised exactly.
  \<^item> \<open>Gas_Limiter\<close> (\<^verbatim>\<open>gas_limiter/\<close>): token buckets; what an address is granted over any history is bounded.
  \<^item> \<open>Pool_Tx\<close> (\<^verbatim>\<open>tx.rs\<close>), \<open>Best_Txs\<close> (\<^verbatim>\<open>builders/flashblocks/best_txs.rs\<close>): pool transactions with bundle
    options, and the iterator over them; what it yields is fresh and in range, and it returns on a finite pool (locale
    \<open>pool_supply\<close>).
  \<^item> \<open>Sidecar\<close> (\<^verbatim>\<open>sidecar/\<close>): polling with retries, which ends, and the state overrides sent along.
  \<^item> \<open>Context\<close>, \<open>Executors\<close> (\<^verbatim>\<open>builders/context.rs\<close>): the context of a build and the executors of sequencer, pool
    and sidecar transactions.
  \<^item> \<open>Inclusion\<close>, \<open>Execution_Props\<close>: the relation \<open>included\<close>, in-order execution under a guard, which every executor
    refines; bounds, filters, cancellation, rate limiting, termination; which of the sequencer's transactions are executed, and
    which failure of a sidecar transaction is reported.
  \<^item> \<open>Bundle\<close> (\<^verbatim>\<open>primitives/bundle.rs\<close>, \<^verbatim>\<open>revert_protection.rs\<close>, \<^verbatim>\<open>monitor_tx_pool.rs\<close>): validation
    of bundles, sending them with the first problem reported, and reporting discarded ones from a cache of bounded capacity.
  \<^item> \<open>Tx_Signer\<close> (\<^verbatim>\<open>tx_signer.rs\<close>), \<open>Builder_Tx\<close> (\<^verbatim>\<open>builders/builder_tx.rs\<close>): signing, simulating and
    adding builder transactions.
  \<^item> \<open>Flashtestations\<close> (\<^verbatim>\<open>flashtestations/builder_tx.rs\<close>), \<open>Builder_Impl\<close> (\<^verbatim>\<open>builders/standard/builder_tx.rs\<close>,
    \<^verbatim>\<open>builders/flashblocks/builder_tx.rs\<close>), \<open>Builder_Nonces\<close>: the implementations of the builder transactions,
    and the interface \<open>builder_transactions\<close> they provide: consecutive nonces, inclusion up to the first failure.
  \<^item> \<open>Fb_Timing\<close> (\<^verbatim>\<open>builders/mod.rs\<close>, \<^verbatim>\<open>builders/flashblocks/config.rs\<close>, timing in
    \<^verbatim>\<open>builders/flashblocks/payload.rs\<close>): configuration and the division of the slot into flashblocks.
  \<^item> \<open>Fb_Block\<close>, \<open>Fb_Payload\<close> (\<^verbatim>\<open>builders/flashblocks/payload.rs\<close>): sealing a block, and the build. Functions of several
    hundred lines are divided into the phases their comments name: \<^verbatim>\<open>build_payload\<close> is \<open>build_payload\<close> with
    \<open>build_fallback\<close>, \<open>derive_timing\<close>, \<open>first_targets\<close>, \<open>build_loop\<close> and the timer; \<^verbatim>\<open>build_next_flashblock\<close> is
    \<open>build_next_flashblock\<close> with \<open>reserved_limits\<close>, \<open>fb_execute_pool\<close>, \<open>fb_execute_sidecar\<close>, \<open>fb_finish\<close>,
    \<open>fb_emit\<close> and \<open>next_targets\<close>.
  \<^item> \<open>Fb_Invariant\<close>, \<open>Fb_Gas\<close>: the invariant of the build loop, its gas and data targets, the number of flashblocks, the
    timer's tokens, termination.
  \<^item> \<open>Standard\<close> (\<^verbatim>\<open>builders/standard/payload.rs\<close>): the standard builder, which seals its block with code of its own, and its
    agreement with the flashblocks one.
  \<^item> \<open>Generator\<close> (\<^verbatim>\<open>builders/generator.rs\<close>): jobs as a state machine, at most one of which runs; a job, its build and the
    future it is resolved to share a cell in a store of cells.
  \<^item> \<open>Sync\<close> (\<^verbatim>\<open>builders/flashblocks/payload_handler.rs\<close>, \<^verbatim>\<open>ctx.rs\<close>, \<^verbatim>\<open>p2p.rs\<close>): execution of received
    blocks, and the handler with its concurrent executions, whose announcements are exactly those of its history.
  \<^item> \<open>Agreement\<close>: builder and peer together: a peer on the same chain executes every payload that a flashblocks build has
    handed over to the same block and announces it. It goes through \<open>runs_to\<close>, execution as a relation that both sides refine.
  \<^item> \<open>P2p\<close>, \<open>P2p_Props\<close> (\<^verbatim>\<open>crates/p2p/src\<close>): the node builder, the node's event loop, its outgoing streams and the readers
    of incoming ones, one handler per protocol; a started node runs until it is cancelled and stays well-formed, and messages
    arrive in order.
  \<^item> \<open>Ws_Publisher\<close> (\<^verbatim>\<open>builders/flashblocks/wspub.rs\<close>): the publisher, its listener and its subscribers' tasks as a state
    machine; publishing does not fail, when the subscriber limit holds and when it does not, how the listener stalls.
  \<^item> \<open>Strings\<close>: the standard library's string functions that the start-up code uses.
  \<^item> \<open>Attestation\<close> (\<^verbatim>\<open>flashtestations/attestation.rs\<close>, the handlers of the quote provider), \<open>Bootstrap\<close>
    (\<^verbatim>\<open>flashtestations/service.rs\<close>, \<^verbatim>\<open>flashtestations/tx_manager.rs\<close>), \<open>Quote_Server\<close> (\<^verbatim>\<open>main.rs\<close> and
    \<^verbatim>\<open>server.rs\<close> in \<^verbatim>\<open>crates/tdx-quote-provider/src\<close>): quotes and the workload ID, the key and its registration, and the
    service; the quote of a start binds the registered key, and client and service agree on it.
  \<^item> \<open>Playground\<close> (\<^verbatim>\<open>args/playground.rs\<close>): defaults read from a directory, which fill in exactly what was not given.
  \<^item> \<open>Engine_Api\<close> (\<^verbatim>\<open>primitives/reth/engine_api_builder.rs\<close>): the methods, their names and their forwarding.
  \<^item> \<open>Service\<close> (\<^verbatim>\<open>builders/flashblocks/service.rs\<close>, \<^verbatim>\<open>builders/standard/service.rs\<close>, \<^verbatim>\<open>launcher.rs\<close>): the wiring; a
    start does not panic, what one service hands over reaches the payload handler of a connected one and is executed there, and what
    the launcher switches on.
  \<^item> \<open>Metrics\<close> (\<^verbatim>\<open>metrics.rs\<close>, metrics in \<^verbatim>\<open>builders/flashblocks/payload.rs\<close>), \<open>Task_Metrics\<close> (\<^verbatim>\<open>tokio_metrics.rs\<close>,
    \<^verbatim>\<open>build.rs\<close>): what a build records of its flashblocks and of the pool loop, the collector of task metrics, the version.
  \<^item> \<open>Samples\<close>, \<open>Fb_Samples\<close>: small concrete environments that meet the hypotheses and on which the properties are
    instantiated.
  \<^item> this theory: properties of whole flashblocks builds.

  \<^bold>\<open>Bounds and fuel.\<close> No definition takes fuel. The build loop runs over the list of signals received, the loops of the
  network, the publisher and the servers over the list of events; the pool loops are partial functions, shown to return when the
  pool's iterator is finite; the sidecar's retry loop is a partial function shown to return when the retry limit is below the
  largest 32-bit number; the search for a free port is one, shown to return when a free port is drawn at some time.

  \<^bold>\<open>Not modelled.\<close> The parsing of command line arguments, which a library does from declarations (their defaults are
  modelled); tracing and telemetry (\<^verbatim>\<open>primitives/telemetry.rs\<close>), log output and measured times; trait bounds and methods that
  only forward to a wrapped value; methods that are never called and unimplemented in the source; the registration of tasks with
  the node's executor; the main function of the test utility (\<^verbatim>\<open>bin/tester\<close>); the mock transactions
  (\<^verbatim>\<open>mock_tx.rs\<close>) and the test framework, which are no part of the running program. In addresses of sockets the form of
  version 6 is an argument.
\<close>

section \<open>Flashblocks builds\<close>

text \<open>C1: After a build from the pool that ended without error, the stream of flashblocks and the payload agree: the
  transactions of the published flashblocks, one after the other, are exactly the transactions of the block that
  \<^verbatim>\<open>getPayload\<close> returns; the last flashblock announces its hash; the flashblocks are numbered from zero without gaps; and
  one payload was handed over per flashblock. Simulating builder transactions is taken to leave the record
  unchanged, and restoring the database's transitions to undo merging them.\<close>

theorem flashblocks_add_up_to_payload:
  assumes "build_payload b job limiter = Some (Inr (), out)" and "\<not> at_no_tx_pool (jb_attributes job)"
    and "simulation_pure (fb_builder_tx b)" and "restore_law (fb_block_ops b)"
  shows "\<exists>p. fo_best_payload out = Some p \<and>
    concat (map (fbd_transactions \<circ> fb_diff) (fo_published out)) = map encoded_2718 (sb_transactions (bp_block p)) \<and>
    fbd_block_hash (fb_diff (last (fo_published out))) = sb_hash (bp_block p) \<and>
    map fb_index (fo_published out) = map of_nat [0..<length (fo_published out)] \<and>
    length (fo_sent out) = length (fo_published out)"
  using assms(1)
proof (cases rule: build_payload_cases)
  case (flashblocks ctx s out1 n off dl x0 ctx' s')
  from flashblocks_start [OF flashblocks(1,2,3,5,6,7) assms(3,4) nothing_out_start]
  obtain db0 where "fb_inv (evm ctx') db0 (extra_ctx ctx') \<lparr> fs_seq = s, fs_best = best_new (jb_pool job), fs_out = out1 \<rparr>"
    by blast
  from build_loop_stream [OF flashblocks(8) assms(3,4) this] show ?thesis
    using flashblocks(9) by (auto simp: stream_ok_def)
qed (use assms(2) in auto)

theorem flashblocks_add_up_to_payload_witness:
  "\<exists>out p. build_payload demo_builder (demo_job False [demo_signal [demo_pool_tx 2 0 None]]) None = Some (Inr (), out) \<and>
     length (fo_published out) = 2 \<and> fo_best_payload out = Some p \<and>
     concat (map (fbd_transactions \<circ> fb_diff) (fo_published out)) = map encoded_2718 (sb_transactions (bp_block p))"
proof -
  obtain out where run: "build_payload demo_builder (demo_job False [demo_signal [demo_pool_tx 2 0 None]]) None = Some (Inr (), out)"
    and idx: "map fb_index (fo_published out) = [0, 1]"
    using demo_build by (elim exE conjE) (rule that)
  have "length (fo_published out) = 2" using arg_cong [OF idx, of length] by simp
  then show ?thesis
    using flashblocks_add_up_to_payload [OF run _ demo_builder_laws(1,3)] run by (auto simp: demo_job_def demo_attrs_def)
qed

text \<open>C2: However a build ends, with an error, a cancellation or success, every payload it handed over is the
  result of executing the transactions of its block, in order, on the state of the parent after the pre-execution
  changes: each of them is accepted there, the senders and receipts are theirs, and the gas of the header is
  the sum of what they used. The best payload is the last one handed over.\<close>

theorem payloads_are_executable:
  assumes "build_payload b job limiter = Some (r, out)"
    and "simulation_pure (fb_builder_tx b)" and "restore_law (fb_block_ops b)"
  shows "fo_best_payload out = (if fo_sent out = [] then None else Some (last (fo_sent out))) \<and>
    (\<forall>p \<in> set (fo_sent out). \<exists>db0 es db. start_db b (jb_attributes job) (jb_parent job) = Some db0 \<and>
       replay (fb_evm b) db0 (map fst es) = Some (db, map snd es) \<and>
       sb_transactions (bp_block p) = map (inner_tx \<circ> fst) es \<and> bp_senders p = map (signer \<circ> fst) es \<and>
       hd_gas_used (sb_header (bp_block p)) = (\<Sum>e \<leftarrow> es. gas_used (snd e)) \<and> length (bp_receipts p) = length es)"
proof -
  from assms(1) have "sent_ok b (jb_attributes job) (jb_parent job) out"
  proof (cases rule: build_payload_cases)
    case (no_context e)
    then show ?thesis by (simp add: sent_ok_def)
  next
    case (fallback ctx r0)
    show ?thesis by (rule fallback_sent [OF fallback(2,1) nothing_out_start assms(2,3)])
  next
    case (flashblocks ctx s out1 n off dl x0 ctx' s')
    from flashblocks_start [OF flashblocks(1,2,3,5,6,7) assms(2,3) nothing_out_start]
    obtain db0 where db0: "start_db b (jb_attributes job) (jb_parent job) = Some db0" "evm ctx' = fb_evm b"
        "sent_ok b (jb_attributes job) (jb_parent job) out1"
      and inv: "fb_inv (evm ctx') db0 (extra_ctx ctx') \<lparr> fs_seq = s, fs_best = best_new (jb_pool job), fs_out = out1 \<rparr>"
      by blast
    show ?thesis
      using build_loop_sent [OF flashblocks(8) assms(2,3) inv db0(2,1)] db0(3) flashblocks(9) by simp
  qed
  then show ?thesis unfolding sent_ok_def executable_payload_def by blast
qed

theorem payloads_are_executable_witness:
  "\<exists>r out p (es :: (recovered \<times> exec_result) list). build_payload demo_builder (demo_job False [demo_signal [demo_pool_tx 2 0 None]]) None = Some (r, out) \<and>
     p \<in> set (fo_sent out) \<and> sb_transactions (bp_block p) = map (inner_tx \<circ> fst) es"
proof -
  obtain out where run: "build_payload demo_builder (demo_job False [demo_signal [demo_pool_tx 2 0 None]]) None = Some (Inr (), out)"
    and "\<exists>p. fo_best_payload out = Some p \<and> sb_transactions (bp_block p) = [demo_tx 1 0, demo_tx 2 0]"
    using demo_build by (elim exE conjE) (rule that, blast+)
  then have mem: "last (fo_sent out) \<in> set (fo_sent out)"
    using payloads_are_executable [OF run demo_builder_laws(1,3)] by (auto split: if_splits)
  obtain es :: "(recovered \<times> exec_result) list" where "sb_transactions (bp_block (last (fo_sent out))) = map (inner_tx \<circ> fst) es"
    using bspec [OF conjunct2 [OF payloads_are_executable [OF run demo_builder_laws(1,3)]] mem] by blast
  then show ?thesis using run mem by (intro exI conjI)
qed

text \<open>A build publishes at most one flashblock more than the timing derivation asks for, the first being the fallback
  block.\<close>

theorem flashblock_count_bounded:
  assumes "build_payload b job limiter = Some (Inr (), out)" and "\<not> at_no_tx_pool (jb_attributes job)"
    and "derive_timing (fb_config_of b) (jb_now job) (at_timestamp (jb_attributes job)) = Inr (n, offset, deadline)"
    and "unat n + 1 < 2 ^ 64" and "simulation_pure (fb_builder_tx b)" and "restore_law (fb_block_ops b)"
  shows "length (fo_published out) \<le> unat n + 1"
  using assms(1)
proof (cases rule: build_payload_cases)
  case (flashblocks ctx s out1 n' off dl x0 ctx' s')
  have n: "n' = n" using flashblocks(4) assms(3) by simp
  from flashblocks_start [OF flashblocks(1,2,3,5,6,7) assms(5,6) nothing_out_start]
  obtain db0 where inv: "fb_inv (evm ctx') db0 (extra_ctx ctx') \<lparr> fs_seq = s, fs_best = best_new (jb_pool job), fs_out = out1 \<rparr>"
    and len: "length (fo_published out1) = 1"
    by blast
  have "flashblock_ctx x0 (extra_ctx ctx')" unfolding flashblocks(7) by (rule flashblock_ctx.first)
  from build_loop_count [OF flashblocks(8) assms(5,6) inv this first_targets_sel(2) [OF flashblocks(5)]] show ?thesis
    using n len assms(4) flashblocks(9) by simp
qed (use assms(2) in auto)

theorem flashblock_count_bounded_witness:
  "\<exists>out. build_payload demo_builder (demo_job False [demo_signal [demo_pool_tx 2 0 None]]) None = Some (Inr (), out) \<and>
     length (fo_published out) \<le> 9"
proof -
  obtain out where run: "build_payload demo_builder (demo_job False [demo_signal [demo_pool_tx 2 0 None]]) None = Some (Inr (), out)"
    using demo_build by blast
  have t: "derive_timing (fb_config_of demo_builder) now ts = Inr (8, 250000000, 2000000000)" for now ts
    by (simp add: demo_builder_def demo_cfg_sel)
  have "\<not> at_no_tx_pool (jb_attributes (demo_job False sgs))" for sgs by (simp add: demo_job_def)
  from flashblock_count_bounded [OF run this t _ demo_builder_laws(1,3)] show ?thesis using run by simp
qed

text \<open>C4: A build without builder transactions spends the gas of the block evenly: with \<open>n\<close> flashblocks a block,
  flashblock \<open>k\<close> is published with at most \<open>k\<close> shares of the gas limit used, a share being the limit divided by \<open>n\<close>,
  unless the sequencer's transactions in the fallback block already used more. The gas limit is the one
  the first flashblock announces. The EVM is taken to charge no more than the gas limit of a transaction.\<close>

theorem flashblock_gas_pacing:
  assumes "build_payload b job limiter = Some (Inr (), out)" and "\<not> at_no_tx_pool (jb_attributes job)"
    and "derive_timing (fb_config_of b) (jb_now job) (at_timestamp (jb_attributes job)) = Inr (n, offset, deadline)"
    and "unat n + 1 < 2 ^ 64" and "no_builder_txs (fb_builder_tx b)" and "evm_gas_law (fb_evm b) el"
    and "fb_base (hd (fo_published out)) = Some base"
    and "unat (max (fbd_gas_used (fb_diff (hd (fo_published out)))) (fbb_gas_limit base)) + unat el < 2 ^ 64"
    and "k < length (fo_published out)"
  shows "unat (fbd_gas_used (fb_diff (fo_published out ! k)))
    \<le> max (unat (fbd_gas_used (fb_diff (hd (fo_published out))))) (k * (unat (fbb_gas_limit base) div unat n))"
  using assms(1)
proof (cases rule: build_payload_cases)
  case (flashblocks ctx s out1 n' off dl x0 ctx' s')
  obtain m base' where m: "fo_published out1 = [m]" "fbd_gas_used (fb_diff m) = cumulative_gas_used (ss_info s)"
    "fb_base m = Some base'" "fbb_gas_limit base' = block_gas_limit ctx"
    using fallback_published [OF flashblocks(2,1) nothing_out_start assms(2)] by blast
  have n: "n' = n" using flashblocks(4) assms(3) by simp
  have first: "first_targets ctx' (fb_max_da_block_size b) (disable_state_root (specific (fb_config_of b)))
      (da_footprint_scalar (ss_info s)) n = Inr x0"
    using flashblocks(5) n first_targets_cong [OF flashblocks(10)] by simp
  let ?s0 = "\<lparr> fs_seq = s, fs_best = best_new (jb_pool job), fs_out = out1 \<rparr>"
  have start: "pacing_inv ctx' x0 n m (extra_ctx ctx') ?s0"
    using m first_targets_sel [OF first] by (simp add: pacing_inv_def paced_def flashblocks(7) flashblock_ctx.first)
  have evm: "evm ctx' = fb_evm b" using flashblocks(6) by (simp add: job_ctx_def)
  note loop = build_loop_pacing [OF flashblocks(8) start first assms(4) refl _ _ assms(5)]
  have hd: "hd (fo_published out) = m"
    using build_loop_keeps_first [OF flashblocks(8) assms(5)] m(1) flashblocks(9) by simp
  then have L: "fbb_gas_limit base = block_gas_limit ctx'" using assms(7) m(3,4) flashblocks(10) by simp
  have "paced ctx' n (fbd_gas_used (fb_diff m)) (fo_published out)"
    using loop assms(6,8) evm hd L flashblocks(9) by simp
  then show ?thesis using assms(9) hd L by (simp add: paced_def)
qed (use assms(2) in auto)

theorem flashblock_gas_pacing_witness:
  "\<exists>out. build_payload demo_builder (demo_job False [demo_signal [demo_pool_tx 2 0 None]]) None = Some (Inr (), out) \<and>
     unat (fbd_gas_used (fb_diff (fo_published out ! 1))) \<le> 1 * (30000000 div 8)"
proof -
  obtain out where run: "build_payload demo_builder (demo_job False [demo_signal [demo_pool_tx 2 0 None]]) None = Some (Inr (), out)"
    and gas: "map (fbd_gas_used \<circ> fb_diff) (fo_published out) = [21000, 42000]"
    and base: "map_option fbb_gas_limit (fb_base (hd (fo_published out))) = Some 30000000"
    using demo_build by (elim exE conjE) (rule that)
  obtain m0 m1 where pub: "fo_published out = [m0, m1]" "fbd_gas_used (fb_diff m0) = 21000"
    using gas by (auto simp: map_eq_Cons_conv)
  obtain bs where bs: "fb_base (hd (fo_published out)) = Some bs" "fbb_gas_limit bs = 30000000"
    using base by auto
  have t: "derive_timing (fb_config_of demo_builder) now ts = Inr (8, 250000000, 2000000000)" for now ts
    by (simp add: demo_builder_def demo_cfg_sel)
  have np: "\<not> at_no_tx_pool (jb_attributes (demo_job False sgs))" for sgs by (simp add: demo_job_def)
  from flashblock_gas_pacing [OF run np t _ demo_builder_laws(2,4) bs(1), of 1] show ?thesis
    using run pub bs(2) by simp
qed

text \<open>C6: Every build returns, with a result or an error, whatever the pool offers and the sidecar answers, as long as the
  iterators of the pool are finite and the sidecar's retry limit is not the largest 32-bit number.\<close>

theorem build_payload_terminates:
  assumes "\<And>i. \<exists>r. pt_next (fb_pool b) i = Some r"
    and "\<And>i tx i'. pt_next (fb_pool b) i = Some (Some tx, i') \<Longrightarrow> left i' < (left i :: nat)"
    and "\<And>i a n. left (pt_mark_invalid (fb_pool b) i a n) \<le> left i"
    and "unat (max_retries (sidecar (specific (fb_config_of b)))) < 2 ^ 32 - 1"
  shows "\<exists>r out. build_payload b job limiter = Some (r, out)"
proof -
  have "pool_supply (fb_pool b) left"
    unfolding pool_supply_def by unfold_locales (use assms in blast)+
  from pool_supply.build_payload_returns [OF this refl assms(4), of job limiter] show ?thesis by auto
qed

theorem build_payload_terminates_witness:
  "\<exists>r out. build_payload demo_builder (demo_job False [demo_signal [demo_pool_tx 2 7 None], demo_signal []]) None = Some (r, out)"
proof -
  have "fb_pool demo_builder = snapshot_ops" "unat (max_retries (sidecar (specific (fb_config_of demo_builder)))) < 2 ^ 32 - 1"
    by (simp_all add: demo_builder_def demo_cfg_sel)
  then show ?thesis
    using build_payload_terminates [of demo_builder "\<lambda>i. length (fst i)"]
      snap.next_returns snap.next_decreases snap.mark_invalid_le by auto
qed

text \<open>C7: A build for syncing (the attributes exclude the pool) publishes no flashblock. It hands over one payload, whose
  transactions are transactions of the attributes in their order, without any of the builder or the pool.\<close>

theorem no_tx_pool_builds_attributes_only:
  assumes "build_payload b job limiter = Some (Inr (), out)" and "at_no_tx_pool (jb_attributes job)"
  shows "fo_published out = [] \<and> (\<exists>p. fo_sent out = [p] \<and> fo_best_payload out = Some p \<and>
    subseq (sb_transactions (bp_block p)) (at_transactions (jb_attributes job)))"
  using assms(1)
proof (cases rule: build_payload_cases)
  case (fallback ctx r0)
  have "\<exists>s. r0 = Inr s" using fallback(3) by simp
  with fallback(2,1) nothing_out_start show ?thesis
  proof (cases rule: build_fallback_cases)
    case (built db0 s s1 p m s2)
    have "sb_transactions (bp_block p) = executed_transactions (ss_info s)"
      using build_block_ok(4) [OF built(4)] built(3) assms(2) by simp
    then show ?thesis
      using sequencer_subseq(1) [OF built(2)] built(5-7) fallback(1) assms(2) by (auto simp: job_ctx_def)
  qed auto
qed (use assms(2) in auto)

theorem no_tx_pool_builds_attributes_only_witness:
  "\<exists>out p. build_payload demo_builder (demo_job True []) None = Some (Inr (), out) \<and> fo_published out = [] \<and> fo_sent out = [p]"
proof -
  obtain out where run: "build_payload demo_builder (demo_job True []) None = Some (Inr (), out)"
    using demo_fallback [of True] by blast
  have "at_no_tx_pool (jb_attributes (demo_job True []))" by (simp add: demo_job_def)
  from no_tx_pool_builds_attributes_only [OF run this] show ?thesis using run by blast
qed

text \<open>C8: The timer never leaves two flashblock jobs alive: whatever the order of ticks, deadline and cancellation, and
  whenever the build stops listening, at most one of the tokens it has sent is not cancelled.\<close>

theorem timer_one_live_token:
  "length (filter (\<lambda>t. \<not> List.member (tm_cancelled (timer_run at_end receiver evs)) t)
     (tm_sent (timer_run at_end receiver evs))) \<le> 1"
proof -
  let ?s = "timer_run at_end receiver evs"
  have sub: "set (butlast (tm_sent ?s)) \<subseteq> set (tm_cancelled ?s)"
    using timer_run_inv [of at_end receiver evs] by (simp add: timer_inv_def)
  show ?thesis
  proof (cases "tm_sent ?s" rule: rev_cases)
    case (snoc ts t)
    then have "filter (\<lambda>t. \<not> List.member (tm_cancelled ?s) t) ts = []"
      using sub by (auto simp: filter_empty_conv)
    then show ?thesis using snoc by simp
  qed simp
qed

text \<open>The data target of the flashblocks does not grow like the gas target. When every flashblock reserves \<open>r\<close> bytes
  for pending builder transactions, the gas target after \<open>k\<close> flashblocks is \<open>k + 1\<close> shares, but the data target is
  \<open>k + 1\<close> shares less \<open>k\<close> reservations: the reserve of each earlier flashblock stays subtracted, although the builder
  transactions it was made for are counted as used data.\<close>

theorem data_target_keeps_reservations:
  assumes "first_targets ctx (Some da_limit) no_root scalar n = Inr x"
    and "reserved_da btxs \<le> da_limit div n" and "(k + 1) * unat (da_limit div n) < 2 ^ 64"
  shows "(\<exists>t. fx_target_da_for_batch (after_flashblocks sc btxs k x) = Some t \<and>
      unat t = (k + 1) * unat (da_limit div n) - k * unat (reserved_da btxs)) \<and>
    fx_target_gas_for_batch (after_flashblocks sc btxs k x) = of_nat (k + 1) * (block_gas_limit ctx div n)"
proof -
  have x: "fx_da_per_batch x = Some (da_limit div n)" "fx_target_da_for_batch x = Some (da_limit div n)"
    "fx_target_gas_for_batch x = block_gas_limit ctx div n" "fx_gas_per_batch x = block_gas_limit ctx div n"
    using assms(1) by (auto simp: first_targets_def Let_def split: if_splits)
  have "fx_target_gas_for_batch (after_flashblocks sc btxs k x) = of_nat (k + 1) * (block_gas_limit ctx div n) \<and>
      fx_gas_per_batch (after_flashblocks sc btxs k x) = block_gas_limit ctx div n"
    using x(3,4) by (induction k) (simp_all add: after_flashblocks_def algebra_simps)
  then show ?thesis
    using after_flashblocks_da [OF x(1,2) assms(2,3), of sc] by force
qed

theorem data_target_keeps_reservations_witness:
  "\<exists>t. fx_target_da_for_batch (after_flashblocks None [demo_btx 1 0 False] 3
       \<lparr> fx_flashblock_index = 1, fx_target_flashblock_count = 8, fx_target_gas_for_batch = 3750000,
         fx_target_da_for_batch = Some 1000, fx_target_da_footprint_for_batch = None, fx_gas_per_batch = 3750000,
         fx_da_per_batch = Some 1000, fx_da_footprint_per_batch = None, fx_disable_state_root = False \<rparr>) = Some t \<and> unat t = 3700"
  (is "\<exists>t. fx_target_da_for_batch (after_flashblocks None ?b 3 ?x) = Some t \<and> _")
proof -
  have first: "first_targets (demo_ctx False [] x0) (Some 8000) False None 8 = Inr ?x" for x0
    by (simp add: first_targets_def demo_defs block_gas_limit_def Let_def)
  have r: "reserved_da [demo_btx i 0 False] = 100" for i by (simp add: reserved_da_def demo_btx_def)
  have "\<exists>t. fx_target_da_for_batch (after_flashblocks None ?b 3 ?x) = Some t \<and>
      unat t = (3 + 1) * unat (8000 div 8 :: u64) - 3 * unat (reserved_da ?b)"
    by (rule conjunct1 [OF data_target_keeps_reservations [OF first]]) (simp_all add: r)
  then show ?thesis by (simp add: r)
qed

end
